(* ===== verification/Qbus_Prelude.thy ===== *)
theory Qbus_Prelude
  imports Main "HOL-Library.Multiset"
begin

text \<open>
  Prelude of the qbusbridge development: the fact collections the component theories fill, the
  types every component shares (byte strings, exceptions that a C++ function may throw) and the
  generic list and multiset lemmas their proofs use.

  A C++ function that returns a value and changes an object is a function from the state to a
  pair of result and state; a function that may throw has the result type \<open>exn + 'a\<close>.
\<close>

named_theorems account_simps "effect of an operation on the message accounting"
named_theorems frame_simps "fields an operation leaves unchanged"
named_theorems map_invariants "operations that keep a std::map well formed"

type_synonym bytes = string

text \<open>The exceptions of the library, by the class that the code throws.\<close>

datatype exn =
    RuntimeError string        \<comment> \<open>\<open>std::runtime_error\<close>\<close>
  | ConfigError string         \<comment> \<open>\<open>PulsarConfig::Error\<close>\<close>
  | ConfigNotFound string      \<comment> \<open>\<open>PulsarConfig::NotFound\<close>, by the key\<close>
  | BadData string             \<comment> \<open>\<open>ptree_bad_data\<close>, with the text that was not understood\<close>
  | ThrownText string          \<comment> \<open>a bare \<open>const char*\<close>\<close>

section \<open>Lists split at the first element of a kind\<close>

lemma takeWhile_dropWhile_hit:
  assumes "\<exists>x \<in> set xs. P x"
  shows "\<exists>x rest. dropWhile (\<lambda>x. \<not> P x) xs = x # rest \<and> P x \<and>
           xs = takeWhile (\<lambda>x. \<not> P x) xs @ x # rest"
proof -
  from assms have ne: "dropWhile (\<lambda>x. \<not> P x) xs \<noteq> []"
    by (simp add: dropWhile_eq_Nil_conv)
  then obtain x rest where d: "dropWhile (\<lambda>x. \<not> P x) xs = x # rest"
    by (cases "dropWhile (\<lambda>x. \<not> P x) xs") auto
  have "P x" using hd_dropWhile [OF ne] d by simp
  moreover have "xs = takeWhile (\<lambda>x. \<not> P x) xs @ x # rest"
    using takeWhile_dropWhile_id [of "\<lambda>x. \<not> P x" xs] d by simp
  ultimately show ?thesis using d by blast
qed

lemma foldl_invariant:
  assumes "I s" and "\<And>s x. x \<in> set xs \<Longrightarrow> I s \<Longrightarrow> I (f s x)"
  shows "I (foldl f s xs)"
  using assms by (induction xs arbitrary: s) auto

lemma foldl_frame:
  assumes "\<And>s x. g (f s x) = g s"
  shows "g (foldl f s xs) = g s"
  using assms by (induction xs arbitrary: s) auto

lemma mset_concat_values: "mset (concat (map f xs)) = (\<Sum>x \<leftarrow> xs. mset (f x))"
  by (induction xs) auto

end
