(* ===== verification/Kafka_Thread.thy ===== *)
theory Kafka_Thread
  imports Qbus_Prelude
begin

text \<open>
  The wrappers of pthread (kafka/qbus_thread.cc, qbus_thread.h): \<open>Thread\<close>, \<open>Mutex\<close>, \<open>MutexGuard\<close> and
  \<open>ConditionVariable\<close>. The calls to pthread and the lines that the wrappers log are appended to a
  log, and \<open>pthread_lib\<close> answers a call as a function of the log. A member function either returns
  or ends the process with \<open>abort()\<close>, which is the datatype \<open>run\<close>; the handles are numbers.

  \<open>lock_state\<close> replays the log with the mutexes that are locked; the lemmas say that code which
  locks through a guard, in any nesting, has unlocked everything when it returns.
\<close>

section \<open>The interface of pthread\<close>

datatype pthread_call =
    PthreadCreate | PthreadJoin nat | PthreadDetach nat
  | MutexInit nat | MutexDestroy nat | MutexLock nat | MutexUnlock nat
  | CondInit nat | CondDestroy nat | CondWait nat nat | CondSignal nat | CondBroadcast nat
  | LogError string int             \<comment> \<open>\<open>ERROR\<close> of the function's name and \<open>strerror(err)\<close>\<close>

record pthread_lib =
  pt_err :: "pthread_call list \<Rightarrow> pthread_call \<Rightarrow> int"   \<comment> \<open>the error number, 0 for success\<close>
  pt_new_id :: "pthread_call list \<Rightarrow> nat"                  \<comment> \<open>the id that \<open>pthread_create\<close> stores\<close>

datatype 'a run = Returns 'a "pthread_call list" | Aborts "pthread_call list"

fun run_log :: "'a run \<Rightarrow> pthread_call list" where
  "run_log (Returns _ log) = log"
| "run_log (Aborts log) = log"

section \<open>Thread\<close>

record thread =
  thread_id :: nat

definition Thread_start ::
  "pthread_lib \<Rightarrow> thread \<Rightarrow> pthread_call list \<Rightarrow> bool \<times> thread \<times> pthread_call list" where
  "Thread_start lib t log =
     (let err = pt_err lib log PthreadCreate;
          t' = (if err = 0 then t\<lparr>thread_id := pt_new_id lib log\<rparr> else t);
          log = log @ [PthreadCreate]
      in if err \<noteq> 0 then (False, t', log @ [LogError ''pthread_create'' err]) else (True, t', log))"

definition Thread_stop :: "pthread_lib \<Rightarrow> thread \<Rightarrow> pthread_call list \<Rightarrow> bool \<times> pthread_call list" where
  "Thread_stop lib t log =
     (let err = pt_err lib log (PthreadJoin (thread_id t));
          log = log @ [PthreadJoin (thread_id t)]
      in if err \<noteq> 0 then (False, log @ [LogError ''pthread_join'' err]) else (True, log))"

definition Thread_detach ::
  "pthread_lib \<Rightarrow> thread \<Rightarrow> pthread_call list \<Rightarrow> bool \<times> pthread_call list" where
  "Thread_detach lib t log =
     (let err = pt_err lib log (PthreadDetach (thread_id t));
          log = log @ [PthreadDetach (thread_id t)]
      in if err \<noteq> 0 then (False, log @ [LogError ''pthread_detach'' err]) else (True, log))"

section \<open>Mutex and condition variable\<close>

text \<open>The body that all their member functions have.\<close>

definition call_or_abort ::
  "pthread_lib \<Rightarrow> string \<Rightarrow> pthread_call \<Rightarrow> pthread_call list \<Rightarrow> unit run" where
  "call_or_abort lib name call log =
     (let err = pt_err lib log call
      in if err \<noteq> 0 then Aborts (log @ [call, LogError name err]) else Returns () (log @ [call]))"

definition Mutex_new where "Mutex_new lib h = call_or_abort lib ''pthread_mutex_init'' (MutexInit h)"
definition Mutex_delete where "Mutex_delete lib h = call_or_abort lib ''pthread_mutex_destroy'' (MutexDestroy h)"
definition Mutex_lock where "Mutex_lock lib h = call_or_abort lib ''pthread_mutex_lock'' (MutexLock h)"
definition Mutex_unlock where "Mutex_unlock lib h = call_or_abort lib ''pthread_mutex_unlock'' (MutexUnlock h)"
definition Cond_new where "Cond_new lib h = call_or_abort lib ''pthread_cond_init'' (CondInit h)"
definition Cond_delete where "Cond_delete lib h = call_or_abort lib ''pthread_cond_destroy'' (CondDestroy h)"
definition Cond_wait where "Cond_wait lib h mtx = call_or_abort lib ''pthread_cond_wait'' (CondWait h mtx)"
definition Cond_notify_one where "Cond_notify_one lib h = call_or_abort lib ''pthread_cond_signal'' (CondSignal h)"
definition Cond_notify_all where "Cond_notify_all lib h = call_or_abort lib ''pthread_cond_broadcast'' (CondBroadcast h)"

lemmas wrapper_defs = Mutex_new_def Mutex_delete_def Mutex_lock_def Mutex_unlock_def Cond_new_def
  Cond_delete_def Cond_wait_def Cond_notify_one_def Cond_notify_all_def

text \<open>Statements in sequence; \<open>abort()\<close> ends them.\<close>

definition run_then :: "'a run \<Rightarrow> ('a \<Rightarrow> pthread_call list \<Rightarrow> 'b run) \<Rightarrow> 'b run" where
  "run_then r k = (case r of Returns a log \<Rightarrow> k a log | Aborts log \<Rightarrow> Aborts log)"

text \<open>A block that begins with a \<open>MutexGuard\<close>: the destructor unlocks however the block is left, so
  that an exception is a value \<open>'a\<close> of the block.\<close>

definition with_guard ::
  "pthread_lib \<Rightarrow> nat \<Rightarrow> (pthread_call list \<Rightarrow> 'a run) \<Rightarrow> pthread_call list \<Rightarrow> 'a run" where
  "with_guard lib mtx block log =
     run_then (Mutex_lock lib mtx log) (\<lambda>_ log.
       run_then (block log) (\<lambda>a log.
         run_then (Mutex_unlock lib mtx log) (\<lambda>_ log. Returns a log)))"

section \<open>What the log says about the mutexes\<close>

text \<open>The stack of the mutexes that are locked; \<open>None\<close> when one is unlocked out of order.\<close>

fun lock_step :: "nat list option \<Rightarrow> pthread_call \<Rightarrow> nat list option" where
  "lock_step None _ = None"
| "lock_step (Some held) (MutexLock h) = Some (h # held)"
| "lock_step (Some []) (MutexUnlock h) = None"
| "lock_step (Some (g # held)) (MutexUnlock h) = (if g = h then Some held else None)"
| "lock_step (Some held) _ = Some held"

definition lock_state :: "pthread_call list \<Rightarrow> nat list option" where
  "lock_state log = foldl lock_step (Some []) log"

lemma lock_state_append [simp]: "lock_state (log @ xs) = foldl lock_step (lock_state log) xs"
  by (simp add: lock_state_def)

lemma lock_state_Nil [simp]: "lock_state [] = Some []"
  by (simp add: lock_state_def)

text \<open>A block that leaves the mutexes as it found them, if it returns.\<close>

definition balanced :: "(pthread_call list \<Rightarrow> 'a run) \<Rightarrow> bool" where
  "balanced block \<longleftrightarrow> (\<forall>log a log' held. block log = Returns a log' \<longrightarrow>
     lock_state log = Some held \<longrightarrow> lock_state log' = Some held)"

named_theorems balanced_intros "blocks that leave the mutexes as they found them"

lemma balanced_return [balanced_intros]: "balanced (\<lambda>log. Returns a log)"
  by (simp add: balanced_def)

lemma balanced_then [balanced_intros]:
  "balanced f \<Longrightarrow> (\<And>a. balanced (k a)) \<Longrightarrow> balanced (\<lambda>log. run_then (f log) k)"
  unfolding balanced_def run_then_def by (auto split: run.splits)

lemma balanced_guard [balanced_intros]:
  "balanced block \<Longrightarrow> balanced (with_guard lib mtx block)"
  unfolding balanced_def with_guard_def run_then_def Mutex_lock_def Mutex_unlock_def
    call_or_abort_def
  by (auto simp: Let_def split: run.splits if_splits)

text \<open>Guarded blocks in any nesting and sequence, which end in a result.\<close>

datatype blocks = NoBlock | Seq blocks blocks | Guarded_block nat blocks

fun run_blocks :: "pthread_lib \<Rightarrow> blocks \<Rightarrow> pthread_call list \<Rightarrow> unit run" where
  "run_blocks lib NoBlock log = Returns () log"
| "run_blocks lib (Seq a b) log = run_then (run_blocks lib a log) (\<lambda>_. run_blocks lib b)"
| "run_blocks lib (Guarded_block m b) log = with_guard lib m (run_blocks lib b) log"

lemma balanced_run_blocks [balanced_intros]: "balanced (run_blocks lib b)"
proof (induction b)
  case NoBlock
  then show ?case by (simp add: balanced_def)
next
  case (Seq a b)
  have "run_blocks lib (Seq a b) = (\<lambda>log. run_then (run_blocks lib a log) (\<lambda>_. run_blocks lib b))"
    by (simp add: fun_eq_iff)
  with balanced_then [OF Seq.IH(1), of "\<lambda>_. run_blocks lib b"] Seq.IH(2) show ?case by simp
next
  case (Guarded_block m b)
  have "run_blocks lib (Guarded_block m b) = with_guard lib m (run_blocks lib b)"
    by (simp add: fun_eq_iff)
  with balanced_guard [OF Guarded_block.IH] show ?case by simp
qed

text \<open>A library whose calls all succeed, and one whose unlocking fails.\<close>

definition good_pthread :: pthread_lib where
  "good_pthread = \<lparr>pt_err = (\<lambda>_ _. 0), pt_new_id = length\<rparr>"

definition bad_unlock :: pthread_lib where
  "bad_unlock = \<lparr>pt_err = (\<lambda>_ c. case c of MutexUnlock _ \<Rightarrow> 1 | _ \<Rightarrow> 0), pt_new_id = length\<rparr>"

section \<open>Properties\<close>

text \<open>Code that locks only through \<open>MutexGuard\<close>, however nested, holds no mutex any more
  when it returns, and has unlocked in the opposite order; it returns unless pthread reported an
  error, and then the process has ended with that error as the last line of the log.\<close>

theorem guards_release:
  "case run_blocks lib b [] of
     Returns _ log \<Rightarrow> lock_state log = Some [] \<and> (\<forall>name err. LogError name err \<notin> set log)
   | Aborts log \<Rightarrow> (\<exists>log' call name err. log = log' @ [call, LogError name err] \<and>
       err = pt_err lib log' call \<and> err \<noteq> 0)"
proof -
  have "case run_blocks lib b log of
     Returns _ log' \<Rightarrow> (\<forall>name err. LogError name err \<in> set log' \<longrightarrow> LogError name err \<in> set log)
   | Aborts log \<Rightarrow> (\<exists>log' call name err. log = log' @ [call, LogError name err] \<and>
       err = pt_err lib log' call \<and> err \<noteq> 0)" for log
  proof (induction b arbitrary: log)
    case (Seq a b)
    then show ?case by (fastforce simp: run_then_def split: run.splits)
  next
    case (Guarded_block m b)
    show ?case
      using Guarded_block [of "log @ [MutexLock m]"]
      by (auto simp: with_guard_def run_then_def Mutex_lock_def Mutex_unlock_def call_or_abort_def
          Let_def split: run.splits)
  qed simp
  from this [of "[]"] show ?thesis
    using balanced_run_blocks [of lib b] by (auto simp: balanced_def split: run.splits)
qed

end
