(* ===== verification/Cpp_Strings.thy ===== *)
theory Cpp_Strings
  imports Qbus_Prelude "HOL-Library.Char_ord" "HOL-Library.Word" "HOL-Library.Sublist"
begin

text \<open>
  The C and C++ string functions the sources call, on byte strings without an embedded NUL:
  \<open>tolower\<close> and \<open>strncasecmp\<close> (C locale), \<open>std::string::find\<close> of one character and \<open>rfind\<close>
  of a pattern, decimal output of an integer (\<open>ostream <<\<close>, \<open>%i\<close>, \<open>%02d\<close>), and
  \<open>atoll\<close> / \<open>strtol(s, NULL, 10)\<close>. A 64-bit \<open>long\<close> is an \<open>int\<close> clamped to its range, as
  \<open>strtol\<close> clamps it; the conversion of a \<open>long\<close> to \<open>int\<close> keeps its low 32 bits.
\<close>

section \<open>Case folding\<close>

definition tolower_char :: "char \<Rightarrow> char" where
  "tolower_char c =
     (if CHR ''A'' \<le> c \<and> c \<le> CHR ''Z'' then char_of (of_char c + 32 :: nat) else c)"

definition lowercase :: "string \<Rightarrow> string" where
  "lowercase s = map tolower_char s"

text \<open>\<open>strncasecmp(s, t, n) == 0\<close>: the end of a list is the terminating NUL.\<close>

fun strncasecmp_eq :: "string \<Rightarrow> string \<Rightarrow> nat \<Rightarrow> bool" where
  "strncasecmp_eq s t 0 = True"
| "strncasecmp_eq [] [] (Suc n) = True"
| "strncasecmp_eq [] (b # t) (Suc n) = False"
| "strncasecmp_eq (a # s) [] (Suc n) = False"
| "strncasecmp_eq (a # s) (b # t) (Suc n) =
     (tolower_char a = tolower_char b \<and> strncasecmp_eq s t n)"

lemma length_lowercase [simp]: "length (lowercase s) = length s"
  by (simp add: lowercase_def)

text \<open>
  The sources always compare with the length of the configured value, which makes the
  comparison a test whether the value is a prefix of the literal.
\<close>

lemma strncasecmp_length_iff_prefix:
  "strncasecmp_eq s t (length s) \<longleftrightarrow> prefix (lowercase s) (lowercase t)"
  by (induction s t "length s" rule: strncasecmp_eq.induct) (auto simp: lowercase_def)

section \<open>Searching\<close>

definition find_char :: "char \<Rightarrow> string \<Rightarrow> bool" where
  "find_char c s = (c \<in> set s)"

text \<open>\<open>s.rfind(pat)\<close>: the greatest position at which \<open>pat\<close> occurs, \<open>None\<close> for \<open>npos\<close>.\<close>

fun rfind :: "string \<Rightarrow> string \<Rightarrow> nat option" where
  "rfind [] pat = (if pat = [] then Some 0 else None)"
| "rfind (c # s) pat =
     (case rfind s pat of
        Some i \<Rightarrow> Some (Suc i)
      | None \<Rightarrow> if prefix pat (c # s) then Some 0 else None)"

lemma all_le_Suc: "(\<forall>i \<le> Suc n. P i) \<longleftrightarrow> P 0 \<and> (\<forall>i \<le> n. P (Suc i))"
  by (metis Suc_le_mono not0_implies_Suc zero_le)

lemma rfind_None: "rfind s pat = None \<longleftrightarrow> (\<forall>i \<le> length s. \<not> prefix pat (drop i s))"
  by (induction s) (auto simp: all_le_Suc split: option.splits)

lemma rfind_append_last:
  assumes "\<And>i. i \<le> length t \<Longrightarrow> 0 < i \<Longrightarrow> \<not> prefix pat (drop i t)" and "prefix pat t"
    and "pat \<noteq> []"
  shows "rfind (s @ t) pat = Some (length s)"
proof (induction s)
  case Nil
  from assms(2,3) obtain c t' where t: "t = c # t'" by (cases t) auto
  have "rfind t' pat = None"
    unfolding rfind_None using assms(1) [of "Suc _"] t by auto
  with assms(2) t show ?case by simp
next
  case (Cons c s)
  then show ?case by simp
qed

section \<open>Decimal numbers\<close>

definition digit_char :: "nat \<Rightarrow> char" where
  "digit_char d = char_of (48 + d)"

definition c_isdigit :: "char \<Rightarrow> bool" where
  "c_isdigit c = (CHR ''0'' \<le> c \<and> c \<le> CHR ''9'')"

definition c_isspace :: "char \<Rightarrow> bool" where
  "c_isspace c = (c = CHR '' '' \<or> (9 \<le> (of_char c :: nat) \<and> (of_char c :: nat) \<le> 13))"

fun show_nat :: "nat \<Rightarrow> string" where
  "show_nat n = (if n < 10 then [digit_char n] else show_nat (n div 10) @ [digit_char (n mod 10)])"

declare show_nat.simps [simp del]

definition show_int :: "int \<Rightarrow> string" where
  "show_int i = (if i < 0 then CHR ''-'' # show_nat (nat (- i)) else show_nat (nat i))"

text \<open>\<open>%02d\<close>\<close>

definition show_02d :: "int \<Rightarrow> string" where
  "show_02d i = (if 0 \<le> i \<and> i < 10 then CHR ''0'' # show_int i else show_int i)"

definition digits_value :: "string \<Rightarrow> nat" where
  "digits_value ds = foldl (\<lambda>n c. 10 * n + (of_char c - 48)) 0 ds"

definition clamp_long :: "int \<Rightarrow> int" where
  "clamp_long i = max (- (2 ^ 63)) (min (2 ^ 63 - 1) i)"

text \<open>\<open>strtol(s, NULL, 10)\<close>; \<open>atoll\<close> is the same function where its result is defined.\<close>

definition strtol10 :: "string \<Rightarrow> int" where
  "strtol10 s =
     (let t = dropWhile c_isspace s;
          neg = (t \<noteq> [] \<and> hd t = CHR ''-'');
          ds = (if t \<noteq> [] \<and> (hd t = CHR ''-'' \<or> hd t = CHR ''+'') then tl t else t);
          n = int (digits_value (takeWhile c_isdigit ds))
      in clamp_long (if neg then - n else n))"

text \<open>\<open>static_cast<int>\<close> of a \<open>long\<close>.\<close>

definition long_to_int :: "int \<Rightarrow> int" where
  "long_to_int i = sint (word_of_int i :: 32 word)"

lemma of_char_digit [simp]: "d < 10 \<Longrightarrow> (of_char (digit_char d) :: nat) = 48 + d"
  by (simp add: digit_char_def)

lemma c_isdigit_iff: "c_isdigit c \<longleftrightarrow> 48 \<le> (of_char c :: nat) \<and> (of_char c :: nat) \<le> 57"
  by (simp add: c_isdigit_def less_eq_char_def)

lemma c_isdigit_digit_char [simp]: "d < 10 \<Longrightarrow> c_isdigit (digit_char d)"
  by (simp add: c_isdigit_iff)

lemma show_nat_digits: "c \<in> set (show_nat n) \<Longrightarrow> c_isdigit c"
proof (induction n rule: show_nat.induct)
  case (1 n)
  then show ?case
    by (cases "n < 10") (auto simp: show_nat.simps [of n])
qed

lemma show_nat_ne [simp]: "show_nat n \<noteq> []"
  by (subst show_nat.simps) simp

lemma digits_value_snoc: "digits_value (ds @ [c]) = 10 * digits_value ds + (of_char c - 48)"
  by (simp add: digits_value_def)

lemma digits_value_show_nat [simp]: "digits_value (show_nat n) = n"
proof (induction n rule: show_nat.induct)
  case (1 n)
  then show ?case
    by (cases "n < 10")
       (simp_all add: show_nat.simps [of n] digits_value_snoc, simp add: digits_value_def)
qed

lemma show_nat_inject [simp]: "show_nat m = show_nat n \<longleftrightarrow> m = n"
  by (metis digits_value_show_nat)

lemma minus_not_digit [simp]: "\<not> c_isdigit (CHR ''-'')"
  by (simp add: c_isdigit_iff)

lemma show_int_inject [simp]: "show_int i = show_int j \<longleftrightarrow> i = j"
proof -
  have "CHR ''-'' # s \<noteq> show_nat n" for s n
    using show_nat_digits [of "CHR ''-''" n] by (metis list.set_intros(1) minus_not_digit)
  then show ?thesis
    by (auto simp: show_int_def nat_eq_iff) (metis nat_0_le linorder_not_less)+
qed

lemma show_int_ne [simp]: "show_int i \<noteq> []"
  by (simp add: show_int_def)

lemma c_isdigit_last_show_int: "c_isdigit (last (show_int i))"
  using show_nat_digits [OF last_in_set [OF show_nat_ne]] by (simp add: show_int_def)

lemma takeWhile_digits_show_nat: "takeWhile c_isdigit (show_nat n) = show_nat n"
  using show_nat_digits by (auto simp: takeWhile_eq_all_conv)

lemma dropWhile_space_show_int: "dropWhile c_isspace (show_int i) = show_int i"
proof -
  have "\<not> c_isspace c" if "c_isdigit c" for c
    using that by (auto simp: c_isdigit_iff c_isspace_def)
  then have "\<not> c_isspace (hd (show_int i))"
    using show_nat_digits [OF hd_in_set [OF show_nat_ne]]
    by (auto simp: show_int_def c_isspace_def)
  then show ?thesis by (cases "show_int i") auto
qed

text \<open>Printing a \<open>long\<close> and reading it back.\<close>

lemma strtol10_show_int:
  assumes "- (2 ^ 63) \<le> i" and "i < 2 ^ 63"
  shows "strtol10 (show_int i) = i"
proof -
  have hd: "hd (show_nat n) \<noteq> CHR ''-''" "hd (show_nat n) \<noteq> CHR ''+''" for n
    using show_nat_digits [OF hd_in_set [OF show_nat_ne [of n]]] by (auto simp: c_isdigit_iff)
  show ?thesis
  proof (cases "i < 0")
    case True
    then show ?thesis
      using assms
      by (simp add: strtol10_def dropWhile_space_show_int)
         (simp add: show_int_def takeWhile_digits_show_nat clamp_long_def)
  next
    case False
    then show ?thesis
      using assms hd
      by (simp add: strtol10_def dropWhile_space_show_int)
         (simp add: show_int_def takeWhile_digits_show_nat clamp_long_def)
  qed
qed

lemma long_to_int_range: "- (2 ^ 31) \<le> long_to_int i \<and> long_to_int i < 2 ^ 31"
  using sint_range_size [of "word_of_int i :: 32 word"] by (simp add: long_to_int_def word_size)

lemma long_to_int_id: "- (2 ^ 31) \<le> i \<Longrightarrow> i < 2 ^ 31 \<Longrightarrow> long_to_int i = i"
  by (simp add: long_to_int_def signed_of_int signed_take_bit_int_eq_self)

end
