(* ===== verification/Kafka_Logger.thy ===== *)
theory Kafka_Logger
  imports Cpp_Strings
begin

text \<open>
  The SDK's own log set-up on the Kafka side: \<open>LUtil::Logger\<close> (kafka/util/logger.h, logger.cc) and
  \<open>QbusHelper::initLog\<close> (kafka/qbus_helper.cc). The static members become a record; the
  log4cplus objects are the list of the appenders that were attached. What is written to the log
  is not modelled.
\<close>

datatype log_level = LL_ALL | LL_DEBUG | LL_INFO | LL_WARNING | LL_ERROR | LL_NONE

fun level_value :: "log_level \<Rightarrow> int" where
  "level_value LL_ALL = 0"
| "level_value LL_DEBUG = 10000"
| "level_value LL_INFO = 20000"
| "level_value LL_WARNING = 30000"
| "level_value LL_ERROR = 40000"
| "level_value LL_NONE = 50000"

lemma level_value_inject [simp]: "level_value a = level_value b \<longleftrightarrow> a = b"
  by (cases a; cases b) simp_all

instantiation log_level :: linorder
begin

definition less_eq_log_level :: "log_level \<Rightarrow> log_level \<Rightarrow> bool" where
  "less_eq_log_level a b = (level_value a \<le> level_value b)"

definition less_log_level :: "log_level \<Rightarrow> log_level \<Rightarrow> bool" where
  "less_log_level a b = (level_value a < level_value b)"

instance
proof
  fix a b c :: log_level
  show "a < b \<longleftrightarrow> a \<le> b \<and> \<not> b \<le> a"
    by (auto simp: less_eq_log_level_def less_log_level_def)
  show "a \<le> a" by (simp add: less_eq_log_level_def)
  show "a \<le> b \<Longrightarrow> b \<le> c \<Longrightarrow> a \<le> c" by (simp add: less_eq_log_level_def)
  show "a \<le> b \<Longrightarrow> b \<le> a \<Longrightarrow> a = b" by (simp add: less_eq_log_level_def)
  show "a \<le> b \<or> b \<le> a" by (auto simp: less_eq_log_level_def)
qed

end

datatype appender = FileAppender string | ConsoleAppender

record logger_state =
  sLogger :: bool                     \<comment> \<open>\<open>Logger::sLogger\<close> is not NULL\<close>
  sInit :: bool
  logger_level :: "log_level option"  \<comment> \<open>last level given to \<open>setLogLevel\<close>\<close>
  appenders :: "appender list"
  kInit_log :: bool                   \<comment> \<open>\<open>QbusHelper::kInit_log\<close>\<close>

definition logger_start :: logger_state where
  "logger_start = \<lparr>sLogger = False, sInit = False, logger_level = None, appenders = [],
                   kInit_log = False\<rparr>"

definition DEFAULT_LOG_FILE_NAME :: string where
  "DEFAULT_LOG_FILE_NAME = ''__lutil_logger__.log''"

text \<open>\<open>Logger::init\<close>; \<open>new\<close> never gives NULL, it throws.\<close>

definition Logger_init :: "log_level \<Rightarrow> string \<Rightarrow> bool \<Rightarrow> logger_state \<Rightarrow> logger_state" where
  "Logger_init level fileName outputConsole s =
     (if level = LL_NONE then s
      else if \<not> sInit s then
        (let file = (if fileName = '''' then DEFAULT_LOG_FILE_NAME else fileName);
             s = s\<lparr>sLogger := True\<rparr>;
             s = s\<lparr>appenders := appenders s @ [FileAppender file] @
                     (if outputConsole then [ConsoleAppender] else [])\<rparr>;
             s = s\<lparr>logger_level := Some level\<rparr>
         in s\<lparr>sInit := True\<rparr>)
      else s)"

text \<open>The \<open>if\<close> chain that turns a configured word into a level; the default is \<open>LL_INFO\<close>.\<close>

definition parse_log_level :: "string \<Rightarrow> log_level" where
  "parse_log_level log_level =
     (if strncasecmp_eq log_level ''all'' (length log_level) then LL_ALL
      else if strncasecmp_eq log_level ''debug'' (length log_level) then LL_DEBUG
      else if strncasecmp_eq log_level ''info'' (length log_level) then LL_INFO
      else if strncasecmp_eq log_level ''warning'' (length log_level) then LL_WARNING
      else if strncasecmp_eq log_level ''error'' (length log_level) then LL_ERROR
      else if strncasecmp_eq log_level ''none'' (length log_level) then LL_NONE
      else LL_INFO)"

text \<open>\<open>Logger::setLogLevel\<close>; \<open>None\<close> is the dereference of the NULL \<open>sLogger\<close>.\<close>

definition Logger_setLogLevel :: "string \<Rightarrow> logger_state \<Rightarrow> logger_state option" where
  "Logger_setLogLevel log_level s =
     (let level = parse_log_level log_level in
      if level \<noteq> LL_NONE then
        (if sLogger s then Some (s\<lparr>logger_level := Some level\<rparr>) else None)
      else Some s)"

definition Logger_uninit :: "logger_state \<Rightarrow> logger_state" where
  "Logger_uninit s = s\<lparr>sLogger := False, sInit := False\<rparr>"

text \<open>\<open>Logger::instance()\<close>: whether it is NULL, and the state after it.\<close>

definition Logger_instance :: "logger_state \<Rightarrow> bool \<times> logger_state" where
  "Logger_instance s =
     (if sInit s then (if \<not> sLogger s then (True, s\<lparr>sLogger := True\<rparr>) else (True, s))
      else (False, s))"

definition initLog_level :: "log_level \<Rightarrow> string \<Rightarrow> logger_state \<Rightarrow> logger_state" where
  "initLog_level level log_path s =
     (if \<not> kInit_log s \<and> log_path \<noteq> ''''
      then (Logger_init level log_path False s)\<lparr>kInit_log := True\<rparr>
      else s)"

definition initLog :: "string \<Rightarrow> string \<Rightarrow> logger_state \<Rightarrow> logger_state" where
  "initLog log_level log_path s =
     (let level = parse_log_level log_level in
      if \<not> kInit_log s \<and> log_path \<noteq> ''''
      then (Logger_init level log_path False s)\<lparr>kInit_log := True\<rparr>
      else s)"

section \<open>Properties\<close>

lemma initLog_eq: "initLog w p = initLog_level (parse_log_level w) p"
  by (simp add: initLog_def initLog_level_def Let_def fun_eq_iff)

lemma kInit_log_Logger_init [simp]: "kInit_log (Logger_init l f b s) = kInit_log s"
  by (simp add: Logger_init_def Let_def)

lemma initLog_level_done: "kInit_log s \<Longrightarrow> initLog_level l p s = s"
  by (simp add: initLog_level_def)

lemma kInit_log_initLog_level: "p \<noteq> '''' \<Longrightarrow> kInit_log (initLog_level l p s)"
  by (simp add: initLog_level_def)

lemmas logger_defs = Logger_init_def Logger_setLogLevel_def Logger_uninit_def Logger_instance_def

text \<open>The invariant of the statics: an initialised logger has a level and an appender.\<close>

definition logger_ok :: "logger_state \<Rightarrow> bool" where
  "logger_ok s \<longleftrightarrow> (sInit s \<longrightarrow> sLogger s \<and> logger_level s \<noteq> None \<and> appenders s \<noteq> [])"

lemma logger_ok_initLog: "logger_ok s \<Longrightarrow> logger_ok (initLog w p s)"
  by (simp add: initLog_eq initLog_level_def logger_ok_def Logger_init_def Let_def)

end
