(* ===== verification/Kafka_Lib.thy ===== *)
theory Kafka_Lib
  imports Qbus_Prelude Cpp_Strings Kafka_Logger
begin

text \<open>
  The interface of librdkafka (and of the few POSIX calls) that the Kafka clients use. The
  library is not part of the repository. Every call that the client makes is appended to the
  client's call log (\<open>calls\<close>), and the record \<open>rk_lib\<close> says what each call answers, as a function
  of the calls made so far. A property for every \<open>rk_lib\<close> is therefore a property for every
  behaviour of the library, of the brokers behind it and of the clock.

  The data that crosses the interface is what the sources read: the fields of
  \<open>rd_kafka_message_t\<close> (with the address of the message, because the code compares and frees
  pointers), the entries of a topic partition list, and the rebalance events.
\<close>

section \<open>Data\<close>

record rk_message =
  m_ptr :: nat                     \<comment> \<open>address of the message\<close>
  m_err :: int                     \<comment> \<open>\<open>err\<close>, 0 for \<open>RD_KAFKA_RESP_ERR_NO_ERROR\<close>\<close>
  m_topic :: "string option"       \<comment> \<open>\<open>rd_kafka_topic_name(rkt)\<close>, \<open>None\<close> for NULL\<close>
  m_partition :: int
  m_offset :: int
  m_payload :: "string option"     \<comment> \<open>\<open>payload\<close> and \<open>len\<close>, \<open>None\<close> for NULL\<close>
  m_key :: "string option"         \<comment> \<open>\<open>key\<close> and \<open>key_len\<close>\<close>

record rk_partition =
  p_topic :: string
  p_partition :: int
  p_offset :: int

record tm =
  tm_year :: int
  tm_mon :: int
  tm_mday :: int
  tm_hour :: int
  tm_min :: int
  tm_sec :: int

text \<open>The error of \<open>rd_kafka_resp_err_t\<close> with which a rebalance callback is called.\<close>

datatype rebalance =
    AssignPartitions "rk_partition list"
  | RevokePartitions "rk_partition list"
  | RebalanceFailed int "rk_partition list"

section \<open>Calls\<close>

datatype rk_call =
    ConfNew | TopicConfNew
  | ConfSet string string | TopicConfSet string string
  | ConfGet string | TopicConfGet string
  | ConfSetOpaque | ConfSetRebalanceCb | ConfSetLogCb bool | ConfSetDrMsgCb
  | TopicConfSetPartitionerCb | ConfSetDefaultTopicConf
  | NewHandle | BrokersAdd string | PollSetConsumer
  | TopicListNew | TopicListAdd string | Subscribe "string list"
  | ThreadCreate | ThreadJoin
  | ConsumerPoll int | PollReturned "rk_message option"
  | PausePartitions "rk_partition list" | ResumePartitions "rk_partition list"
  | RebalanceAssign "rk_partition list option"
  | CommitMessage rk_message | MessageDestroy nat
  | MessageRead nat                \<comment> \<open>fields of a message are read, by its address\<close>
  | DeliveryMsg nat string string nat
    \<comment> \<open>address of the message it was copied from, then the arguments\<close>
  | DeliveryMsgForCommitOffset rk_message string string nat
  | ConsumerClose | HandleDestroy | WaitDestroyed int
  | TopicNew string | TopicDestroy
  | Produce "string option" "string option" bool   \<comment> \<open>payload, key, with the producer as opaque\<close>
  | Poll int | Flush int
  | RecordMsg string string
  | GetTimeOfDay

section \<open>Answers\<close>

record rk_lib =
  rk_conf_new :: "rk_call list \<Rightarrow> bool"                       \<comment> \<open>not NULL\<close>
  rk_topic_conf_new :: "rk_call list \<Rightarrow> bool"
  rk_conf_set :: "rk_call list \<Rightarrow> string \<Rightarrow> string \<Rightarrow> bool"    \<comment> \<open>\<open>RD_KAFKA_CONF_OK\<close>\<close>
  rk_topic_conf_set :: "rk_call list \<Rightarrow> string \<Rightarrow> string \<Rightarrow> bool"
  rk_conf_get :: "rk_call list \<Rightarrow> string \<Rightarrow> string option"    \<comment> \<open>\<open>Some\<close> the value when OK\<close>
  rk_new :: "rk_call list \<Rightarrow> bool"
  rk_brokers_add :: "rk_call list \<Rightarrow> string \<Rightarrow> int"
  rk_poll_set_consumer :: "rk_call list \<Rightarrow> int"
  rk_list_new :: "rk_call list \<Rightarrow> bool"
  rk_list_add_ok :: "rk_call list \<Rightarrow> string \<Rightarrow> bool"
  rk_list_add :: "rk_partition list \<Rightarrow> string \<Rightarrow> int \<Rightarrow> rk_partition list"
  rk_list_add_range :: "rk_partition list \<Rightarrow> string \<Rightarrow> int \<Rightarrow> int \<Rightarrow> rk_partition list"
  rk_subscribe :: "rk_call list \<Rightarrow> string list \<Rightarrow> int"
  rk_thread_create :: "rk_call list \<Rightarrow> int"
  rk_consumer_poll :: "rk_call list \<Rightarrow> int \<Rightarrow> rebalance list \<times> rk_message option"
    \<comment> \<open>the rebalance callbacks served by the poll, then what it returns\<close>
  rk_pause_partitions :: "rk_call list \<Rightarrow> rk_partition list \<Rightarrow> int"
  rk_resume_partitions :: "rk_call list \<Rightarrow> rk_partition list \<Rightarrow> int"
  rk_consumer_close :: "rk_call list \<Rightarrow> rebalance list \<times> int"
  rk_wait_destroyed :: "rk_call list \<Rightarrow> int"
  rk_topic_new :: "rk_call list \<Rightarrow> string \<Rightarrow> bool"
  rk_produce :: "rk_call list \<Rightarrow> string option \<Rightarrow> string option \<Rightarrow> int"
  rk_poll :: "rk_call list \<Rightarrow> int \<Rightarrow> rk_message list"          \<comment> \<open>the delivery reports it serves\<close>
  rk_flush :: "rk_call list \<Rightarrow> int \<Rightarrow> rk_message list \<times> int"
  rk_gettimeofday :: "rk_call list \<Rightarrow> int \<times> int"
  rk_gettid :: "rk_call list \<Rightarrow> int"
  rk_localtime :: "rk_call list \<Rightarrow> tm option"

text \<open>What the code relies on in the list functions: \<open>add\<close> appends an entry.\<close>

definition list_add_law :: "rk_lib \<Rightarrow> bool" where
  "list_add_law lib \<longleftrightarrow>
     (\<forall>l t p. map (\<lambda>e. (p_topic e, p_partition e)) (rk_list_add lib l t p) =
                map (\<lambda>e. (p_topic e, p_partition e)) l @ [(t, p)])"

section \<open>A client of the library\<close>

text \<open>Every client also sees the process-wide log statics.\<close>

record rk_client =
  calls :: "rk_call list"
  logger :: logger_state

definition emit :: "rk_call \<Rightarrow> 'a rk_client_scheme \<Rightarrow> 'a rk_client_scheme" where
  "emit call c = c\<lparr>calls := calls c @ [call]\<rparr>"

lemma calls_emit [simp]: "calls (emit x c) = calls c @ [x]"
  by (simp add: emit_def)

text \<open>A library that accepts everything, serves no messages and whose clock stands still.\<close>

definition quiet_lib :: rk_lib where
  "quiet_lib = \<lparr>
     rk_conf_new = (\<lambda>_. True), rk_topic_conf_new = (\<lambda>_. True),
     rk_conf_set = (\<lambda>_ _ _. True), rk_topic_conf_set = (\<lambda>_ _ _. True),
     rk_conf_get = (\<lambda>_ _. Some ''true''),
     rk_new = (\<lambda>_. True), rk_brokers_add = (\<lambda>_ _. 1), rk_poll_set_consumer = (\<lambda>_. 0),
     rk_list_new = (\<lambda>_. True), rk_list_add_ok = (\<lambda>_ _. True),
     rk_list_add = (\<lambda>l t p. l @ [\<lparr>p_topic = t, p_partition = p, p_offset = -1001\<rparr>]),
     rk_list_add_range = (\<lambda>l t a b. l @ map (\<lambda>p. \<lparr>p_topic = t, p_partition = p, p_offset = -1001\<rparr>) [a..b]),
     rk_subscribe = (\<lambda>_ _. 0), rk_thread_create = (\<lambda>_. 0),
     rk_consumer_poll = (\<lambda>_ _. ([], None)),
     rk_pause_partitions = (\<lambda>_ _. 0), rk_resume_partitions = (\<lambda>_ _. 0),
     rk_consumer_close = (\<lambda>_. ([], 0)), rk_wait_destroyed = (\<lambda>_. 0),
     rk_topic_new = (\<lambda>_ _. True), rk_produce = (\<lambda>_ _ _. 0),
     rk_poll = (\<lambda>_ _. []), rk_flush = (\<lambda>_ _. ([], 0)),
     rk_gettimeofday = (\<lambda>_. (0, 0)), rk_gettid = (\<lambda>_. 1), rk_localtime = (\<lambda>_. None)\<rparr>"

lemma list_add_law_quiet_lib: "list_add_law quiet_lib"
  by (simp add: list_add_law_def quiet_lib_def)

end
