(* ===== verification/Std_Map.thy ===== *)
theory Std_Map
  imports Qbus_Prelude "HOL-Library.Char_ord" "HOL-Library.List_Lexorder"
begin

text \<open>
  \<open>std::map\<close> and \<open>std::set\<close> of the C++ standard library, as far as the sources use them: an
  ordered map is an association list whose keys ascend strictly, so that iterating over the map
  is iterating over the list. \<open>smap_insert\<close> is \<open>map::insert\<close>, which keeps the value of a key
  that is already there; \<open>smap_assign\<close> is \<open>m[k] = v\<close>; \<open>map_of\<close> is \<open>map::find\<close>. Keys of type
  \<open>std::string\<close> are byte strings, ordered byte by byte (Char_ord and List_Lexorder), as
  \<open>std::string::operator<\<close> orders them. \<open>std::set\<close> is a strictly ascending list and its
  \<open>insert\<close> the library's \<open>insort_insert\<close>.

  The locale \<open>std_map\<close> states the contract the components rely on; the components use its facts
  through the interpretation \<open>smap\<close>.
\<close>

fun smap_insert :: "'k::linorder \<Rightarrow> 'v \<Rightarrow> ('k \<times> 'v) list \<Rightarrow> ('k \<times> 'v) list" where
  "smap_insert k v [] = [(k, v)]"
| "smap_insert k v ((a, b) # m) =
     (if k < a then (k, v) # (a, b) # m
      else if k = a then (a, b) # m
      else (a, b) # smap_insert k v m)"

fun smap_assign :: "'k::linorder \<Rightarrow> 'v \<Rightarrow> ('k \<times> 'v) list \<Rightarrow> ('k \<times> 'v) list" where
  "smap_assign k v [] = [(k, v)]"
| "smap_assign k v ((a, b) # m) =
     (if k < a then (k, v) # (a, b) # m
      else if k = a then (k, v) # m
      else (a, b) # smap_assign k v m)"

definition smap_ok :: "('k::linorder \<times> 'v) list \<Rightarrow> bool" where
  "smap_ok m = sorted_wrt (<) (map fst m)"

definition sset_ok :: "'a::linorder list \<Rightarrow> bool" where
  "sset_ok s = sorted_wrt (<) s"

section \<open>The representation\<close>

lemma smap_ok_Nil [simp]: "smap_ok []"
  by (simp add: smap_ok_def)

lemma smap_ok_Cons: "smap_ok ((a, b) # m) \<longleftrightarrow> (\<forall>x \<in> set m. a < fst x) \<and> smap_ok m"
  by (auto simp: smap_ok_def)

lemma smap_ok_distinct: "smap_ok m \<Longrightarrow> distinct (map fst m)"
  by (induction m) (auto simp: smap_ok_def)

lemma map_of_below: "\<forall>x \<in> set m. (k :: _ :: linorder) < fst x \<Longrightarrow> map_of m k = None"
  by (induction m) auto

lemma map_of_smap_assign: "map_of (smap_assign k v m) = (map_of m)(k \<mapsto> v)"
  by (induction k v m rule: smap_assign.induct) (auto simp: fun_eq_iff)

lemma map_of_smap_insert:
  "smap_ok m \<Longrightarrow> map_of (smap_insert k v m) =
     (case map_of m k of None \<Rightarrow> (map_of m)(k \<mapsto> v) | Some _ \<Rightarrow> map_of m)"
proof (induction k v m rule: smap_insert.induct)
  case (1 k v)
  then show ?case by simp
next
  case (2 k v a b m)
  consider "k < a" | "k = a" | "a < k" by fastforce
  then show ?case
  proof cases
    case 1
    with "2.prems" have "map_of ((a, b) # m) k = None"
      by (intro map_of_below) (auto simp: smap_ok_Cons)
    with 1 show ?thesis by (simp add: fun_eq_iff)
  next
    case 2
    then show ?thesis by simp
  next
    case 3
    with "2.IH" "2.prems" show ?thesis
      by (auto simp: smap_ok_Cons fun_eq_iff split: option.splits)
  qed
qed

lemma set_smap_assign_fst: "fst ` set (smap_assign k v m) = insert k (fst ` set m)"
  by (induction k v m rule: smap_assign.induct) auto

lemma set_smap_insert_fst: "fst ` set (smap_insert k v m) = insert k (fst ` set m)"
  by (induction k v m rule: smap_insert.induct) auto

lemma smap_ok_assign [map_invariants]: "smap_ok m \<Longrightarrow> smap_ok (smap_assign k v m)"
proof (induction k v m rule: smap_assign.induct)
  case (2 k v a b m)
  have "a < fst x" if "x \<in> set (smap_assign k v m)" "\<not> k < a" "k \<noteq> a" for x
  proof -
    from that(1) have "fst x \<in> insert k (fst ` set m)"
      using set_smap_assign_fst [of k v m] by blast
    with that "2.prems" show ?thesis by (auto simp: smap_ok_Cons)
  qed
  with 2 show ?case by (force simp: smap_ok_Cons)
qed (simp add: smap_ok_Cons)

lemma smap_ok_insert [map_invariants]: "smap_ok m \<Longrightarrow> smap_ok (smap_insert k v m)"
proof (induction k v m rule: smap_insert.induct)
  case (2 k v a b m)
  have "a < fst x" if "x \<in> set (smap_insert k v m)" "\<not> k < a" "k \<noteq> a" for x
  proof -
    from that(1) have "fst x \<in> insert k (fst ` set m)"
      using set_smap_insert_fst [of k v m] by blast
    with that "2.prems" show ?thesis by (auto simp: smap_ok_Cons)
  qed
  with 2 show ?case by (force simp: smap_ok_Cons)
qed (simp add: smap_ok_Cons)

section \<open>The contract of a std::map\<close>

locale std_map =
  fixes empty :: "'m"
    and find :: "'m \<Rightarrow> 'k::linorder \<Rightarrow> 'v option"
    and insert_new :: "'k \<Rightarrow> 'v \<Rightarrow> 'm \<Rightarrow> 'm"
    and assign :: "'k \<Rightarrow> 'v \<Rightarrow> 'm \<Rightarrow> 'm"
    and entries :: "'m \<Rightarrow> ('k \<times> 'v) list"
    and invar :: "'m \<Rightarrow> bool"
  assumes invar_empty: "invar empty"
    and find_empty: "find empty k = None"
    and invar_insert_new: "invar m \<Longrightarrow> invar (insert_new k v m)"
    and find_insert_new: "invar m \<Longrightarrow>
      find (insert_new k v m) = (if find m k = None then (find m)(k \<mapsto> v) else find m)"
    and invar_assign: "invar m \<Longrightarrow> invar (assign k v m)"
    and find_assign: "invar m \<Longrightarrow> find (assign k v m) = (find m)(k \<mapsto> v)"
    and entries_ascend: "invar m \<Longrightarrow> sorted_wrt (<) (map fst (entries m))"
    and find_entries: "invar m \<Longrightarrow> find m k = map_of (entries m) k"
begin

lemma invar_insert_all:
  "invar m \<Longrightarrow> invar (foldl (\<lambda>m (k, v). insert_new k v m) m kvs)"
  by (rule foldl_invariant) (auto intro: invar_insert_new)

text \<open>Inserting a sequence of pairs: what was there stays, and the first pair of a key wins.\<close>

lemma find_insert_all:
  "invar m \<Longrightarrow> find (foldl (\<lambda>m (k, v). insert_new k v m) m kvs) k =
     (case find m k of Some v \<Rightarrow> Some v | None \<Rightarrow> map_of kvs k)"
proof (induction kvs arbitrary: m)
  case Nil
  then show ?case by (simp split: option.splits)
next
  case (Cons kv kvs)
  obtain a b where kv: "kv = (a, b)" by force
  have "invar (insert_new a b m)" using Cons.prems by (rule invar_insert_new)
  from Cons.IH [OF this] show ?case
    using Cons.prems by (auto simp: kv find_insert_new split: option.splits)
qed

lemma entries_distinct: "invar m \<Longrightarrow> distinct (map fst (entries m))"
  using entries_ascend strict_sorted_iff by blast

lemma entries_iff: "invar m \<Longrightarrow> (k, v) \<in> set (entries m) \<longleftrightarrow> find m k = Some v"
  using entries_distinct find_entries by fastforce

lemma assign_frame: "invar m \<Longrightarrow> k' \<noteq> k \<Longrightarrow> find (assign k v m) k' = find m k'"
  by (simp add: find_assign)

end

interpretation smap: std_map "[]" map_of smap_insert smap_assign "\<lambda>m. m" smap_ok
proof unfold_locales
  fix m :: "('a \<times> 'b) list" and k v
  show "smap_ok m \<Longrightarrow> map_of (smap_insert k v m) =
      (if map_of m k = None then (map_of m)(k \<mapsto> v) else map_of m)"
    by (auto simp: map_of_smap_insert split: option.splits)
  show "smap_ok m \<Longrightarrow> sorted_wrt (<) (map fst m)"
    by (simp add: smap_ok_def)
qed (auto simp: map_of_smap_assign smap_ok_insert smap_ok_assign)

section \<open>Values held by a map\<close>

text \<open>What an assignment does to the multiset of the values, counted through any function.\<close>

lemma values_smap_assign:
  "smap_ok m \<Longrightarrow>
     (\<Sum>x \<leftarrow> smap_assign k v m. f (snd x)) +
       (case map_of m k of Some w \<Rightarrow> f w | None \<Rightarrow> {#}) =
     (\<Sum>x \<leftarrow> m. f (snd x)) + (f v :: 'c multiset)"
proof (induction k v m rule: smap_assign.induct)
  case (1 k v)
  then show ?case by simp
next
  case (2 k v a b m)
  consider "k < a" | "k = a" | "a < k" by fastforce
  then show ?case
  proof cases
    case 1
    with "2.prems" have "map_of ((a, b) # m) k = None"
      by (intro map_of_below) (auto simp: smap_ok_Cons)
    with 1 show ?thesis by simp
  next
    case 2
    then show ?thesis by simp
  next
    case 3
    with "2.IH" "2.prems" show ?thesis
      by (auto simp: smap_ok_Cons add.assoc split: option.splits)
  qed
qed

lemma sset_ok_insort [map_invariants]: "sset_ok s \<Longrightarrow> sset_ok (insort_insert x s)"
  by (simp add: sset_ok_def strict_sorted_iff sorted_insort_insert distinct_insort_insert)

lemma sset_ok_Nil [simp]: "sset_ok []"
  by (simp add: sset_ok_def)

end
