(* ===== verification/Boost_Ptree.thy ===== *)
theory Boost_Ptree
  imports Qbus_Prelude
begin

text \<open>
  The interface of \<open>boost::property_tree\<close> that the configuration code calls. Boost is not part of
  the repository: the operations are the fields of a record \<open>ptree_lib\<close>, over an abstract type
  of trees, and every definition that reads a configuration file takes such a record as an
  argument. \<open>put_law\<close> states the documented behaviour of \<open>put\<close> that the Pulsar clients rely on.

  \<open>ini_lib\<close> is one concrete instance (a tree is a string and a list of named children), with
  which the witnesses run the code on concrete files.
\<close>

record 't ptree_lib =
  pt_read_ini :: "string \<Rightarrow> string + 't"            \<comment> \<open>\<open>read_ini\<close>: \<open>Inl what\<close> for \<open>ini_parser_error\<close>\<close>
  pt_get_child :: "'t \<Rightarrow> string \<Rightarrow> 't option"       \<comment> \<open>\<open>get_child_optional\<close>\<close>
  pt_items :: "'t \<Rightarrow> (string \<times> 't) list"           \<comment> \<open>iteration over the children\<close>
  pt_find :: "'t \<Rightarrow> string \<Rightarrow> 't option"            \<comment> \<open>\<open>find\<close>, \<open>None\<close> for \<open>not_found()\<close>\<close>
  pt_data :: "'t \<Rightarrow> string"                         \<comment> \<open>\<open>get_value<std::string>()\<close>\<close>
  pt_int :: "'t \<Rightarrow> int option"                      \<comment> \<open>\<open>get_value<int>()\<close>, \<open>None\<close> for \<open>ptree_bad_data\<close>\<close>
  pt_bool :: "'t \<Rightarrow> bool option"                    \<comment> \<open>\<open>get_value<bool>()\<close>\<close>
  pt_put :: "'t \<Rightarrow> string \<Rightarrow> string \<Rightarrow> 't"           \<comment> \<open>\<open>put\<close>\<close>

text \<open>
  Documented law of \<open>put\<close> for a key without a separator: the child with the key holds the value,
  and the other keys are found as before.
\<close>

definition put_law :: "'t ptree_lib \<Rightarrow> string \<Rightarrow> bool" where
  "put_law pt key \<longleftrightarrow>
     (\<forall>t v. (case pt_find pt (pt_put pt t key v) key of
                Some x \<Rightarrow> pt_data pt x = v | None \<Rightarrow> False) \<and>
            (\<forall>k. k \<noteq> key \<longrightarrow> pt_find pt (pt_put pt t key v) k = pt_find pt t k) \<and>
            (\<forall>k. k \<noteq> key \<longrightarrow> pt_get_child pt (pt_put pt t key v) k = pt_get_child pt t k))"

section \<open>A concrete instance\<close>

datatype ini = Ini (ini_data: string) (ini_children: "(string \<times> ini) list")

fun ini_put :: "(string \<times> ini) list \<Rightarrow> string \<Rightarrow> string \<Rightarrow> (string \<times> ini) list" where
  "ini_put [] k v = [(k, Ini v [])]"
| "ini_put ((a, t) # ts) k v =
     (if a = k then (a, Ini v (ini_children t)) # ts else (a, t) # ini_put ts k v)"

definition ini_value :: "string \<Rightarrow> ini" where
  "ini_value v = Ini v []"

text \<open>The file system of the instance: a path and its parsed file, or a parse error.\<close>

definition ini_lib :: "(string \<Rightarrow> string + ini) \<Rightarrow> ini ptree_lib" where
  "ini_lib files = \<lparr>
     pt_read_ini = files,
     pt_get_child = (\<lambda>t k. map_of (ini_children t) k),
     pt_items = ini_children,
     pt_find = (\<lambda>t k. map_of (ini_children t) k),
     pt_data = ini_data,
     pt_int = (\<lambda>t. if ini_data t = ''5'' then Some 5 else if ini_data t = ''0'' then Some 0
                   else if ini_data t = ''-3'' then Some (-3) else None),
     pt_bool = (\<lambda>t. if ini_data t = ''true'' then Some True
                    else if ini_data t = ''false'' then Some False else None),
     pt_put = (\<lambda>t k v. Ini (ini_data t) (ini_put (ini_children t) k v))\<rparr>"

lemma map_of_ini_put:
  "map_of (ini_put ts k v) k' =
     (if k' = k then Some (Ini v (case map_of ts k of Some t \<Rightarrow> ini_children t | None \<Rightarrow> []))
      else map_of ts k')"
  by (induction ts k v rule: ini_put.induct) auto

lemma put_law_ini_lib: "put_law (ini_lib files) key"
  by (simp add: put_law_def ini_lib_def map_of_ini_put)

end
