(* ===== verification/Kafka_Config.thy ===== *)
theory Kafka_Config
  imports Kafka_Lib Std_Map Boost_Ptree
begin

text \<open>
  Configuration on the Kafka side: the names and default values of kafka/qbus_constant.h, the
  \<open>QbusConfigLoader\<close> of kafka/qbus_config.cc (three \<open>std::map\<close>s filled from the sections of an INI
  file), and the helpers of kafka/qbus_helper.cc that set librdkafka properties, choose the
  broker list, build the client id and read the clock. Pointers to strings are strings: every
  caller in the sources passes a literal or a \<open>c_str()\<close>, so they are never NULL.
\<close>

section \<open>Names and defaults\<close>

definition RD_KAFKA_CONFIG_BOOTSTRAP_SERVERS :: string where
  "RD_KAFKA_CONFIG_BOOTSTRAP_SERVERS = ''bootstrap.servers''"

definition RD_KAFKA_CONFIG_INTERNAL_TERMINATION_SIGNAL :: string where
  "RD_KAFKA_CONFIG_INTERNAL_TERMINATION_SIGNAL = ''internal.termination.signal''"

definition RD_KAFKA_CONFIG_QUEUE_BUFFERING_MAX_MS :: string where
  "RD_KAFKA_CONFIG_QUEUE_BUFFERING_MAX_MS = ''queue.buffering.max.ms''"

definition RD_KAFKA_CONFIG_GROUP_ID :: string where
  "RD_KAFKA_CONFIG_GROUP_ID = ''group.id''"

definition RD_KAFKA_CONFIG_ENABLE_AUTO_COMMIT :: string where
  "RD_KAFKA_CONFIG_ENABLE_AUTO_COMMIT = ''enable.auto.commit''"

definition RD_KAFKA_CONFIG_TOPIC_METADATA_REFRESH_INTERVAL :: string where
  "RD_KAFKA_CONFIG_TOPIC_METADATA_REFRESH_INTERVAL = ''topic.metadata.refresh.interval.ms''"

definition RD_KAFKA_CONFIG_CLIENT_ID :: string where
  "RD_KAFKA_CONFIG_CLIENT_ID = ''client.id''"

definition RD_KAFKA_CONFIG_SOCKET_BLOKING_MAX_MX :: string where
  "RD_KAFKA_CONFIG_SOCKET_BLOKING_MAX_MX = ''socket.blocking.max.ms''"

definition RD_KAFKA_CONFIG_API_VERSION_REQUEST :: string where
  "RD_KAFKA_CONFIG_API_VERSION_REQUEST = ''api.version.request''"

definition RD_KAFKA_CONFIG_BROKER_VERSION_FALLBACK :: string where
  "RD_KAFKA_CONFIG_BROKER_VERSION_FALLBACK = ''broker.version.fallback''"

definition RD_KAFKA_TOPIC_CONFIG_OFFSET_STORED_METHOD :: string where
  "RD_KAFKA_TOPIC_CONFIG_OFFSET_STORED_METHOD = ''offset.store.method''"

definition RD_KAFKA_TOPIC_CONFIG_AUTO_OFFSET_RESET :: string where
  "RD_KAFKA_TOPIC_CONFIG_AUTO_OFFSET_RESET = ''auto.offset.reset''"

definition RD_KAFKA_TOPIC_MESSAGE_TIMEOUT :: string where
  "RD_KAFKA_TOPIC_MESSAGE_TIMEOUT = ''message.timeout.ms''"

definition RD_KAFKA_SDK_CONFIG_SYNC_SEND :: string where
  "RD_KAFKA_SDK_CONFIG_SYNC_SEND = ''send.sync''"

definition RD_KAFKA_SDK_CONFIG_LOG_LEVEL :: string where
  "RD_KAFKA_SDK_CONFIG_LOG_LEVEL = ''log.level''"

definition RD_KAFKA_SDK_CONFIG_ENABLE_RD_KAFKA_LOG :: string where
  "RD_KAFKA_SDK_CONFIG_ENABLE_RD_KAFKA_LOG = ''enable.rdkafka.log''"

definition RD_KAFKA_SDK_CONFIG_BROKER_LIST :: string where
  "RD_KAFKA_SDK_CONFIG_BROKER_LIST = ''broker.list''"

definition RD_KAFKA_SDK_CONFIG_RECORD_MSG :: string where
  "RD_KAFKA_SDK_CONFIG_RECORD_MSG = ''enable.record.msg''"

definition RD_KAFKA_SDK_CONFIG_PRODUCER_ENABLE_MINI_LATENCY :: string where
  "RD_KAFKA_SDK_CONFIG_PRODUCER_ENABLE_MINI_LATENCY = ''minimize.produce.latency''"

definition RD_KAFKA_SDK_CONFIG_PRODUCER_SPEED_UP_TERMINATE :: string where
  "RD_KAFKA_SDK_CONFIG_PRODUCER_SPEED_UP_TERMINATE = ''producer.speedup.terminate''"

definition RD_KAFKA_SDK_PRODUCER_HA_FASET_EXIT :: string where
  "RD_KAFKA_SDK_PRODUCER_HA_FASET_EXIT = ''producer.send.ha.fast.exit''"

definition RD_KAFKA_SDK_CONSUMER_POLL_TIME :: string where
  "RD_KAFKA_SDK_CONSUMER_POLL_TIME = ''consumer.poll.time.ms''"

definition RD_KAFKA_SDK_CONSUMER_MANUAL_COMMIT_TIME :: string where
  "RD_KAFKA_SDK_CONSUMER_MANUAL_COMMIT_TIME = ''manual.commit.time.ms''"

definition RD_KAFKA_SDK_USER_MANUAL_COMMIT_OFFSET :: string where
  "RD_KAFKA_SDK_USER_MANUAL_COMMIT_OFFSET = ''user.manual.commit.offset''"

definition RD_KAFKA_SDK_FORCE_DESTROY :: string where
  "RD_KAFKA_SDK_FORCE_DESTROY = ''force.destroy''"

definition RD_KAFKA_SDK_CONFIG_FLUSH_TIMEOUT_MS :: string where
  "RD_KAFKA_SDK_CONFIG_FLUSH_TIMEOUT_MS = ''flush.timeout.ms''"

text \<open>The default values; all boolean defaults are the word \<open>false\<close>.\<close>

definition DEFAULT_FALSE :: string where
  "DEFAULT_FALSE = ''false''"

definition RD_KAFKA_SDK_CONFIG_LOG_LEVEL_DEFAULT :: string where
  "RD_KAFKA_SDK_CONFIG_LOG_LEVEL_DEFAULT = ''info''"

definition RD_KAFKA_SDK_CONFIG_VALUE_SYNC_SEND :: string where
  "RD_KAFKA_SDK_CONFIG_VALUE_SYNC_SEND = ''true''"

definition RD_KAFKA_CONFIG_QUEUE_BUFFERING_SYNC :: string where
  "RD_KAFKA_CONFIG_QUEUE_BUFFERING_SYNC = ''1''"

definition RD_KAFKA_TOPIC_CONFIG_AUTO_OFFSET_RESET_EARLIEST :: string where
  "RD_KAFKA_TOPIC_CONFIG_AUTO_OFFSET_RESET_EARLIEST = ''earliest''"

definition RD_KAFKA_TOPIC_CONFIG_OFFSET_STORED_METHOD_BROKER :: string where
  "RD_KAFKA_TOPIC_CONFIG_OFFSET_STORED_METHOD_BROKER = ''broker''"

definition RD_KAFKA_CONSUMER_POLL_TIMEOUT_MS :: int where
  "RD_KAFKA_CONSUMER_POLL_TIMEOUT_MS = 100"

definition RD_KAFKA_PRODUCE_ERROR_INIT_VALUE :: int where
  "RD_KAFKA_PRODUCE_ERROR_INIT_VALUE = -12345"

definition RD_KAFKA_PRODUCE_SYNC_SEND_POLL_TIMEOUT_MS :: int where
  "RD_KAFKA_PRODUCE_SYNC_SEND_POLL_TIMEOUT_MS = 100"

definition RD_KAFKA_TOPIC_MESSAGE_TIMEOUT_MS :: string where
  "RD_KAFKA_TOPIC_MESSAGE_TIMEOUT_MS = ''3000''"

definition RD_KAFKA_CONFIG_TOPIC_METADATA_REFRESH_INTERVAL_MS :: string where
  "RD_KAFKA_CONFIG_TOPIC_METADATA_REFRESH_INTERVAL_MS = ''30000''"

definition RD_KAFKA_CONFIG_TOPIC_METADATA_REFRESH_INTERVAL_WHEN_SYNC_SEND_MS :: string where
  "RD_KAFKA_CONFIG_TOPIC_METADATA_REFRESH_INTERVAL_WHEN_SYNC_SEND_MS = ''300''"

definition RD_KAFKA_CONFIG_CLIENT_ID_VALUE :: string where
  "RD_KAFKA_CONFIG_CLIENT_ID_VALUE = ''QBus''"

definition RD_KAFKA_SDK_MINIMIZE_PRODUCER_LATENCY_VALUE :: string where
  "RD_KAFKA_SDK_MINIMIZE_PRODUCER_LATENCY_VALUE = ''1''"

definition RD_KAFKA_SYNC_SEND_POLL_TIME :: nat where
  "RD_KAFKA_SYNC_SEND_POLL_TIME = 30"

definition RD_KAFKA_SDK_CONSUMER_POLL_TIME_DEFAULT_MS :: string where
  "RD_KAFKA_SDK_CONSUMER_POLL_TIME_DEFAULT_MS = ''100''"

definition RD_KAFKA_SDK_MANUAL_COMMIT_TIME_DEFAULT_MS :: int where
  "RD_KAFKA_SDK_MANUAL_COMMIT_TIME_DEFAULT_MS = 200"

definition RD_KAFKA_SDK_MANUAL_COMMIT_TIME_DEFAULT_MS_STR :: string where
  "RD_KAFKA_SDK_MANUAL_COMMIT_TIME_DEFAULT_MS_STR = ''200''"

definition RD_KAFKA_CONFIG_API_VERSION_REQUEST_FOR_OLDER :: string where
  "RD_KAFKA_CONFIG_API_VERSION_REQUEST_FOR_OLDER = ''false''"

definition RD_KAFKA_CONFIG_BROKER_VERSION_FALLBACK_FOR_OLDER :: string where
  "RD_KAFKA_CONFIG_BROKER_VERSION_FALLBACK_FOR_OLDER = ''0.9.0.1''"

definition RD_KAFKA_SDK_CONFIG_FLUSH_TIMEOUT_MS_DEFAULT :: int where
  "RD_KAFKA_SDK_CONFIG_FLUSH_TIMEOUT_MS_DEFAULT = 3000"

definition RD_KAFKA_SDK_CONFIG_FLUSH_TIMEOUT_MS_DEFAULT_STR :: string where
  "RD_KAFKA_SDK_CONFIG_FLUSH_TIMEOUT_MS_DEFAULT_STR = ''3000''"

lemmas conf_item_defs =
  RD_KAFKA_CONFIG_BOOTSTRAP_SERVERS_def RD_KAFKA_CONFIG_INTERNAL_TERMINATION_SIGNAL_def
  RD_KAFKA_CONFIG_QUEUE_BUFFERING_MAX_MS_def RD_KAFKA_CONFIG_GROUP_ID_def
  RD_KAFKA_CONFIG_ENABLE_AUTO_COMMIT_def RD_KAFKA_CONFIG_TOPIC_METADATA_REFRESH_INTERVAL_def
  RD_KAFKA_CONFIG_CLIENT_ID_def RD_KAFKA_CONFIG_SOCKET_BLOKING_MAX_MX_def
  RD_KAFKA_CONFIG_API_VERSION_REQUEST_def RD_KAFKA_CONFIG_BROKER_VERSION_FALLBACK_def
  RD_KAFKA_TOPIC_CONFIG_OFFSET_STORED_METHOD_def RD_KAFKA_TOPIC_CONFIG_AUTO_OFFSET_RESET_def
  RD_KAFKA_TOPIC_MESSAGE_TIMEOUT_def

lemmas sdk_item_defs =
  RD_KAFKA_SDK_CONFIG_SYNC_SEND_def RD_KAFKA_SDK_CONFIG_LOG_LEVEL_def
  RD_KAFKA_SDK_CONFIG_ENABLE_RD_KAFKA_LOG_def RD_KAFKA_SDK_CONFIG_BROKER_LIST_def
  RD_KAFKA_SDK_CONFIG_RECORD_MSG_def RD_KAFKA_SDK_CONFIG_PRODUCER_ENABLE_MINI_LATENCY_def
  RD_KAFKA_SDK_CONFIG_PRODUCER_SPEED_UP_TERMINATE_def RD_KAFKA_SDK_PRODUCER_HA_FASET_EXIT_def
  RD_KAFKA_SDK_CONSUMER_POLL_TIME_def RD_KAFKA_SDK_CONSUMER_MANUAL_COMMIT_TIME_def
  RD_KAFKA_SDK_USER_MANUAL_COMMIT_OFFSET_def RD_KAFKA_SDK_FORCE_DESTROY_def
  RD_KAFKA_SDK_CONFIG_FLUSH_TIMEOUT_MS_def

lemmas conf_value_defs =
  DEFAULT_FALSE_def RD_KAFKA_SDK_CONFIG_LOG_LEVEL_DEFAULT_def
  RD_KAFKA_SDK_CONFIG_VALUE_SYNC_SEND_def RD_KAFKA_CONFIG_QUEUE_BUFFERING_SYNC_def
  RD_KAFKA_TOPIC_CONFIG_AUTO_OFFSET_RESET_EARLIEST_def
  RD_KAFKA_TOPIC_CONFIG_OFFSET_STORED_METHOD_BROKER_def RD_KAFKA_CONSUMER_POLL_TIMEOUT_MS_def
  RD_KAFKA_PRODUCE_ERROR_INIT_VALUE_def RD_KAFKA_PRODUCE_SYNC_SEND_POLL_TIMEOUT_MS_def
  RD_KAFKA_TOPIC_MESSAGE_TIMEOUT_MS_def RD_KAFKA_CONFIG_TOPIC_METADATA_REFRESH_INTERVAL_MS_def
  RD_KAFKA_CONFIG_TOPIC_METADATA_REFRESH_INTERVAL_WHEN_SYNC_SEND_MS_def
  RD_KAFKA_CONFIG_CLIENT_ID_VALUE_def RD_KAFKA_SDK_MINIMIZE_PRODUCER_LATENCY_VALUE_def
  RD_KAFKA_SYNC_SEND_POLL_TIME_def RD_KAFKA_SDK_CONSUMER_POLL_TIME_DEFAULT_MS_def
  RD_KAFKA_SDK_MANUAL_COMMIT_TIME_DEFAULT_MS_def RD_KAFKA_SDK_MANUAL_COMMIT_TIME_DEFAULT_MS_STR_def
  RD_KAFKA_CONFIG_API_VERSION_REQUEST_FOR_OLDER_def
  RD_KAFKA_CONFIG_BROKER_VERSION_FALLBACK_FOR_OLDER_def
  RD_KAFKA_SDK_CONFIG_FLUSH_TIMEOUT_MS_DEFAULT_def
  RD_KAFKA_SDK_CONFIG_FLUSH_TIMEOUT_MS_DEFAULT_STR_def

section \<open>QbusConfigLoader\<close>

record config_loader =
  set_global_config_items :: "(string \<times> string) list"
  set_topic_config_items :: "(string \<times> string) list"
  set_sdk_configs :: "(string \<times> string) list"

definition config_empty :: config_loader where
  "config_empty = \<lparr>set_global_config_items = [], set_topic_config_items = [], set_sdk_configs = []\<rparr>"

definition internalLoadConfig ::
  "'t ptree_lib \<Rightarrow> string \<Rightarrow> 't \<Rightarrow> (string \<times> string) list \<Rightarrow> (string \<times> string) list" where
  "internalLoadConfig pt config_item root_tree configs =
     (case pt_get_child pt root_tree config_item of
        None \<Rightarrow> configs
      | Some tree \<Rightarrow>
          foldl (\<lambda>configs (k_data, v_data). smap_insert k_data v_data configs) configs
            (map (\<lambda>(k, t). (k, pt_data pt t)) (pt_items pt tree)))"

text \<open>\<open>loadConfig\<close>: the result, the value left in \<open>errstr\<close>, and the loader.\<close>

definition loadConfig ::
  "'t ptree_lib \<Rightarrow> string \<Rightarrow> string \<Rightarrow> config_loader \<Rightarrow> bool \<times> string \<times> config_loader" where
  "loadConfig pt path errstr cfg =
     (case pt_read_ini pt path of
        Inl what \<Rightarrow> (False, what, cfg)
      | Inr root_tree \<Rightarrow>
          (True, errstr,
           cfg\<lparr>set_global_config_items :=
                  internalLoadConfig pt ''global'' root_tree (set_global_config_items cfg),
                set_topic_config_items :=
                  internalLoadConfig pt ''topic'' root_tree (set_topic_config_items cfg),
                set_sdk_configs :=
                  internalLoadConfig pt ''sdk'' root_tree (set_sdk_configs cfg)\<rparr>))"

definition getConfig :: "(string \<times> string) list \<Rightarrow> string \<Rightarrow> string \<Rightarrow> string" where
  "getConfig config_map config_name default_value =
     (case map_of config_map config_name of
        None \<Rightarrow> default_value
      | Some found \<Rightarrow> found)"

definition getGlobalConfig :: "config_loader \<Rightarrow> string \<Rightarrow> string \<Rightarrow> string" where
  "getGlobalConfig cfg config_name default_value =
     getConfig (set_global_config_items cfg) config_name default_value"

definition getTopicConfig :: "config_loader \<Rightarrow> string \<Rightarrow> string \<Rightarrow> string" where
  "getTopicConfig cfg config_name default_value =
     getConfig (set_topic_config_items cfg) config_name default_value"

definition getSdkConfig :: "config_loader \<Rightarrow> string \<Rightarrow> string \<Rightarrow> string" where
  "getSdkConfig cfg config_name default_value =
     getConfig (set_sdk_configs cfg) config_name default_value"

definition isSetConfig :: "config_loader \<Rightarrow> string \<Rightarrow> bool \<Rightarrow> bool" where
  "isSetConfig cfg config_name is_topic_config =
     (if is_topic_config then map_of (set_topic_config_items cfg) config_name \<noteq> None
      else map_of (set_global_config_items cfg) config_name \<noteq> None)"

section \<open>Setting librdkafka properties\<close>

text \<open>\<open>conf\<close> is whether the \<open>rd_kafka_conf_t*\<close> is not NULL. The source tests \<open>item[0]\<close> twice.\<close>

definition setRdKafkaConfig ::
  "rk_lib \<Rightarrow> bool \<Rightarrow> string \<Rightarrow> string \<Rightarrow> 'a rk_client_scheme \<Rightarrow> bool \<times> 'a rk_client_scheme" where
  "setRdKafkaConfig lib conf item value c =
     (if conf \<and> item \<noteq> '''' \<and> item \<noteq> ''''
      then (rk_conf_set lib (calls c) item value, emit (ConfSet item value) c)
      else (False, c))"

definition setRdKafkaTopicConfig ::
  "rk_lib \<Rightarrow> bool \<Rightarrow> string \<Rightarrow> string \<Rightarrow> 'a rk_client_scheme \<Rightarrow> bool \<times> 'a rk_client_scheme" where
  "setRdKafkaTopicConfig lib topic_conf item value c =
     (if topic_conf \<and> item \<noteq> '''' \<and> item \<noteq> ''''
      then (rk_topic_conf_set lib (calls c) item value, emit (TopicConfSet item value) c)
      else (False, c))"

definition loadRdkafkaConfig ::
  "rk_lib \<Rightarrow> config_loader \<Rightarrow> bool \<Rightarrow> bool \<Rightarrow> 'a rk_client_scheme \<Rightarrow> 'a rk_client_scheme" where
  "loadRdkafkaConfig lib cfg conf topic_conf c =
     foldl (\<lambda>c (item, value). snd (setRdKafkaTopicConfig lib topic_conf item value c))
       (foldl (\<lambda>c (item, value). snd (setRdKafkaConfig lib conf item value c)) c
          (set_global_config_items cfg))
       (set_topic_config_items cfg)"

section \<open>Helpers\<close>

definition getQbusBrokerList :: "config_loader \<Rightarrow> bool \<times> string" where
  "getQbusBrokerList cfg =
     (let broker_list = getSdkConfig cfg RD_KAFKA_SDK_CONFIG_BROKER_LIST '''';
          broker_list = (if broker_list = ''''
                         then getGlobalConfig cfg RD_KAFKA_CONFIG_BOOTSTRAP_SERVERS ''''
                         else broker_list)
      in (broker_list \<noteq> '''', broker_list))"

text \<open>\<open>setClientId\<close>: \<open>snprintf\<close> into a buffer of 100 bytes keeps the first 99.\<close>

definition client_id_text :: "int \<Rightarrow> tm option \<Rightarrow> string" where
  "client_id_text tid t =
     take 99 (case t of
        Some t \<Rightarrow>
          RD_KAFKA_CONFIG_CLIENT_ID_VALUE @ ''_'' @ show_int tid @ ''_'' @
          show_int (tm_year t + 1900) @ ''-'' @ show_02d (tm_mon t + 1) @ ''-'' @
          show_02d (tm_mday t) @ ''-'' @ show_02d (tm_hour t) @ ''-'' @
          show_02d (tm_min t) @ ''-'' @ show_02d (tm_sec t)
      | None \<Rightarrow> RD_KAFKA_CONFIG_CLIENT_ID_VALUE @ ''_'' @ show_int tid)"

definition setClientId ::
  "rk_lib \<Rightarrow> bool \<Rightarrow> bool \<Rightarrow> 'a rk_client_scheme \<Rightarrow> 'a rk_client_scheme" where
  "setClientId lib conf isAppendThreadId c =
     (if isAppendThreadId
      then snd (setRdKafkaConfig lib conf RD_KAFKA_CONFIG_CLIENT_ID
                 (client_id_text (rk_gettid lib (calls c)) (rk_localtime lib (calls c))) c)
      else snd (setRdKafkaConfig lib conf RD_KAFKA_CONFIG_CLIENT_ID
                 RD_KAFKA_CONFIG_CLIENT_ID_VALUE c))"

definition getCurrentTimeMs :: "rk_lib \<Rightarrow> 'a rk_client_scheme \<Rightarrow> int \<times> 'a rk_client_scheme" where
  "getCurrentTimeMs lib c =
     (let (tv_sec, tv_usec) = rk_gettimeofday lib (calls c)
      in (tv_sec * 1000 + tv_usec div 1000, emit GetTimeOfDay c))"

text \<open>
  The idiom with which the clients read a boolean setting: \<open>0 == strncasecmp(v.c_str(), word,
  v.length())\<close>.
\<close>

definition value_matches :: "string \<Rightarrow> string \<Rightarrow> bool" where
  "value_matches v word = strncasecmp_eq v word (length v)"

lemma value_matches_iff: "value_matches v word \<longleftrightarrow> prefix (lowercase v) (lowercase word)"
  by (simp add: value_matches_def strncasecmp_length_iff_prefix)

section \<open>Lemmas: the loader\<close>

definition config_ok :: "config_loader \<Rightarrow> bool" where
  "config_ok cfg \<longleftrightarrow> smap_ok (set_global_config_items cfg) \<and>
     smap_ok (set_topic_config_items cfg) \<and> smap_ok (set_sdk_configs cfg)"

lemma config_ok_empty [simp]: "config_ok config_empty"
  by (simp add: config_ok_def config_empty_def)

lemma smap_ok_internalLoadConfig [map_invariants]:
  "smap_ok m \<Longrightarrow> smap_ok (internalLoadConfig pt item root m)"
  by (auto simp: internalLoadConfig_def intro: smap.invar_insert_all split: option.split)

lemma config_ok_loadConfig [map_invariants]:
  "config_ok cfg \<Longrightarrow> config_ok (snd (snd (loadConfig pt path e cfg)))"
  by (simp add: config_ok_def loadConfig_def map_invariants split: sum.split)

text \<open>The first value that a section of the file gives to a key, with boost's view of the file.\<close>

definition section_value :: "'t ptree_lib \<Rightarrow> 't \<Rightarrow> string \<Rightarrow> string \<Rightarrow> string option" where
  "section_value pt root sect key =
     (case pt_get_child pt root sect of
        None \<Rightarrow> None
      | Some tree \<Rightarrow> map_option (pt_data pt) (map_of (pt_items pt tree) key))"

lemma map_of_map_value: "map_of (map (\<lambda>(k, t). (k, f t)) xs) k = map_option f (map_of xs k)"
  by (induction xs) auto

lemma find_internalLoadConfig:
  assumes "smap_ok m"
  shows "map_of (internalLoadConfig pt item root m) k =
     (case map_of m k of Some v \<Rightarrow> Some v | None \<Rightarrow> section_value pt root item k)"
  using assms
  by (simp add: internalLoadConfig_def section_value_def smap.find_insert_all map_of_map_value
        split: option.split)

section \<open>Lemmas: properties in the call log\<close>

text \<open>The value last given to a global or topic property.\<close>

definition last_conf :: "rk_call list \<Rightarrow> string \<Rightarrow> string option" where
  "last_conf log item =
     foldl (\<lambda>acc x. case x of ConfSet i v \<Rightarrow> if i = item then Some v else acc | _ \<Rightarrow> acc) None log"

definition last_topic_conf :: "rk_call list \<Rightarrow> string \<Rightarrow> string option" where
  "last_topic_conf log item =
     foldl (\<lambda>acc x. case x of TopicConfSet i v \<Rightarrow> if i = item then Some v else acc | _ \<Rightarrow> acc)
       None log"

named_theorems conf_simps "what an operation does to the properties last set"

lemma last_conf_emit [conf_simps]:
  "last_conf (calls (emit x c)) item =
     (case x of ConfSet i v \<Rightarrow> if i = item then Some v else last_conf (calls c) item
      | _ \<Rightarrow> last_conf (calls c) item)"
  by (simp add: last_conf_def split: rk_call.split)

lemma last_topic_conf_emit [conf_simps]:
  "last_topic_conf (calls (emit x c)) item =
     (case x of TopicConfSet i v \<Rightarrow> if i = item then Some v else last_topic_conf (calls c) item
      | _ \<Rightarrow> last_topic_conf (calls c) item)"
  by (simp add: last_topic_conf_def split: rk_call.split)

lemma last_conf_setRdKafkaConfig [conf_simps]:
  "last_conf (calls (snd (setRdKafkaConfig lib conf i v c))) item =
     (if conf \<and> i \<noteq> '''' \<and> i = item then Some v else last_conf (calls c) item)"
  "last_topic_conf (calls (snd (setRdKafkaConfig lib conf i v c))) item =
     last_topic_conf (calls c) item"
  by (simp_all add: setRdKafkaConfig_def last_conf_emit last_topic_conf_emit del: calls_emit)

lemma last_conf_setRdKafkaTopicConfig [conf_simps]:
  "last_topic_conf (calls (snd (setRdKafkaTopicConfig lib conf i v c))) item =
     (if conf \<and> i \<noteq> '''' \<and> i = item then Some v else last_topic_conf (calls c) item)"
  "last_conf (calls (snd (setRdKafkaTopicConfig lib conf i v c))) item = last_conf (calls c) item"
  by (simp_all add: setRdKafkaTopicConfig_def last_conf_emit last_topic_conf_emit del: calls_emit)

lemma last_conf_fold_conf:
  "distinct (map fst kvs) \<Longrightarrow>
   last_conf (calls (foldl (\<lambda>c (i, v). snd (setRdKafkaConfig lib True i v c)) c kvs)) item =
     (if item = '''' then last_conf (calls c) item
      else case map_of kvs item of Some v \<Rightarrow> Some v | None \<Rightarrow> last_conf (calls c) item)"
proof (induction kvs arbitrary: c)
  case (Cons kv kvs)
  obtain a b where kv: "kv = (a, b)" by force
  with Cons.prems have "map_of kvs a = None"
    by (simp add: map_of_eq_None_iff)
  with Cons show ?case by (auto simp: kv conf_simps split: option.splits)
qed simp

lemma last_topic_conf_fold_conf:
  "last_topic_conf (calls (foldl (\<lambda>c (i, v). snd (setRdKafkaConfig lib cf i v c)) c kvs)) item =
     last_topic_conf (calls c) item"
  by (induction kvs arbitrary: c) (auto simp: conf_simps)

lemma last_conf_fold_topic:
  "last_conf (calls (foldl (\<lambda>c (i, v). snd (setRdKafkaTopicConfig lib cf i v c)) c kvs)) item =
     last_conf (calls c) item"
  by (induction kvs arbitrary: c) (auto simp: conf_simps)

lemma last_topic_conf_fold_topic:
  "distinct (map fst kvs) \<Longrightarrow>
   last_topic_conf (calls (foldl (\<lambda>c (i, v). snd (setRdKafkaTopicConfig lib True i v c)) c kvs)) item =
     (if item = '''' then last_topic_conf (calls c) item
      else case map_of kvs item of Some v \<Rightarrow> Some v | None \<Rightarrow> last_topic_conf (calls c) item)"
proof (induction kvs arbitrary: c)
  case (Cons kv kvs)
  obtain a b where kv: "kv = (a, b)" by force
  with Cons.prems have "map_of kvs a = None"
    by (simp add: map_of_eq_None_iff)
  with Cons show ?case by (auto simp: kv conf_simps split: option.splits)
qed simp

lemma last_conf_loadRdkafkaConfig [conf_simps]:
  assumes "config_ok cfg" and "item \<noteq> ''''"
  shows "last_conf (calls (loadRdkafkaConfig lib cfg True True c)) item =
      (case map_of (set_global_config_items cfg) item of
         Some v \<Rightarrow> Some v | None \<Rightarrow> last_conf (calls c) item)"
    and "last_topic_conf (calls (loadRdkafkaConfig lib cfg True True c)) item =
      (case map_of (set_topic_config_items cfg) item of
         Some v \<Rightarrow> Some v | None \<Rightarrow> last_topic_conf (calls c) item)"
  using assms
  by (simp_all add: loadRdkafkaConfig_def last_conf_fold_topic last_conf_fold_conf
       last_topic_conf_fold_topic last_topic_conf_fold_conf config_ok_def smap_ok_distinct
       split: option.split)

end
