(* ===== verification/Kafka_Offsets.thy ===== *)
theory Kafka_Offsets
  imports Kafka_Config
begin

text \<open>
  Offset commits of the Kafka consumer (kafka/qbus_consumer.cc): the tables of messages that wait
  for their offset to be committed and of messages that wait to be freed, and the operations on
  them. Both are \<open>std::map\<close>s from \<open>getWaitOffsetKey\<close> (the topic name followed by the partition
  number). No NULL pointer gets into the tables: each caller tests the message first.

  Each message that \<open>rd_kafka_consumer_poll\<close> returns is owned by the client until it frees it.
  \<open>lifetime\<close> replays the call log with the multiset of live messages and fails (\<open>None\<close>) at the
  first read, commit or free of a message that is not live. The lemmas say what each operation
  does to the live messages and to the messages \<open>held\<close> by the tables.
\<close>

record offset_tables = rk_client +
  wait_commit_msgs :: "(string \<times> rk_message) list"
  wait_destroy_msgs_for_uncommit :: "(string \<times> rk_message list) list"
  is_user_manual_commit_offset :: bool
  manual_commit_time :: int
  last_commit_ms :: int

section \<open>Operations\<close>

definition getWaitOffsetKey :: "rk_message \<Rightarrow> string" where
  "getWaitOffsetKey msg =
     (case m_topic msg of Some name \<Rightarrow> name | None \<Rightarrow> '''') @ show_int (m_partition msg)"

definition destroy_all :: "rk_message list \<Rightarrow> 'a rk_client_scheme \<Rightarrow> 'a rk_client_scheme" where
  "destroy_all msgs c = foldl (\<lambda>c msg. emit (MessageDestroy (m_ptr msg)) c) c msgs"

definition clearWaitDestroyMsgs :: "'a offset_tables_scheme \<Rightarrow> 'a offset_tables_scheme" where
  "clearWaitDestroyMsgs c =
     foldl (\<lambda>c (k, rdmsg). destroy_all rdmsg c) c (wait_destroy_msgs_for_uncommit c)"

definition addWaitDestroyMsgs ::
  "rk_message \<Rightarrow> 'a offset_tables_scheme \<Rightarrow> 'a offset_tables_scheme" where
  "addWaitDestroyMsgs msg c =
     (let key = getWaitOffsetKey msg;
          c = emit (MessageRead (m_ptr msg)) c
      in case map_of (wait_destroy_msgs_for_uncommit c) key of
           Some msgs \<Rightarrow>
             c\<lparr>wait_destroy_msgs_for_uncommit :=
                 smap_assign key (msgs @ [msg]) (wait_destroy_msgs_for_uncommit c)\<rparr>
         | None \<Rightarrow>
             c\<lparr>wait_destroy_msgs_for_uncommit :=
                 smap_insert key [msg] (wait_destroy_msgs_for_uncommit c)\<rparr>)"

text \<open>\<open>std::find\<close> compares pointers; the elements before the one found are freed, then all up to
  and including it are erased.\<close>

definition removeWaitDestroyMsgs ::
  "rk_message \<Rightarrow> 'a offset_tables_scheme \<Rightarrow> 'a offset_tables_scheme" where
  "removeWaitDestroyMsgs msg c =
     (let key = getWaitOffsetKey msg;
          c = emit (MessageRead (m_ptr msg)) c
      in case map_of (wait_destroy_msgs_for_uncommit c) key of
           None \<Rightarrow> c
         | Some msgs \<Rightarrow>
             (case dropWhile (\<lambda>x. m_ptr x \<noteq> m_ptr msg) msgs of
                [] \<Rightarrow> c
              | f # rest \<Rightarrow>
                  (destroy_all (takeWhile (\<lambda>x. m_ptr x \<noteq> m_ptr msg) msgs) c)
                  \<lparr>wait_destroy_msgs_for_uncommit :=
                     smap_assign key rest (wait_destroy_msgs_for_uncommit c)\<rparr>))"

definition addWaitCommitOffset ::
  "rk_message \<Rightarrow> 'a offset_tables_scheme \<Rightarrow> 'a offset_tables_scheme" where
  "addWaitCommitOffset msg c =
     (let key = getWaitOffsetKey msg;
          c = emit (MessageRead (m_ptr msg)) c;
          c = (case map_of (wait_commit_msgs c) key of
                 Some old \<Rightarrow> emit (MessageDestroy (m_ptr old)) c
               | None \<Rightarrow> c)
      in c\<lparr>wait_commit_msgs := smap_assign key msg (wait_commit_msgs c)\<rparr>)"

text \<open>The answer of \<open>rd_kafka_commit_message\<close> is only logged.\<close>

definition manualCommitOffset :: "rk_message \<Rightarrow> 'a rk_client_scheme \<Rightarrow> 'a rk_client_scheme" where
  "manualCommitOffset msg c = emit (CommitMessage msg) c"

definition manualCommitWaitOffset ::
  "rk_lib \<Rightarrow> bool \<Rightarrow> 'a offset_tables_scheme \<Rightarrow> 'a offset_tables_scheme" where
  "manualCommitWaitOffset lib face c =
     (let (now, c) = getCurrentTimeMs lib c in
      if face \<or> now - last_commit_ms c \<ge> manual_commit_time c then
        (let c = foldl (\<lambda>c (k, rdmsg).
                   emit (MessageDestroy (m_ptr rdmsg)) (manualCommitOffset rdmsg c)) c
                   (wait_commit_msgs c);
             c = c\<lparr>wait_commit_msgs := []\<rparr>
         in c\<lparr>last_commit_ms := now\<rparr>)
      else c)"

text \<open>\<open>commitOffset\<close>: the argument is the \<open>rd_message\<close> of the message info.\<close>

definition commitOffset ::
  "rk_message option \<Rightarrow> 'a offset_tables_scheme \<Rightarrow> 'a offset_tables_scheme" where
  "commitOffset rd_message c =
     (if is_user_manual_commit_offset c then
        (case rd_message of
           Some msg \<Rightarrow> removeWaitDestroyMsgs msg (addWaitCommitOffset msg c)
         | None \<Rightarrow> c)
      else c)"

section \<open>Frame\<close>

lemma destroy_all_simps [simp]:
  "destroy_all [] c = c"
  "destroy_all (m # ms) c = destroy_all ms (emit (MessageDestroy (m_ptr m)) c)"
  by (simp_all add: destroy_all_def)

lemma calls_destroy_all [simp]:
  "calls (destroy_all ms c) = calls c @ map (MessageDestroy \<circ> m_ptr) ms"
  by (induction ms arbitrary: c) auto

text \<open>An operation that only appends to the call log.\<close>

lemma emit_tables [simp]:
  "wait_commit_msgs (emit x c) = wait_commit_msgs c"
  "wait_destroy_msgs_for_uncommit (emit x c) = wait_destroy_msgs_for_uncommit c"
  "is_user_manual_commit_offset (emit x c) = is_user_manual_commit_offset c"
  "manual_commit_time (emit x c) = manual_commit_time c"
  "last_commit_ms (emit x c) = last_commit_ms c"
  "logger (emit x c) = logger c"
  by (simp_all add: emit_def)

lemma destroy_all_tables [simp]:
  "wait_commit_msgs (destroy_all ms c) = wait_commit_msgs c"
  "wait_destroy_msgs_for_uncommit (destroy_all ms c) = wait_destroy_msgs_for_uncommit c"
  "is_user_manual_commit_offset (destroy_all ms c) = is_user_manual_commit_offset c"
  by (induction ms arbitrary: c) auto

definition tables_ok :: "'a offset_tables_scheme \<Rightarrow> bool" where
  "tables_ok c \<longleftrightarrow> smap_ok (wait_commit_msgs c) \<and> smap_ok (wait_destroy_msgs_for_uncommit c)"

section \<open>Live messages\<close>

fun live_step :: "nat multiset option \<Rightarrow> rk_call \<Rightarrow> nat multiset option" where
  "live_step None _ = None"
| "live_step (Some L) (PollReturned (Some m)) = Some (add_mset (m_ptr m) L)"
| "live_step (Some L) (MessageDestroy p) = (if p \<in># L then Some (L - {#p#}) else None)"
| "live_step (Some L) (CommitMessage m) = (if m_ptr m \<in># L then Some L else None)"
| "live_step (Some L) (MessageRead p) = (if p \<in># L then Some L else None)"
| "live_step (Some L) (DeliveryMsg p _ _ _) = (if p \<in># L then Some L else None)"
| "live_step (Some L) (DeliveryMsgForCommitOffset m _ _ _) =
     (if m_ptr m \<in># L then Some L else None)"
| "live_step (Some L) _ = Some L"

definition lifetime :: "rk_call list \<Rightarrow> nat multiset option" where
  "lifetime log = foldl live_step (Some {#}) log"

lemma lifetime_Nil [simp]: "lifetime [] = Some {#}"
  by (simp add: lifetime_def)

lemma lifetime_append [simp]: "lifetime (log @ xs) = foldl live_step (lifetime log) xs"
  by (simp add: lifetime_def)

text \<open>The messages that the two tables hold.\<close>

definition held_commit :: "'a offset_tables_scheme \<Rightarrow> nat multiset" where
  "held_commit c = (\<Sum>x \<leftarrow> wait_commit_msgs c. {#m_ptr (snd x)#})"

definition held_destroy :: "'a offset_tables_scheme \<Rightarrow> nat multiset" where
  "held_destroy c = (\<Sum>x \<leftarrow> wait_destroy_msgs_for_uncommit c. mset (map m_ptr (snd x)))"

definition held :: "'a offset_tables_scheme \<Rightarrow> nat multiset" where
  "held c = held_commit c + held_destroy c"

definition waiting :: "rk_message \<Rightarrow> 'a offset_tables_scheme \<Rightarrow> bool" where
  "waiting m c \<longleftrightarrow>
     (case map_of (wait_destroy_msgs_for_uncommit c) (getWaitOffsetKey m) of
        Some msgs \<Rightarrow> m_ptr m \<in> m_ptr ` set msgs
      | None \<Rightarrow> False)"

lemma lifetime_destroy_all:
  "lifetime (calls c) = Some (mset (map m_ptr ms) + L) \<Longrightarrow>
     lifetime (calls (destroy_all ms c)) = Some L"
  by (induction ms arbitrary: c) (auto simp del: calls_destroy_all)

lemma smap_insert_absent:
  "smap_ok m \<Longrightarrow> map_of m k = None \<Longrightarrow> smap_insert k v m = smap_assign k v m"
  by (induction k v m rule: smap_insert.induct) (auto simp: smap_ok_Cons split: if_splits)

lemma held_commit_assign:
  assumes "tables_ok c"
  shows "held_commit (c\<lparr>wait_commit_msgs := smap_assign k m (wait_commit_msgs c)\<rparr>) +
           (case map_of (wait_commit_msgs c) k of Some old \<Rightarrow> {#m_ptr old#} | None \<Rightarrow> {#}) =
         add_mset (m_ptr m) (held_commit c)"
  using values_smap_assign [where m = "wait_commit_msgs c" and k = k and v = m
      and f = "\<lambda>m. {#m_ptr m#}"] assms
  by (simp add: held_commit_def tables_ok_def)

lemma held_destroy_assign:
  assumes "tables_ok c"
  shows "held_destroy (c\<lparr>wait_destroy_msgs_for_uncommit :=
             smap_assign k ms (wait_destroy_msgs_for_uncommit c)\<rparr>) +
           (case map_of (wait_destroy_msgs_for_uncommit c) k of
              Some old \<Rightarrow> mset (map m_ptr old) | None \<Rightarrow> {#}) =
         mset (map m_ptr ms) + held_destroy c"
  using values_smap_assign [where m = "wait_destroy_msgs_for_uncommit c" and k = k and v = ms
      and f = "\<lambda>ms. mset (map m_ptr ms)"] assms
  by (simp add: held_destroy_def tables_ok_def add.commute)

section \<open>Frame of the operations\<close>

lemma addWaitCommitOffset_frame [frame_simps]:
  "wait_destroy_msgs_for_uncommit (addWaitCommitOffset m c) = wait_destroy_msgs_for_uncommit c"
  "is_user_manual_commit_offset (addWaitCommitOffset m c) = is_user_manual_commit_offset c"
  "wait_commit_msgs (addWaitCommitOffset m c) =
     smap_assign (getWaitOffsetKey m) m (wait_commit_msgs c)"
  by (simp_all add: addWaitCommitOffset_def Let_def split: option.split)

lemma addWaitDestroyMsgs_frame [frame_simps]:
  "wait_commit_msgs (addWaitDestroyMsgs m c) = wait_commit_msgs c"
  "is_user_manual_commit_offset (addWaitDestroyMsgs m c) = is_user_manual_commit_offset c"
  by (simp_all add: addWaitDestroyMsgs_def Let_def split: option.split)

lemma removeWaitDestroyMsgs_frame [frame_simps]:
  "wait_commit_msgs (removeWaitDestroyMsgs m c) = wait_commit_msgs c"
  "is_user_manual_commit_offset (removeWaitDestroyMsgs m c) = is_user_manual_commit_offset c"
  by (simp_all add: removeWaitDestroyMsgs_def Let_def split: option.split list.split)

lemma commit_loop_tables [simp]:
  "wait_commit_msgs (foldl (\<lambda>c (k, m). emit (MessageDestroy (m_ptr m)) (manualCommitOffset m c)) c xs) =
     wait_commit_msgs c"
  "wait_destroy_msgs_for_uncommit (foldl (\<lambda>c (k, m). emit (MessageDestroy (m_ptr m)) (manualCommitOffset m c)) c xs) =
     wait_destroy_msgs_for_uncommit c"
  "is_user_manual_commit_offset (foldl (\<lambda>c (k, m). emit (MessageDestroy (m_ptr m)) (manualCommitOffset m c)) c xs) =
     is_user_manual_commit_offset c"
  by (induction xs arbitrary: c) (auto simp: manualCommitOffset_def)

definition now_ms :: "rk_lib \<Rightarrow> 'a rk_client_scheme \<Rightarrow> int" where
  "now_ms lib c = fst (getCurrentTimeMs lib c)"

lemma getCurrentTimeMs_eq: "getCurrentTimeMs lib c = (now_ms lib c, emit GetTimeOfDay c)"
  by (simp add: now_ms_def getCurrentTimeMs_def split: prod.split)

lemma manualCommitWaitOffset_frame [frame_simps]:
  "wait_destroy_msgs_for_uncommit (manualCommitWaitOffset lib f c) = wait_destroy_msgs_for_uncommit c"
  "is_user_manual_commit_offset (manualCommitWaitOffset lib f c) = is_user_manual_commit_offset c"
  by (simp_all add: manualCommitWaitOffset_def getCurrentTimeMs_eq Let_def)

lemma clearWaitDestroyMsgs_frame [frame_simps]:
  "wait_commit_msgs (clearWaitDestroyMsgs c) = wait_commit_msgs c"
  "wait_destroy_msgs_for_uncommit (clearWaitDestroyMsgs c) = wait_destroy_msgs_for_uncommit c"
  "is_user_manual_commit_offset (clearWaitDestroyMsgs c) = is_user_manual_commit_offset c"
  unfolding clearWaitDestroyMsgs_def by ((rule foldl_frame, simp split: prod.split)+)

lemma tables_ok_addWaitCommitOffset [map_invariants]:
  "tables_ok c \<Longrightarrow> tables_ok (addWaitCommitOffset m c)"
  by (simp add: tables_ok_def frame_simps map_invariants)

lemma tables_ok_addWaitDestroyMsgs [map_invariants]:
  "tables_ok c \<Longrightarrow> tables_ok (addWaitDestroyMsgs m c)"
  by (simp add: tables_ok_def addWaitDestroyMsgs_def Let_def map_invariants split: option.split)

lemma tables_ok_removeWaitDestroyMsgs [map_invariants]:
  "tables_ok c \<Longrightarrow> tables_ok (removeWaitDestroyMsgs m c)"
  by (simp add: tables_ok_def removeWaitDestroyMsgs_def Let_def map_invariants
      split: option.split list.split)

lemma tables_ok_manualCommitWaitOffset [map_invariants]:
  "tables_ok c \<Longrightarrow> tables_ok (manualCommitWaitOffset lib f c)"
  by (auto simp: tables_ok_def manualCommitWaitOffset_def getCurrentTimeMs_eq Let_def)

lemma tables_ok_commitOffset [map_invariants]:
  "tables_ok c \<Longrightarrow> tables_ok (commitOffset m c)"
  by (simp add: commitOffset_def map_invariants split: option.split)

lemma held_emit [simp]:
  "held_commit (emit x c) = held_commit c" "held_destroy (emit x c) = held_destroy c"
  by (simp_all add: held_commit_def held_destroy_def)

section \<open>Ownership\<close>

text \<open>
  Each operation with the live messages before and after it. \<open>Y\<close> is what is live besides the
  messages of the commit table: the other table's messages and the one in flight.
\<close>

lemma held_commit_old:
  assumes "map_of (wait_commit_msgs c) k = Some old"
  shows "m_ptr old \<in># held_commit c"
  using map_of_SomeD [OF assms] by (force simp: held_commit_def)

lemma live_addWaitCommitOffset:
  assumes "tables_ok c" and "lifetime (calls c) = Some (held_commit c + Y)" and "m_ptr m \<in># Y"
  shows "lifetime (calls (addWaitCommitOffset m c)) =
     Some (held_commit (addWaitCommitOffset m c) + (Y - {#m_ptr m#}))"
proof -
  let ?k = "getWaitOffsetKey m"
  have hc: "held_commit (addWaitCommitOffset m c) =
      held_commit (c\<lparr>wait_commit_msgs := smap_assign ?k m (wait_commit_msgs c)\<rparr>)"
    by (simp add: held_commit_def frame_simps)
  obtain Z where Y: "Y = add_mset (m_ptr m) Z" using assms(3) by (metis multi_member_split)
  show ?thesis
  proof (cases "map_of (wait_commit_msgs c) ?k")
    case None
    with held_commit_assign [OF assms(1), of ?k m] hc
    have "held_commit (addWaitCommitOffset m c) = add_mset (m_ptr m) (held_commit c)" by simp
    with None assms(2) Y show ?thesis
      by (simp add: addWaitCommitOffset_def Let_def)
  next
    case (Some old)
    with held_commit_assign [OF assms(1), of ?k m] hc
    have "add_mset (m_ptr old) (held_commit (addWaitCommitOffset m c)) =
        add_mset (m_ptr m) (held_commit c)" by simp
    moreover from Some have "m_ptr old \<in># held_commit c" by (rule held_commit_old)
    then obtain H where H: "held_commit c = add_mset (m_ptr old) H"
      by (metis multi_member_split)
    ultimately have "held_commit (addWaitCommitOffset m c) = add_mset (m_ptr m) H" by simp
    with Some assms(2) Y H show ?thesis
      by (simp add: addWaitCommitOffset_def Let_def)
  qed
qed

lemma live_addWaitDestroyMsgs:
  assumes "tables_ok c" and "lifetime (calls c) = Some (held_destroy c + Y)" and "m_ptr m \<in># Y"
  shows "lifetime (calls (addWaitDestroyMsgs m c)) =
     Some (held_destroy (addWaitDestroyMsgs m c) + (Y - {#m_ptr m#}))"
proof -
  let ?k = "getWaitOffsetKey m"
  obtain Z where Y: "Y = add_mset (m_ptr m) Z" using assms(3) by (metis multi_member_split)
  have "held_destroy (addWaitDestroyMsgs m c) = add_mset (m_ptr m) (held_destroy c)"
  proof (cases "map_of (wait_destroy_msgs_for_uncommit c) ?k")
    case None
    with held_destroy_assign [OF assms(1), of ?k "[m]"] assms(1) show ?thesis
      by (simp add: addWaitDestroyMsgs_def Let_def tables_ok_def smap_insert_absent
          held_destroy_def)
  next
    case (Some msgs)
    with held_destroy_assign [OF assms(1), of ?k "msgs @ [m]"] show ?thesis
      by (simp add: addWaitDestroyMsgs_def Let_def held_destroy_def)
  qed
  moreover have "lifetime (calls (addWaitDestroyMsgs m c)) = lifetime (calls c)"
    using assms(2,3) by (simp add: addWaitDestroyMsgs_def Let_def split: option.split)
  ultimately show ?thesis using assms(2) Y by simp
qed

text \<open>
  Removing a waiting message: its table loses it and all before it, and those before it are freed.
  What remains live besides the table is what was, with the message itself.
\<close>

lemma live_removeWaitDestroyMsgs:
  assumes "tables_ok c" and "lifetime (calls c) = Some (held_destroy c + Y)" and "waiting m c"
  shows "lifetime (calls (removeWaitDestroyMsgs m c)) =
     Some (held_destroy (removeWaitDestroyMsgs m c) + add_mset (m_ptr m) Y)"
proof -
  let ?k = "getWaitOffsetKey m" and ?ne = "\<lambda>x. m_ptr x \<noteq> m_ptr m"
  from assms(3) obtain msgs where msgs: "map_of (wait_destroy_msgs_for_uncommit c) ?k = Some msgs"
    and "\<exists>x \<in> set msgs. m_ptr x = m_ptr m"
    by (force simp: waiting_def split: option.splits)
  from takeWhile_dropWhile_hit [OF this(2)] obtain f rest where
    d: "dropWhile ?ne msgs = f # rest" "m_ptr f = m_ptr m"
       "msgs = takeWhile ?ne msgs @ f # rest" by auto
  let ?c = "removeWaitDestroyMsgs m c"
  have "held_destroy ?c + mset (map m_ptr msgs) = mset (map m_ptr rest) + held_destroy c"
    using held_destroy_assign [OF assms(1), of ?k rest] msgs d(1)
    by (simp add: removeWaitDestroyMsgs_def Let_def held_destroy_def)
  moreover have "mset (map m_ptr msgs) =
      mset (map m_ptr (takeWhile ?ne msgs)) + add_mset (m_ptr m) (mset (map m_ptr rest))"
    by (subst d(3)) (simp add: d(2))
  ultimately have hd: "held_destroy c =
      mset (map m_ptr (takeWhile ?ne msgs)) + add_mset (m_ptr m) (held_destroy ?c)"
    by (simp add: ac_simps)
  have "calls ?c = calls (destroy_all (takeWhile ?ne msgs) (emit (MessageRead (m_ptr m)) c))"
    using msgs d(1) by (simp add: removeWaitDestroyMsgs_def Let_def)
  moreover have "lifetime (calls (emit (MessageRead (m_ptr m)) c)) =
      Some (mset (map m_ptr (takeWhile ?ne msgs)) + (add_mset (m_ptr m) (held_destroy ?c) + Y))"
    using assms(2) hd by (simp add: ac_simps)
  from lifetime_destroy_all [OF this]
  have "lifetime (calls (destroy_all (takeWhile ?ne msgs) (emit (MessageRead (m_ptr m)) c))) =
      Some (held_destroy ?c + add_mset (m_ptr m) Y)" by simp
  ultimately show ?thesis by argo
qed

lemma held_commit_frame: "wait_commit_msgs c' = wait_commit_msgs c \<Longrightarrow> held_commit c' = held_commit c"
  by (simp add: held_commit_def)

lemma held_destroy_frame:
  "wait_destroy_msgs_for_uncommit c' = wait_destroy_msgs_for_uncommit c \<Longrightarrow>
     held_destroy c' = held_destroy c"
  by (simp add: held_destroy_def)

lemma waiting_held:
  assumes "waiting m c"
  shows "m_ptr m \<in># held_destroy c"
proof -
  from assms obtain k msgs where "map_of (wait_destroy_msgs_for_uncommit c) k = Some msgs"
    and m: "m_ptr m \<in> m_ptr ` set msgs"
    by (auto simp: waiting_def split: option.splits)
  then have "(k, msgs) \<in> set (wait_destroy_msgs_for_uncommit c)" by (simp add: map_of_SomeD)
  with m show ?thesis
    by (simp add: held_destroy_def) (rule bexI [of _ "(k, msgs)"], simp_all)
qed

lemma live_commitOffset:
  assumes "tables_ok c" and "lifetime (calls c) = Some (held c + X)" and "waiting m c"
    and "is_user_manual_commit_offset c"
  shows "lifetime (calls (commitOffset (Some m) c)) = Some (held (commitOffset (Some m) c) + X)"
proof -
  let ?a = "addWaitCommitOffset m c"
  obtain D where D: "held_destroy c = add_mset (m_ptr m) D"
    using waiting_held [OF assms(3)] by (metis multi_member_split)
  then have mem: "m_ptr m \<in># held_destroy c + X" by simp
  have "lifetime (calls c) = Some (held_commit c + (held_destroy c + X))"
    using assms(2) by (simp add: held_def ac_simps)
  from live_addWaitCommitOffset [OF assms(1) this mem]
  have "lifetime (calls ?a) = Some (held_commit ?a + (held_destroy c + X - {#m_ptr m#}))" .
  moreover have hd: "held_destroy ?a = held_destroy c"
    by (rule held_destroy_frame) (simp add: frame_simps)
  moreover have "m_ptr m \<in># held_commit ?a"
    by (rule held_commit_old [where k = "getWaitOffsetKey m"])
       (simp add: frame_simps map_of_smap_assign)
  then obtain H where H: "held_commit ?a = add_mset (m_ptr m) H" by (metis multi_member_split)
  ultimately have "lifetime (calls ?a) = Some (held_destroy ?a + (H + X))"
    by (simp add: D ac_simps)
  moreover have "waiting m ?a" using assms(3) by (simp add: waiting_def frame_simps)
  ultimately have "lifetime (calls (removeWaitDestroyMsgs m ?a)) =
      Some (held_destroy (removeWaitDestroyMsgs m ?a) +
            add_mset (m_ptr m) (H + X))"
    using live_removeWaitDestroyMsgs tables_ok_addWaitCommitOffset [OF assms(1)] by blast
  moreover have "held_commit (removeWaitDestroyMsgs m ?a) = held_commit ?a"
    by (rule held_commit_frame) (simp add: frame_simps)
  ultimately show ?thesis
    using assms(4) by (simp add: commitOffset_def held_def H ac_simps)
qed

lemma calls_commit_loop:
  "calls (foldl (\<lambda>c (k, m). emit (MessageDestroy (m_ptr m)) (manualCommitOffset m c)) c xs) =
     calls c @ concat (map (\<lambda>(k, m). [CommitMessage m, MessageDestroy (m_ptr m)]) xs)"
  by (induction xs arbitrary: c) (auto simp: manualCommitOffset_def)

lemma live_commit_loop:
  "lifetime (calls c) = Some ((\<Sum>x \<leftarrow> xs. {#m_ptr (snd x)#}) + Y) \<Longrightarrow>
   lifetime (calls (foldl (\<lambda>c (k, m). emit (MessageDestroy (m_ptr m)) (manualCommitOffset m c)) c xs))
     = Some Y"
  by (induction xs arbitrary: c) (auto simp: manualCommitOffset_def)

lemma live_manualCommitWaitOffset:
  assumes "lifetime (calls c) = Some (held_commit c + Y)"
  shows "lifetime (calls (manualCommitWaitOffset lib f c)) =
     Some (held_commit (manualCommitWaitOffset lib f c) + Y)"
proof -
  have e: "lifetime (calls (emit GetTimeOfDay c)) =
      Some ((\<Sum>x \<leftarrow> wait_commit_msgs c. {#m_ptr (snd x)#}) + Y)"
    using assms by (simp add: held_commit_def)
  show ?thesis
    using live_commit_loop [OF e] e
    by (simp add: manualCommitWaitOffset_def getCurrentTimeMs_eq Let_def held_commit_def)
qed

lemma held_commit_forced [simp]: "held_commit (manualCommitWaitOffset lib True c) = {#}"
  by (simp add: manualCommitWaitOffset_def getCurrentTimeMs_eq Let_def held_commit_def)

lemma live_clear_loop:
  "lifetime (calls c) = Some ((\<Sum>x \<leftarrow> xs. mset (map m_ptr (snd x))) + Y) \<Longrightarrow>
   lifetime (calls (foldl (\<lambda>c (k, rdmsg). destroy_all rdmsg c) c xs)) = Some Y"
  by (induction xs arbitrary: c) (auto simp: add.assoc lifetime_destroy_all simp del: calls_destroy_all)

lemma live_clearWaitDestroyMsgs:
  assumes "lifetime (calls c) = Some (held_destroy c + Y)"
  shows "lifetime (calls (clearWaitDestroyMsgs c)) = Some Y"
  using live_clear_loop assms unfolding clearWaitDestroyMsgs_def held_destroy_def by blast

end
