(* ===== verification/Kafka_Topics.thy ===== *)
theory Kafka_Topics
  imports Kafka_Lib Std_Map
begin

text \<open>
  Topics and partitions: \<open>TopicPartitionSet\<close> (kafka/qbus_topic_partition_set.cc), the map from a
  topic to the set of its assigned partitions with which \<open>pause\<close> and \<open>resume\<close> find what to act
  on, and the list functions of kafka/qbus_rdkafka.cc and \<open>formatTopicPartitionList\<close> of
  kafka/qbus_helper.cc.

  \<open>partitions_of\<close> is the abstract view of the set, as a relation between topics and partitions;
  the lemmas say what \<open>init\<close> and \<open>findTopics\<close> do to it.
\<close>

type_synonym topic_set = "(string \<times> int list) list"

section \<open>TopicPartitionSet\<close>

definition tps_empty :: "topic_set \<Rightarrow> bool" where
  "tps_empty d = (d = [])"

definition tps_add :: "topic_set \<Rightarrow> rk_partition \<Rightarrow> topic_set" where
  "tps_add d p =
     (let d = smap_insert (p_topic p) [] d in
      case map_of d (p_topic p) of
        Some s \<Rightarrow> smap_assign (p_topic p) (insort_insert (p_partition p) s) d
      | None \<Rightarrow> d)"

definition tps_init :: "rk_partition list option \<Rightarrow> topic_set \<Rightarrow> topic_set" where
  "tps_init lst d = (case lst of None \<Rightarrow> [] | Some l \<Rightarrow> foldl tps_add d l)"

definition findTopics :: "rk_lib \<Rightarrow> topic_set \<Rightarrow> string list \<Rightarrow> rk_partition list" where
  "findTopics lib d topics =
     foldl (\<lambda>lst topic.
        case map_of d topic of
          None \<Rightarrow> lst
        | Some s \<Rightarrow> foldl (\<lambda>lst id. rk_list_add lib lst topic id) lst s) [] topics"

section \<open>Topic partition lists\<close>

definition RD_KAFKA_PARTITION_UA :: int where
  "RD_KAFKA_PARTITION_UA = -1"

definition createTopicLists :: "rk_lib \<Rightarrow> string list \<Rightarrow> int \<Rightarrow> rk_partition list" where
  "createTopicLists lib topics partition_cnt =
     foldl (\<lambda>lst topic.
        if partition_cnt \<ge> 0 then rk_list_add_range lib lst topic 0 (partition_cnt - 1)
        else rk_list_add lib lst topic RD_KAFKA_PARTITION_UA) [] topics"

fun format_entries :: "nat \<Rightarrow> bool \<Rightarrow> rk_partition list \<Rightarrow> string" where
  "format_entries i show_offsets [] = ''''"
| "format_entries i show_offsets (p # ps) =
     (if i > 0 then '', '' else '''') @
     p_topic p @ ''['' @ show_int (p_partition p) @ '']'' @
     (if show_offsets then '':'' @ show_int (p_offset p) else '''') @
     format_entries (Suc i) show_offsets ps"

definition formatPartitionList :: "rk_partition list option \<Rightarrow> bool \<Rightarrow> string" where
  "formatPartitionList lst show_offsets =
     (case lst of
        None \<Rightarrow> ''(null)''
      | Some l \<Rightarrow> ''{'' @ format_entries 0 show_offsets l @ ''}'')"

definition formatTopicPartitionList :: "rk_partition list option \<Rightarrow> string" where
  "formatTopicPartitionList partitions =
     (case partitions of
        None \<Rightarrow> ''''
      | Some l \<Rightarrow>
          foldl (\<lambda>ss p. ss @ p_topic p @ ''['' @ show_int (p_partition p) @ ''] |'') '''' l)"

section \<open>Lemmas\<close>

definition partitions_of :: "topic_set \<Rightarrow> string \<Rightarrow> int set" where
  "partitions_of d t = (case map_of d t of Some s \<Rightarrow> set s | None \<Rightarrow> {})"

definition tps_ok :: "topic_set \<Rightarrow> bool" where
  "tps_ok d \<longleftrightarrow> smap_ok d \<and> (\<forall>t s. map_of d t = Some s \<longrightarrow> sset_ok s \<and> s \<noteq> [])"

definition listed :: "rk_partition list \<Rightarrow> string \<Rightarrow> int set" where
  "listed l t = {p_partition p | p. p \<in> set l \<and> p_topic p = t}"

lemma tps_ok_Nil [simp]: "tps_ok []"
  by (simp add: tps_ok_def)

lemma find_tps_add:
  assumes "smap_ok d"
  shows "map_of (tps_add d p) =
     (map_of d)(p_topic p \<mapsto> insort_insert (p_partition p)
        (case map_of d (p_topic p) of Some s \<Rightarrow> s | None \<Rightarrow> []))"
  using assms
  by (auto simp: tps_add_def Let_def smap.find_insert_new smap.find_assign smap.invar_insert_new
      fun_eq_iff split: option.split)

lemma smap_ok_tps_add [map_invariants]: "smap_ok d \<Longrightarrow> smap_ok (tps_add d p)"
  by (simp add: tps_add_def Let_def map_invariants split: option.split)

lemma insort_insert_ne [simp]: "insort_insert x s \<noteq> []"
  by (metis empty_iff insertI1 list.set(1) set_insort_insert)

lemma tps_ok_add [map_invariants]: "tps_ok d \<Longrightarrow> tps_ok (tps_add d p)"
  by (auto simp: tps_ok_def find_tps_add sset_ok_insort map_invariants
      split: option.splits if_splits)

lemma tps_ok_init [map_invariants]: "tps_ok d \<Longrightarrow> tps_ok (tps_init lst d)"
  unfolding tps_init_def
  by (cases lst) (simp_all add: foldl_invariant [where I = tps_ok] tps_ok_add)

lemma partitions_of_tps_add:
  "tps_ok d \<Longrightarrow> partitions_of (tps_add d p) t =
     partitions_of d t \<union> (if t = p_topic p then {p_partition p} else {})"
  by (auto simp: partitions_of_def tps_ok_def find_tps_add set_insort_insert split: option.splits)

lemma partitions_of_fold_add:
  "tps_ok d \<Longrightarrow> partitions_of (foldl tps_add d l) t = partitions_of d t \<union> listed l t"
proof (induction l arbitrary: d)
  case (Cons p l)
  then show ?case
    by (auto simp: tps_ok_add partitions_of_tps_add listed_def)
qed (simp add: listed_def)

lemma list_add_all:
  assumes "list_add_law lib"
  shows "map (\<lambda>e. (p_topic e, p_partition e)) (foldl (\<lambda>lst id. rk_list_add lib lst t id) l s) =
     map (\<lambda>e. (p_topic e, p_partition e)) l @ map (Pair t) s"
  using assms by (induction s arbitrary: l) (auto simp: list_add_law_def)

lemma map_findTopics_from:
  assumes "list_add_law lib"
  shows "map (\<lambda>e. (p_topic e, p_partition e))
       (foldl (\<lambda>lst topic. case map_of d topic of None \<Rightarrow> lst
          | Some s \<Rightarrow> foldl (\<lambda>lst id. rk_list_add lib lst topic id) lst s) l topics) =
     map (\<lambda>e. (p_topic e, p_partition e)) l @
     concat (map (\<lambda>t. map (Pair t) (case map_of d t of Some s \<Rightarrow> s | None \<Rightarrow> [])) topics)"
  by (induction topics arbitrary: l) (auto simp: list_add_all [OF assms] split: option.split)

lemma map_findTopics:
  assumes "list_add_law lib"
  shows "map (\<lambda>e. (p_topic e, p_partition e)) (findTopics lib d topics) =
     concat (map (\<lambda>t. map (Pair t) (case map_of d t of Some s \<Rightarrow> s | None \<Rightarrow> [])) topics)"
  unfolding findTopics_def map_findTopics_from [OF assms] by simp

end
