(* ===== verification/Kafka_Consumer.thy ===== *)
theory Kafka_Consumer
  imports Kafka_Offsets Kafka_Topics
begin

text \<open>
  The Kafka consumer (kafka/qbus_consumer.cc, class \<open>QbusConsumer::QbusConsumerImp\<close>): its state,
  configuration and start-up, the poll loop, the rebalance callback, \<open>pause\<close> and \<open>resume\<close>, and
  \<open>stop\<close>. The fields of the class are the record \<open>consumer\<close>, which extends the tables of
  Kafka_Offsets; a pointer that the code only tests for NULL is a truth value. Two parameters
  stand for what is outside: the library \<open>lib\<close>, and the user's callback \<open>user\<close>, which maps the
  state in which it is called to the messages it passes to \<open>commitOffset\<close> before it returns.
  \<open>cb\<close> is the build variant: whether \<open>NOT_USE_CONSUMER_CALLBACK\<close> is not defined.

  The poll thread runs between \<open>start\<close> and \<open>stop\<close>; \<open>poll_body\<close> is one iteration of its loop.
  \<open>stop\<close> is modelled at the moment when the thread is about to test \<open>start_flag_\<close> again, so that
  the thread's last actions are those after the loop.
\<close>

record consumer = offset_tables +
  rd_kafka_conf :: bool
  rd_kafka_topic_conf :: bool
  rd_kafka_handle :: bool
  cluster_name :: string
  broker_list :: string
  efficacious_topics :: "string list"
  start_flag :: bool
  is_auto_commit_offset :: bool
  is_force_destroy :: bool
  consumer_poll_time :: int
  config :: config_loader
  kgroup :: string
  ktopics :: "string list"
  topic_partition_set :: topic_set
  has_assigned :: bool

definition consumer_new :: "string \<Rightarrow> logger_state \<Rightarrow> consumer" where
  "consumer_new cluster lg = \<lparr>
     calls = [], logger = lg,
     wait_commit_msgs = [], wait_destroy_msgs_for_uncommit = [],
     is_user_manual_commit_offset = False,
     manual_commit_time = RD_KAFKA_SDK_MANUAL_COMMIT_TIME_DEFAULT_MS, last_commit_ms = 0,
     rd_kafka_conf = False, rd_kafka_topic_conf = False, rd_kafka_handle = False,
     cluster_name = cluster, broker_list = '''', efficacious_topics = [],
     start_flag = False, is_auto_commit_offset = True, is_force_destroy = False,
     consumer_poll_time = RD_KAFKA_CONSUMER_POLL_TIMEOUT_MS, config = config_empty,
     kgroup = '''', ktopics = [], topic_partition_set = [], has_assigned = False\<rparr>"

section \<open>Configuration\<close>

text \<open>SIGIO is 29 on Linux.\<close>

definition SIGIO :: int where
  "SIGIO = 29"

text \<open>The offset storage and reset policies; \<open>rt\<close> of the first block is overwritten by the second.\<close>

definition init_offset_policy :: "rk_lib \<Rightarrow> consumer \<Rightarrow> bool \<times> consumer" where
  "init_offset_policy lib c =
     (let (rt, c) =
            (if isSetConfig (config c) RD_KAFKA_TOPIC_CONFIG_OFFSET_STORED_METHOD True then (True, c)
             else setRdKafkaTopicConfig lib (rd_kafka_topic_conf c)
                    RD_KAFKA_TOPIC_CONFIG_OFFSET_STORED_METHOD
                    RD_KAFKA_TOPIC_CONFIG_OFFSET_STORED_METHOD_BROKER c);
          c = (if \<not> rt then c else emit ConfSetDefaultTopicConf c);
          (rt, c) =
            (if isSetConfig (config c) RD_KAFKA_TOPIC_CONFIG_AUTO_OFFSET_RESET True then (True, c)
             else setRdKafkaTopicConfig lib (rd_kafka_topic_conf c)
                    RD_KAFKA_TOPIC_CONFIG_AUTO_OFFSET_RESET
                    RD_KAFKA_TOPIC_CONFIG_AUTO_OFFSET_RESET_EARLIEST c);
          c = (if \<not> rt then c else emit (TopicConfGet RD_KAFKA_TOPIC_CONFIG_AUTO_OFFSET_RESET) c)
      in (rt, c))"

text \<open>
  The commit mode. \<open>rd_kafka_conf_get\<close> returns the value and its length with the NUL, so that
  the comparison with \<open>true\<close> covers the whole value.
\<close>

definition init_commit_mode :: "rk_lib \<Rightarrow> consumer \<Rightarrow> consumer" where
  "init_commit_mode lib c =
     (let got = rk_conf_get lib (calls c) RD_KAFKA_CONFIG_ENABLE_AUTO_COMMIT;
          c = emit (ConfGet RD_KAFKA_CONFIG_ENABLE_AUTO_COMMIT) c;
          c = (case got of
                 Some v \<Rightarrow> c\<lparr>is_auto_commit_offset := strncasecmp_eq v ''true'' (length v + 1)\<rparr>
               | None \<Rightarrow> c);
          user_manual_commit_offset =
            getSdkConfig (config c) RD_KAFKA_SDK_USER_MANUAL_COMMIT_OFFSET DEFAULT_FALSE;
          c = (if value_matches user_manual_commit_offset DEFAULT_FALSE
               then c\<lparr>is_user_manual_commit_offset := False\<rparr>
               else (let c = c\<lparr>is_user_manual_commit_offset := True\<rparr> in
                     if is_auto_commit_offset c
                     then snd (setRdKafkaConfig lib (rd_kafka_conf c)
                                 RD_KAFKA_CONFIG_ENABLE_AUTO_COMMIT ''false''
                                 (c\<lparr>is_auto_commit_offset := False\<rparr>))
                     else c));
          force_destroy = getSdkConfig (config c) RD_KAFKA_SDK_FORCE_DESTROY DEFAULT_FALSE
      in if value_matches force_destroy DEFAULT_FALSE
         then c\<lparr>is_force_destroy := False\<rparr> else c\<lparr>is_force_destroy := True\<rparr>)"

definition init_api_version :: "rk_lib \<Rightarrow> consumer \<Rightarrow> consumer" where
  "init_api_version lib c =
     (if \<not> isSetConfig (config c) RD_KAFKA_CONFIG_API_VERSION_REQUEST False
      then (let c = snd (setRdKafkaConfig lib (rd_kafka_conf c) RD_KAFKA_CONFIG_API_VERSION_REQUEST
                           RD_KAFKA_CONFIG_API_VERSION_REQUEST_FOR_OLDER c)
            in snd (setRdKafkaConfig lib (rd_kafka_conf c) RD_KAFKA_CONFIG_BROKER_VERSION_FALLBACK
                      RD_KAFKA_CONFIG_BROKER_VERSION_FALLBACK_FOR_OLDER c))
      else c)"

definition init_topic_conf :: "rk_lib \<Rightarrow> consumer \<Rightarrow> bool \<times> consumer" where
  "init_topic_conf lib c =
     (let c = loadRdkafkaConfig lib (config c) (rd_kafka_conf c) (rd_kafka_topic_conf c) c;
          c = c\<lparr>kgroup := getGlobalConfig (config c) RD_KAFKA_CONFIG_GROUP_ID ''''\<rparr>;
          enable_rdkafka_log =
            getSdkConfig (config c) RD_KAFKA_SDK_CONFIG_ENABLE_RD_KAFKA_LOG DEFAULT_FALSE;
          c = (if value_matches enable_rdkafka_log DEFAULT_FALSE
               then emit (ConfSetLogCb False) c else emit (ConfSetLogCb True) c);
          c = setClientId lib (rd_kafka_conf c) True c;
          (rt, c) = init_offset_policy lib c;
          c = c\<lparr>consumer_poll_time := strtol10 (getSdkConfig (config c)
                   RD_KAFKA_SDK_CONSUMER_POLL_TIME RD_KAFKA_SDK_CONSUMER_POLL_TIME_DEFAULT_MS)\<rparr>;
          c = c\<lparr>manual_commit_time := strtol10 (getSdkConfig (config c)
                   RD_KAFKA_SDK_CONSUMER_MANUAL_COMMIT_TIME
                   RD_KAFKA_SDK_MANUAL_COMMIT_TIME_DEFAULT_MS_STR)\<rparr>
      in (rt, init_commit_mode lib c))"

definition initRdKafkaConfig :: "rk_lib \<Rightarrow> consumer \<Rightarrow> bool \<times> consumer" where
  "initRdKafkaConfig lib c =
     (let ok = rk_conf_new lib (calls c);
          c = (emit ConfNew c)\<lparr>rd_kafka_conf := ok\<rparr>
      in if rd_kafka_conf c then
           (let c = snd (setRdKafkaConfig lib True RD_KAFKA_CONFIG_INTERNAL_TERMINATION_SIGNAL
                           (take 15 (show_int SIGIO)) c);
                c = emit ConfSetOpaque c;
                c = emit ConfSetRebalanceCb c;
                tok = rk_topic_conf_new lib (calls c);
                c = (emit TopicConfNew c)\<lparr>rd_kafka_topic_conf := tok\<rparr>;
                (rt, c) = (if rd_kafka_topic_conf c then init_topic_conf lib c else (False, c))
            in (rt, init_api_version lib c))
         else (False, c))"

definition initRdKafka :: "rk_lib \<Rightarrow> consumer \<Rightarrow> bool \<times> consumer" where
  "initRdKafka lib c = initRdKafkaConfig lib c"

definition consumer_init ::
  "'t ptree_lib \<Rightarrow> rk_lib \<Rightarrow> string \<Rightarrow> string \<Rightarrow> consumer \<Rightarrow> bool \<times> consumer" where
  "consumer_init pt lib log_path config_path c =
     (let (load_config_ok, errstr, cfg) = loadConfig pt config_path '''' (config c);
          c = c\<lparr>config := cfg\<rparr>;
          c = c\<lparr>logger := initLog (getSdkConfig (config c) RD_KAFKA_SDK_CONFIG_LOG_LEVEL
                   RD_KAFKA_SDK_CONFIG_LOG_LEVEL_DEFAULT) log_path (logger c)\<rparr>
      in if \<not> load_config_ok then (False, c)
         else
           (let c = c\<lparr>broker_list := cluster_name c\<rparr> in
            if broker_list c = '''' then
              (let (ok, bl) = getQbusBrokerList (config c);
                   c = c\<lparr>broker_list := bl\<rparr>
               in if ok then initRdKafka lib c else (False, c))
            else initRdKafka lib c))"

section \<open>Subscription\<close>

text \<open>The result of \<open>rd_kafka_poll_set_consumer\<close> is overwritten by \<open>rt = true\<close>.\<close>

definition initRdKafkaHandle :: "rk_lib \<Rightarrow> consumer \<Rightarrow> bool \<times> consumer" where
  "initRdKafkaHandle lib c =
     (if rd_kafka_handle c then (True, c)
      else
        (let ok = rk_new lib (calls c);
             c = (emit NewHandle c)\<lparr>rd_kafka_handle := ok\<rparr>
         in if \<not> rd_kafka_handle c then (False, c)
            else
              (let n = rk_brokers_add lib (calls c) (broker_list c);
                   c = emit (BrokersAdd (broker_list c)) c
               in if n = 0 then (False, c)
                  else (True, emit PollSetConsumer c))))"

text \<open>The loop over the topics stops at the first that cannot be added.\<close>

fun add_topics :: "rk_lib \<Rightarrow> string list \<Rightarrow> string list \<Rightarrow> consumer \<Rightarrow> string list \<times> consumer" where
  "add_topics lib [] added c = (added, c)"
| "add_topics lib (t # ts) added c =
     (let ok = rk_list_add_ok lib (calls c) t;
          c = emit (TopicListAdd t) c
      in if ok then add_topics lib ts (added @ [t]) c else (added, c))"

definition subscribe_topics :: "rk_lib \<Rightarrow> string list \<Rightarrow> consumer \<Rightarrow> bool \<times> consumer" where
  "subscribe_topics lib topics c =
     (let ok = rk_list_new lib (calls c);
          c = emit TopicListNew c
      in if ok then
           (let (added, c) = add_topics lib topics [] c in
            if added \<noteq> [] then
              (let err = rk_subscribe lib (calls c) added;
                   c = emit (Subscribe added) c
               in if err \<noteq> 0 then (False, c)
                  else (True, c\<lparr>efficacious_topics :=
                                  foldl (\<lambda>s t. insort_insert t s) (efficacious_topics c) added\<rparr>))
            else (False, c))
         else (True, c))"

definition subscribe :: "rk_lib \<Rightarrow> string \<Rightarrow> string list \<Rightarrow> consumer \<Rightarrow> bool \<times> consumer" where
  "subscribe lib grp topics c =
     (let c = (if grp \<noteq> '''' then c\<lparr>kgroup := grp\<rparr> else c);
          c = c\<lparr>ktopics := topics\<rparr>;
          (rt, c) = (if kgroup c \<noteq> ''''
                     then setRdKafkaConfig lib (rd_kafka_conf c) RD_KAFKA_CONFIG_GROUP_ID (kgroup c) c
                     else (False, c));
          (rt, c) = (if rt then initRdKafkaHandle lib c else (rt, c))
      in if rt \<and> topics \<noteq> [] then subscribe_topics lib topics c else (rt, c))"

section \<open>Rebalance callback\<close>

definition rdkafka_rebalance_cb :: "rk_lib \<Rightarrow> rebalance \<Rightarrow> consumer \<Rightarrow> consumer" where
  "rdkafka_rebalance_cb lib err c =
     (case err of
        AssignPartitions partitions \<Rightarrow>
          (let c = emit (RebalanceAssign (Some partitions)) c;
               c = c\<lparr>topic_partition_set := tps_init (Some partitions) (topic_partition_set c)\<rparr>
           in c\<lparr>has_assigned := True\<rparr>)
      | RevokePartitions partitions \<Rightarrow>
          (let c = (if \<not> is_auto_commit_offset c then manualCommitWaitOffset lib True c else c);
               c = emit (RebalanceAssign None) c
           in c\<lparr>has_assigned := False\<rparr>)
      | RebalanceFailed e partitions \<Rightarrow>
          (let c = emit (RebalanceAssign None) c in c\<lparr>has_assigned := False\<rparr>))"

text \<open>\<open>rd_kafka_consumer_poll\<close>: it serves rebalance callbacks and returns a message or NULL.\<close>

definition consumer_poll :: "rk_lib \<Rightarrow> consumer \<Rightarrow> rk_message option \<times> consumer" where
  "consumer_poll lib c =
     (let timeout = long_to_int (consumer_poll_time c);
          (events, msg) = rk_consumer_poll lib (calls c) timeout;
          c = emit (ConsumerPoll timeout) c;
          c = foldl (\<lambda>c ev. rdkafka_rebalance_cb lib ev c) c events
      in (msg, emit (PollReturned msg) c))"

section \<open>The poll thread\<close>

definition checkMsg :: "rk_message \<Rightarrow> bool" where
  "checkMsg rkmessage = (\<not> (m_err rkmessage \<noteq> 0))"

definition payload_of :: "rk_message \<Rightarrow> string" where
  "payload_of m = (case m_payload m of Some p \<Rightarrow> p | None \<Rightarrow> '''')"

definition topic_of :: "rk_message \<Rightarrow> string" where
  "topic_of m = (case m_topic m of Some t \<Rightarrow> t | None \<Rightarrow> '''')"

definition run_commits :: "rk_message list \<Rightarrow> consumer \<Rightarrow> consumer" where
  "run_commits ms c = foldl (\<lambda>c m. commitOffset (Some m) c) c ms"

definition receivedConsumeMsg ::
  "(consumer \<Rightarrow> rk_message list) \<Rightarrow> rk_message \<Rightarrow> consumer \<Rightarrow> consumer" where
  "receivedConsumeMsg user rkmessage c =
     (let topic_name = topic_of rkmessage; msg = payload_of rkmessage;
          c = (if \<not> is_user_manual_commit_offset c
               then emit (DeliveryMsg (m_ptr rkmessage) topic_name msg (length msg)) c
               else emit (DeliveryMsgForCommitOffset rkmessage topic_name msg (length msg)) c)
      in run_commits (user c) c)"

definition poll_body :: "rk_lib \<Rightarrow> (consumer \<Rightarrow> rk_message list) \<Rightarrow> consumer \<Rightarrow> consumer" where
  "poll_body lib user c =
     (let (rdkafka_message, c) = consumer_poll lib c;
          c = (case rdkafka_message of
                 Some m \<Rightarrow>
                   (if checkMsg m then
                      (if \<not> is_auto_commit_offset c then
                         receivedConsumeMsg user m
                           (if \<not> is_user_manual_commit_offset c then addWaitCommitOffset m c
                            else addWaitDestroyMsgs m c)
                       else emit (MessageDestroy (m_ptr m)) (receivedConsumeMsg user m c))
                    else emit (MessageDestroy (m_ptr m)) c)
               | None \<Rightarrow> c)
      in if \<not> is_auto_commit_offset c then manualCommitWaitOffset lib False c else c)"

text \<open>The loop, when \<open>start_flag_\<close> is seen set \<open>n\<close> times, and what follows it.\<close>

fun poll_loop :: "nat \<Rightarrow> rk_lib \<Rightarrow> (consumer \<Rightarrow> rk_message list) \<Rightarrow> consumer \<Rightarrow> consumer" where
  "poll_loop 0 lib user c = c"
| "poll_loop (Suc n) lib user c = poll_loop n lib user (poll_body lib user c)"

definition poll_thread_exit :: "rk_lib \<Rightarrow> consumer \<Rightarrow> consumer" where
  "poll_thread_exit lib c =
     (if \<not> is_auto_commit_offset c then manualCommitWaitOffset lib False c else c)"

text \<open>\<open>consume\<close> of the build without callbacks: the info it fills, if it returns true.\<close>

record msg_content_info =
  info_topic :: string
  info_msg :: string
  info_msg_len :: nat
  info_rd_message :: "rk_message option"

definition consume :: "rk_lib \<Rightarrow> consumer \<Rightarrow> bool \<times> msg_content_info option \<times> consumer" where
  "consume lib c =
     (let (rt, info, c) =
        (if start_flag c then
           (let (rkmessage, c) = consumer_poll lib c in
            case rkmessage of
              Some m \<Rightarrow>
                (if checkMsg m \<and> m_payload m \<noteq> None then
                   (let info = \<lparr>info_topic = topic_of m, info_msg = payload_of m,
                                info_msg_len = length (payload_of m), info_rd_message = Some m\<rparr>;
                        c = emit (MessageRead (m_ptr m)) c;
                        c = (if \<not> is_auto_commit_offset c then
                               (if \<not> is_user_manual_commit_offset c then addWaitCommitOffset m c
                                else addWaitDestroyMsgs m c)
                             else emit (MessageDestroy (m_ptr m)) c)
                    in (True, Some info, c))
                 else (False, None, emit (MessageDestroy (m_ptr m)) c))
            | None \<Rightarrow> (False, None, c))
         else (False, None, c));
        c = (if \<not> is_auto_commit_offset c then manualCommitWaitOffset lib False c else c)
      in (rt, info, c))"

section \<open>Start, stop, pause, resume\<close>

definition start :: "bool \<Rightarrow> rk_lib \<Rightarrow> consumer \<Rightarrow> bool \<times> consumer" where
  "start cb lib c =
     (if \<not> start_flag c \<and> efficacious_topics c \<noteq> [] then
        (let c = c\<lparr>start_flag := True\<rparr> in
         if cb then
           (let err = rk_thread_create lib (calls c);
                c = emit ThreadCreate c
            in if err \<noteq> 0 then (False, c\<lparr>start_flag := False\<rparr>) else (True, c))
         else (True, c))
      else (True, c))"

fun wait_destroyed_loop :: "nat \<Rightarrow> rk_lib \<Rightarrow> consumer \<Rightarrow> consumer" where
  "wait_destroyed_loop 0 lib c = c"
| "wait_destroyed_loop (Suc run) lib c =
     (let r = rk_wait_destroyed lib (calls c);
          c = emit (WaitDestroyed 1000) c
      in if r = -1 then wait_destroyed_loop run lib c else c)"

definition stop_thread :: "bool \<Rightarrow> rk_lib \<Rightarrow> consumer \<Rightarrow> consumer" where
  "stop_thread cb lib c =
     (let c = c\<lparr>start_flag := False\<rparr>;
          c = c\<lparr>topic_partition_set := tps_init None (topic_partition_set c)\<rparr>;
          c = (if cb then emit ThreadJoin (poll_thread_exit lib c) else c);
          c = (if \<not> is_auto_commit_offset c then manualCommitWaitOffset lib True c else c)
      in if is_user_manual_commit_offset c then clearWaitDestroyMsgs c else c)"

definition close_consumer :: "rk_lib \<Rightarrow> consumer \<Rightarrow> consumer" where
  "close_consumer lib c =
     (let (events, err) = rk_consumer_close lib (calls c);
          c = emit ConsumerClose c
      in foldl (\<lambda>c ev. rdkafka_rebalance_cb lib ev c) c events)"

definition stop :: "bool \<Rightarrow> rk_lib \<Rightarrow> consumer \<Rightarrow> consumer" where
  "stop cb lib c =
     (let c = (if start_flag c then stop_thread cb lib c else c);
          c = (if rd_kafka_handle c then close_consumer lib c else c);
          c = (if rd_kafka_handle c
               then (if is_user_manual_commit_offset c \<and> is_force_destroy c then c
                     else emit HandleDestroy c)\<lparr>rd_kafka_handle := False\<rparr>
               else c)
      in wait_destroyed_loop 5 lib c)"

definition pause :: "rk_lib \<Rightarrow> string list \<Rightarrow> consumer \<Rightarrow> bool \<times> consumer" where
  "pause lib topics c =
     (if \<not> start_flag c then (False, c)
      else if \<not> has_assigned c then (False, c)
      else
        (let lst = findTopics lib (topic_partition_set c) topics;
             err = rk_pause_partitions lib (calls c) lst;
             c = emit (PausePartitions lst) c
         in if err \<noteq> 0 then (False, c) else (True, c)))"

definition resume :: "rk_lib \<Rightarrow> string list \<Rightarrow> consumer \<Rightarrow> bool \<times> consumer" where
  "resume lib topics c =
     (if \<not> start_flag c then (False, c)
      else if \<not> has_assigned c then (False, c)
      else
        (let lst = findTopics lib (topic_partition_set c) topics;
             err = rk_resume_partitions lib (calls c) lst;
             c = emit (ResumePartitions lst) c
         in if err \<noteq> 0 then (False, c) else (True, c)))"

section \<open>The object behind the vtable\<close>

text \<open>\<open>kafka::QbusConsumer\<close> holds a pointer to the implementation, NULL until \<open>init\<close>.\<close>

type_synonym kafka_consumer = "consumer option"

definition KConsumer_init ::
  "'t ptree_lib \<Rightarrow> rk_lib \<Rightarrow> logger_state \<Rightarrow> string \<Rightarrow> string \<Rightarrow> string \<Rightarrow> kafka_consumer \<Rightarrow>
     bool \<times> kafka_consumer" where
  "KConsumer_init pt lib lg cluster log_path config_path imp =
     (let real_cluster_name = (if \<not> find_char (CHR '':'') cluster then '''' else cluster);
          (rt, c) = consumer_init pt lib log_path config_path (consumer_new real_cluster_name lg)
      in (rt, Some c))"

definition KConsumer_subscribe ::
  "rk_lib \<Rightarrow> string \<Rightarrow> string list \<Rightarrow> kafka_consumer \<Rightarrow> bool \<times> kafka_consumer" where
  "KConsumer_subscribe lib grp topics imp =
     (case imp of None \<Rightarrow> (False, None)
      | Some c \<Rightarrow> (let (rt, c) = subscribe lib grp topics c in (rt, Some c)))"

definition KConsumer_subscribeOne ::
  "rk_lib \<Rightarrow> string \<Rightarrow> string \<Rightarrow> kafka_consumer \<Rightarrow> bool \<times> kafka_consumer" where
  "KConsumer_subscribeOne lib grp topic imp = KConsumer_subscribe lib grp [topic] imp"

definition KConsumer_start :: "bool \<Rightarrow> rk_lib \<Rightarrow> kafka_consumer \<Rightarrow> bool \<times> kafka_consumer" where
  "KConsumer_start cb lib imp =
     (case imp of None \<Rightarrow> (False, None)
      | Some c \<Rightarrow> (let (rt, c) = start cb lib c in (rt, Some c)))"

definition KConsumer_stop :: "bool \<Rightarrow> rk_lib \<Rightarrow> kafka_consumer \<Rightarrow> kafka_consumer" where
  "KConsumer_stop cb lib imp = (case imp of None \<Rightarrow> None | Some c \<Rightarrow> Some (stop cb lib c))"

definition KConsumer_pause :: "rk_lib \<Rightarrow> string list \<Rightarrow> kafka_consumer \<Rightarrow> bool \<times> kafka_consumer" where
  "KConsumer_pause lib topics imp =
     (case imp of None \<Rightarrow> (False, None)
      | Some c \<Rightarrow> (let (rt, c) = pause lib topics c in (rt, Some c)))"

definition KConsumer_resume :: "rk_lib \<Rightarrow> string list \<Rightarrow> kafka_consumer \<Rightarrow> bool \<times> kafka_consumer" where
  "KConsumer_resume lib topics imp =
     (case imp of None \<Rightarrow> (False, None)
      | Some c \<Rightarrow> (let (rt, c) = resume lib topics c in (rt, Some c)))"

definition KConsumer_commitOffset :: "rk_message option \<Rightarrow> kafka_consumer \<Rightarrow> kafka_consumer" where
  "KConsumer_commitOffset rd_message imp =
     (case imp of None \<Rightarrow> None | Some c \<Rightarrow> Some (commitOffset rd_message c))"

definition KConsumer_consume ::
  "bool \<Rightarrow> rk_lib \<Rightarrow> kafka_consumer \<Rightarrow> bool \<times> msg_content_info option \<times> kafka_consumer" where
  "KConsumer_consume cb lib imp =
     (if cb then (False, None, imp)
      else case imp of None \<Rightarrow> (False, None, None)
           | Some c \<Rightarrow> (let (rt, info, c) = consume lib c in (rt, info, Some c)))"

end
