(* ===== verification/Kafka_Consumer_Proofs.thy ===== *)
theory Kafka_Consumer_Proofs
  imports Kafka_Consumer
begin

text \<open>
  Lemmas on the Kafka consumer. The first part says which fields an operation leaves alone; the
  second that every operation keeps \<open>owned\<close>: the tables are well formed, and the live messages
  are exactly those the tables hold, plus those in flight. A run of the consumer then frees every
  message once, and reads none after it was freed.
\<close>

section \<open>Frame\<close>

text \<open>An operation on the offset tables leaves the rest of the consumer, \<open>offset_tables.more\<close>, alone.\<close>

lemma consumer_more:
  assumes "offset_tables.more (c' :: consumer) = offset_tables.more c"
  shows "start_flag c' = start_flag c" "rd_kafka_handle c' = rd_kafka_handle c"
    "is_auto_commit_offset c' = is_auto_commit_offset c" "is_force_destroy c' = is_force_destroy c"
    "topic_partition_set c' = topic_partition_set c" "has_assigned c' = has_assigned c"
    "efficacious_topics c' = efficacious_topics c" "rd_kafka_conf c' = rd_kafka_conf c"
    "kgroup c' = kgroup c" "config c' = config c"
  using assms by (cases c; cases c'; simp)+

lemma more_emit [simp]: "offset_tables.more (emit x c) = offset_tables.more c"
  by (simp add: emit_def)

lemma more_destroy_all [simp]: "offset_tables.more (destroy_all ms c) = offset_tables.more c"
  by (induction ms arbitrary: c) auto

lemma more_foldl: "(\<And>c x. offset_tables.more (f c x) = offset_tables.more c) \<Longrightarrow>
    offset_tables.more (foldl f c xs) = offset_tables.more c"
  by (rule foldl_frame)

lemma more_tables_ops [simp]:
  "offset_tables.more (addWaitCommitOffset m c) = offset_tables.more c"
  "offset_tables.more (addWaitDestroyMsgs m c) = offset_tables.more c"
  "offset_tables.more (removeWaitDestroyMsgs m c) = offset_tables.more c"
  "offset_tables.more (clearWaitDestroyMsgs c) = offset_tables.more c"
  "offset_tables.more (manualCommitWaitOffset lib f c) = offset_tables.more c"
  "offset_tables.more (commitOffset mo c) = offset_tables.more c"
proof -
  show a: "offset_tables.more (addWaitCommitOffset m c) = offset_tables.more c"
    by (simp add: addWaitCommitOffset_def Let_def split: option.split)
  show "offset_tables.more (addWaitDestroyMsgs m c) = offset_tables.more c"
    by (simp add: addWaitDestroyMsgs_def Let_def split: option.split)
  show r: "offset_tables.more (removeWaitDestroyMsgs m c) = offset_tables.more c" for m c
    by (simp add: removeWaitDestroyMsgs_def Let_def split: option.split list.split)
  show "offset_tables.more (clearWaitDestroyMsgs c) = offset_tables.more c"
    unfolding clearWaitDestroyMsgs_def by (rule more_foldl) (simp split: prod.split)
  show "offset_tables.more (manualCommitWaitOffset lib f c) = offset_tables.more c"
    by (simp add: manualCommitWaitOffset_def getCurrentTimeMs_eq Let_def more_foldl
        manualCommitOffset_def split: prod.split)
  show "offset_tables.more (commitOffset mo c) = offset_tables.more c"
    by (simp add: commitOffset_def r addWaitCommitOffset_def Let_def split: option.split)
qed

lemmas tables_op_consumer [simp] =
  consumer_more [OF more_emit] consumer_more [OF more_tables_ops(1)]
  consumer_more [OF more_tables_ops(2)] consumer_more [OF more_tables_ops(3)]
  consumer_more [OF more_tables_ops(4)] consumer_more [OF more_tables_ops(5)]
  consumer_more [OF more_tables_ops(6)]

declare frame_simps [simp]

lemma commitOffset_user_manual [simp]:
  "is_user_manual_commit_offset (commitOffset mo c) = is_user_manual_commit_offset c"
  by (simp add: commitOffset_def split: option.split)

text \<open>What the rebalance callback, the poll and the user's commits do not change.\<close>

lemma rebalance_frame [simp]:
  "start_flag (rdkafka_rebalance_cb lib ev c) = start_flag c"
  "rd_kafka_handle (rdkafka_rebalance_cb lib ev c) = rd_kafka_handle c"
  "is_auto_commit_offset (rdkafka_rebalance_cb lib ev c) = is_auto_commit_offset c"
  "is_user_manual_commit_offset (rdkafka_rebalance_cb lib ev c) = is_user_manual_commit_offset c"
  "is_force_destroy (rdkafka_rebalance_cb lib ev c) = is_force_destroy c"
  "wait_destroy_msgs_for_uncommit (rdkafka_rebalance_cb lib ev c) = wait_destroy_msgs_for_uncommit c"
  by (simp_all add: rdkafka_rebalance_cb_def Let_def split: rebalance.split)

lemma rebalances_frame [simp]:
  "start_flag (foldl (\<lambda>c ev. rdkafka_rebalance_cb lib ev c) c evs) = start_flag c"
  "rd_kafka_handle (foldl (\<lambda>c ev. rdkafka_rebalance_cb lib ev c) c evs) = rd_kafka_handle c"
  "is_auto_commit_offset (foldl (\<lambda>c ev. rdkafka_rebalance_cb lib ev c) c evs) = is_auto_commit_offset c"
  "is_user_manual_commit_offset (foldl (\<lambda>c ev. rdkafka_rebalance_cb lib ev c) c evs) =
     is_user_manual_commit_offset c"
  "is_force_destroy (foldl (\<lambda>c ev. rdkafka_rebalance_cb lib ev c) c evs) = is_force_destroy c"
  "wait_destroy_msgs_for_uncommit (foldl (\<lambda>c ev. rdkafka_rebalance_cb lib ev c) c evs) =
     wait_destroy_msgs_for_uncommit c"
  by (rule foldl_frame, simp)+

lemma consumer_poll_frame [simp]:
  "start_flag (snd (consumer_poll lib c)) = start_flag c"
  "rd_kafka_handle (snd (consumer_poll lib c)) = rd_kafka_handle c"
  "is_auto_commit_offset (snd (consumer_poll lib c)) = is_auto_commit_offset c"
  "is_user_manual_commit_offset (snd (consumer_poll lib c)) = is_user_manual_commit_offset c"
  "is_force_destroy (snd (consumer_poll lib c)) = is_force_destroy c"
  "wait_destroy_msgs_for_uncommit (snd (consumer_poll lib c)) = wait_destroy_msgs_for_uncommit c"
  by (simp_all add: consumer_poll_def Let_def split: prod.split)

lemma run_commits_frame [simp]:
  "start_flag (run_commits ms c) = start_flag c"
  "rd_kafka_handle (run_commits ms c) = rd_kafka_handle c"
  "is_auto_commit_offset (run_commits ms c) = is_auto_commit_offset c"
  "is_user_manual_commit_offset (run_commits ms c) = is_user_manual_commit_offset c"
  "is_force_destroy (run_commits ms c) = is_force_destroy c"
  unfolding run_commits_def by (rule foldl_frame, simp)+

lemma receivedConsumeMsg_frame [simp]:
  "start_flag (receivedConsumeMsg user m c) = start_flag c"
  "rd_kafka_handle (receivedConsumeMsg user m c) = rd_kafka_handle c"
  "is_auto_commit_offset (receivedConsumeMsg user m c) = is_auto_commit_offset c"
  "is_user_manual_commit_offset (receivedConsumeMsg user m c) = is_user_manual_commit_offset c"
  "is_force_destroy (receivedConsumeMsg user m c) = is_force_destroy c"
  by (simp_all add: receivedConsumeMsg_def Let_def)

section \<open>Ownership of messages\<close>

definition owned :: "nat multiset \<Rightarrow> consumer \<Rightarrow> bool" where
  "owned X c \<longleftrightarrow> tables_ok c \<and> lifetime (calls c) = Some (held c + X)"

text \<open>Calls that neither give nor take a message.\<close>

definition neutral :: "rk_call \<Rightarrow> bool" where
  "neutral x \<longleftrightarrow> (\<forall>L. live_step (Some L) x = Some L)"

lemma neutral_simps [simp]:
  "neutral GetTimeOfDay" "neutral (ConsumerPoll t)" "neutral (PollReturned None)"
  "neutral (RebalanceAssign ps)" "neutral ConsumerClose" "neutral HandleDestroy"
  "neutral (WaitDestroyed n)" "neutral ThreadCreate" "neutral ThreadJoin"
  "neutral (PausePartitions l)" "neutral (ResumePartitions l)"
  by (simp_all add: neutral_def)

lemma held_emit_all [simp]: "held (emit x c) = held c"
  by (simp add: held_def)

lemma tables_ok_emit [simp]: "tables_ok (emit x c) = tables_ok c"
  by (simp add: tables_ok_def)

lemma owned_neutral: "neutral x \<Longrightarrow> owned X c \<Longrightarrow> owned X (emit x c)"
  by (auto simp: owned_def neutral_def)

lemma owned_same_tables:
  assumes "owned X c" and "calls c' = calls c" "wait_commit_msgs c' = wait_commit_msgs c"
    "wait_destroy_msgs_for_uncommit c' = wait_destroy_msgs_for_uncommit c"
  shows "owned X c'"
  using assms by (simp add: owned_def tables_ok_def held_def held_commit_def held_destroy_def)

lemma owned_manualCommitWaitOffset:
  assumes "owned X c"
  shows "owned X (manualCommitWaitOffset lib f c)"
proof -
  have "lifetime (calls c) = Some (held_commit c + (held_destroy c + X))"
    using assms by (simp add: owned_def held_def add.assoc)
  from live_manualCommitWaitOffset [OF this, of lib f]
  have "lifetime (calls (manualCommitWaitOffset lib f c)) =
      Some (held (manualCommitWaitOffset lib f c) + X)"
    by (simp add: held_def add.assoc
        held_destroy_frame [of "manualCommitWaitOffset lib f c" c])
  with assms show ?thesis by (simp add: owned_def map_invariants)
qed

lemma owned_addWaitCommitOffset:
  assumes "owned (add_mset (m_ptr m) X) c"
  shows "owned X (addWaitCommitOffset m c)"
proof -
  have "lifetime (calls c) = Some (held_commit c + (held_destroy c + add_mset (m_ptr m) X))"
    using assms by (simp add: owned_def held_def add.assoc)
  from live_addWaitCommitOffset [OF _ this, of m] assms
  have "lifetime (calls (addWaitCommitOffset m c)) = Some (held (addWaitCommitOffset m c) + X)"
    by (simp add: owned_def held_def add.assoc held_destroy_frame [of "addWaitCommitOffset m c" c])
  with assms show ?thesis by (simp add: owned_def map_invariants)
qed

lemma owned_addWaitDestroyMsgs:
  assumes "owned (add_mset (m_ptr m) X) c"
  shows "owned X (addWaitDestroyMsgs m c)"
proof -
  have "lifetime (calls c) = Some (held_destroy c + (held_commit c + add_mset (m_ptr m) X))"
    using assms by (simp add: owned_def held_def ac_simps)
  from live_addWaitDestroyMsgs [OF _ this, of m] assms
  have "lifetime (calls (addWaitDestroyMsgs m c)) = Some (held (addWaitDestroyMsgs m c) + X)"
    by (simp add: owned_def held_def ac_simps held_commit_frame [of "addWaitDestroyMsgs m c" c])
  with assms show ?thesis by (simp add: owned_def map_invariants)
qed

lemma owned_rebalance: "owned X c \<Longrightarrow> owned X (rdkafka_rebalance_cb lib ev c)"
  by (cases ev)
     (auto simp: rdkafka_rebalance_cb_def Let_def
       intro!: owned_manualCommitWaitOffset owned_neutral
       intro: owned_same_tables [OF owned_neutral [of "RebalanceAssign _"]]
         owned_same_tables [OF owned_neutral [of "RebalanceAssign _", OF _ owned_manualCommitWaitOffset]])

lemma owned_rebalances:
  "owned X c \<Longrightarrow> owned X (foldl (\<lambda>c ev. rdkafka_rebalance_cb lib ev c) c evs)"
  by (rule foldl_invariant) (auto intro: owned_rebalance)

lemma owned_destroy: "owned (add_mset (m_ptr m) X) c \<Longrightarrow> owned X (emit (MessageDestroy (m_ptr m)) c)"
  by (simp add: owned_def)

lemma owned_consumer_poll:
  assumes "owned X c" and "consumer_poll lib c = (mo, c')"
  shows "owned (case mo of Some m \<Rightarrow> add_mset (m_ptr m) X | None \<Rightarrow> X) c'"
proof -
  let ?t = "long_to_int (consumer_poll_time c)"
  obtain evs where p: "rk_consumer_poll lib (calls c) ?t = (evs, mo)"
    and c': "c' = emit (PollReturned mo)
      (foldl (\<lambda>c ev. rdkafka_rebalance_cb lib ev c) (emit (ConsumerPoll ?t) c) evs)"
    using assms(2) by (auto simp: consumer_poll_def Let_def split: prod.splits)
  have "owned X (foldl (\<lambda>c ev. rdkafka_rebalance_cb lib ev c) (emit (ConsumerPoll ?t) c) evs)"
    using assms(1) by (intro owned_rebalances owned_neutral) simp_all
  then show ?thesis unfolding c' by (cases mo) (simp_all add: owned_def)
qed

section \<open>The user's commits\<close>

text \<open>
  The contract of \<open>commitOffset\<close>: each message it is given is one that still waits for it, that
  is, one delivered and not yet passed over by a later commit. Without the user-commit mode the
  call does nothing. \<open>careful\<close> asks this of a callback for the states in which it is called, with a
  message that has just been put among the waiting ones.
\<close>

fun commits_legal :: "consumer \<Rightarrow> rk_message list \<Rightarrow> bool" where
  "commits_legal c [] = True"
| "commits_legal c (m # ms) = (waiting m c \<and> commits_legal (commitOffset (Some m) c) ms)"

definition careful :: "(consumer \<Rightarrow> rk_message list) \<Rightarrow> bool" where
  "careful user \<longleftrightarrow> (\<forall>c m t d n. calls c \<noteq> [] \<longrightarrow> waiting m c \<longrightarrow>
     last (calls c) = DeliveryMsgForCommitOffset m t d n \<longrightarrow> commits_legal c (user c))"

lemma waiting_emit [simp]: "waiting m (emit x c) = waiting m c"
  by (simp add: waiting_def)

lemma commitOffset_ignored [simp]:
  "\<not> is_user_manual_commit_offset c \<Longrightarrow> commitOffset mo c = c"
  by (simp add: commitOffset_def)

lemma run_commits_ignored [simp]:
  "\<not> is_user_manual_commit_offset c \<Longrightarrow> run_commits ms c = c"
  by (induction ms) (simp_all add: run_commits_def)

lemma owned_commitOffset:
  assumes "owned X c" and "waiting m c"
  shows "owned X (commitOffset (Some m) c)"
proof (cases "is_user_manual_commit_offset c")
  case True
  with assms live_commitOffset [of c X m] show ?thesis
    by (simp add: owned_def map_invariants)
qed (use assms in simp)

lemma owned_run_commits: "owned X c \<Longrightarrow> commits_legal c ms \<Longrightarrow> owned X (run_commits ms c)"
proof (induction ms arbitrary: c)
  case Nil
  then show ?case by (simp add: run_commits_def)
next
  case (Cons m ms)
  then have "owned X (commitOffset (Some m) c)" by (intro owned_commitOffset) auto
  from Cons.IH [OF this] Cons.prems show ?case by (simp add: run_commits_def)
qed

lemma owned_deliver:
  assumes "owned X c" and "m_ptr m \<in># held c + X"
  shows "owned X (emit (DeliveryMsg (m_ptr m) t s n) c)"
    and "owned X (emit (DeliveryMsgForCommitOffset m t s n) c)"
  using assms by (simp_all add: owned_def)

lemma owned_receivedConsumeMsg:
  assumes "owned X c" and "m_ptr m \<in># held c + X"
    and "is_user_manual_commit_offset c \<Longrightarrow> careful user \<and> waiting m c"
  shows "owned X (receivedConsumeMsg user m c)"
proof (cases "is_user_manual_commit_offset c")
  case False
  with assms(1,2) show ?thesis
    by (simp add: receivedConsumeMsg_def Let_def owned_deliver del: run_commits_ignored)
       (simp add: owned_deliver)
next
  case True
  let ?d = "emit (DeliveryMsgForCommitOffset m (topic_of m) (payload_of m) (length (payload_of m))) c"
  have "commits_legal ?d (user ?d)"
    using assms(3) [OF True] unfolding careful_def by (metis calls_emit last_snoc snoc_eq_iff_butlast waiting_emit)
  with assms(1,2) True show ?thesis
    by (auto simp: receivedConsumeMsg_def Let_def intro!: owned_run_commits owned_deliver)
qed

lemma member_held_addWaitCommitOffset: "m_ptr m \<in># held (addWaitCommitOffset m c)"
  unfolding held_def
  by (simp add: held_commit_old [where k = "getWaitOffsetKey m"] map_of_smap_assign)

lemma waiting_addWaitDestroyMsgs:
  "tables_ok c \<Longrightarrow> waiting m (addWaitDestroyMsgs m c)"
  by (auto simp: waiting_def addWaitDestroyMsgs_def Let_def tables_ok_def smap.find_assign
      smap.find_insert_new split: option.splits)

lemma member_held_addWaitDestroyMsgs:
  "tables_ok c \<Longrightarrow> m_ptr m \<in># held (addWaitDestroyMsgs m c)"
  using waiting_held [OF waiting_addWaitDestroyMsgs, of c m] by (simp add: held_def)

section \<open>One iteration of the poll loop\<close>

lemma owned_poll_body:
  assumes "owned {#} c"
    and careful: "is_user_manual_commit_offset c \<Longrightarrow> careful user \<and> \<not> is_auto_commit_offset c"
  shows "owned {#} (poll_body lib user c)"
proof -
  obtain mo c1 where p: "consumer_poll lib c = (mo, c1)" by force
  from owned_consumer_poll [OF assms(1) p]
  have o1: "owned (case mo of Some m \<Rightarrow> {#m_ptr m#} | None \<Rightarrow> {#}) c1"
    by (cases mo) simp_all
  have um: "is_user_manual_commit_offset c1 = is_user_manual_commit_offset c"
    and am: "is_auto_commit_offset c1 = is_auto_commit_offset c"
    using consumer_poll_frame(3,4) [of lib c] p by simp_all
  let ?store = "\<lambda>m. if \<not> is_user_manual_commit_offset c1 then addWaitCommitOffset m c1
    else addWaitDestroyMsgs m c1"
  have deliver: "owned {#} (receivedConsumeMsg user m (?store m))" if m: "mo = Some m" for m
  proof (cases "is_user_manual_commit_offset c1")
    case False
    from m o1 have "owned {#} (addWaitCommitOffset m c1)" by (simp add: owned_addWaitCommitOffset)
    with False show ?thesis
      by (auto intro!: owned_receivedConsumeMsg simp: member_held_addWaitCommitOffset)
  next
    case True
    with m o1 careful um have "owned {#} (addWaitDestroyMsgs m c1)" "tables_ok c1" "careful user"
      by (simp_all add: owned_addWaitDestroyMsgs owned_def [of _ c1])
    with True show ?thesis
      by (simp add: owned_receivedConsumeMsg member_held_addWaitDestroyMsgs waiting_addWaitDestroyMsgs)
  qed
  have deliver': "owned {#} (emit (MessageDestroy (m_ptr m)) (receivedConsumeMsg user m c1))"
    if "mo = Some m" "is_auto_commit_offset c1" for m
    using o1 that careful um am by (auto intro!: owned_destroy owned_receivedConsumeMsg)
  have drop: "owned {#} (emit (MessageDestroy (m_ptr m)) c1)" if "mo = Some m" for m
    using o1 that by (auto intro!: owned_destroy)
  show ?thesis
  proof (cases mo)
    case None
    with o1 p show ?thesis by (simp add: poll_body_def owned_manualCommitWaitOffset)
  next
    case (Some m)
    with deliver deliver' drop p show ?thesis
      by (simp add: poll_body_def Let_def owned_manualCommitWaitOffset)
  qed
qed

text \<open>The tables a mode does not use stay empty.\<close>

definition mode_ok :: "consumer \<Rightarrow> bool" where
  "mode_ok c \<longleftrightarrow>
     (is_user_manual_commit_offset c \<longrightarrow> \<not> is_auto_commit_offset c) \<and>
     (is_auto_commit_offset c \<longrightarrow> wait_commit_msgs c = []) \<and>
     (\<not> is_user_manual_commit_offset c \<longrightarrow> wait_destroy_msgs_for_uncommit c = [])"

lemma manualCommitWaitOffset_empty: "wait_commit_msgs c = [] \<Longrightarrow>
    wait_commit_msgs (manualCommitWaitOffset lib f c) = []"
  by (simp add: manualCommitWaitOffset_def getCurrentTimeMs_eq Let_def)

lemma mode_ok_emit [simp]: "mode_ok (emit x c) = mode_ok c"
  by (simp add: mode_ok_def)

lemma mode_ok_rebalance: "mode_ok c \<Longrightarrow> mode_ok (rdkafka_rebalance_cb lib ev c)"
  by (auto simp: mode_ok_def rdkafka_rebalance_cb_def Let_def split: rebalance.split)

lemma mode_ok_consumer_poll: "mode_ok c \<Longrightarrow> mode_ok (snd (consumer_poll lib c))"
proof -
  assume "mode_ok c"
  then have "mode_ok (foldl (\<lambda>c ev. rdkafka_rebalance_cb lib ev c) (emit x c) evs)" for x evs
    by - (rule foldl_invariant [where I = mode_ok], simp_all add: mode_ok_rebalance)
  then show ?thesis by (simp add: consumer_poll_def Let_def mode_ok_def split: prod.split)
qed

lemma mode_ok_commitOffset: "mode_ok c \<Longrightarrow> mode_ok (commitOffset mo c)"
  by (cases "is_user_manual_commit_offset c") (auto simp: mode_ok_def)

lemma mode_ok_receivedConsumeMsg: "mode_ok c \<Longrightarrow> mode_ok (receivedConsumeMsg user m c)"
proof -
  assume c: "mode_ok c"
  then have "mode_ok (run_commits ms (emit x c))" for ms x
    unfolding run_commits_def
    by - (rule foldl_invariant [where I = mode_ok], simp_all add: mode_ok_commitOffset)
  with c show ?thesis by (simp add: receivedConsumeMsg_def Let_def)
qed

lemma mode_ok_poll_body:
  assumes "mode_ok c"
  shows "mode_ok (poll_body lib user c)"
proof -
  obtain mo c1 where p: "consumer_poll lib c = (mo, c1)" by force
  with mode_ok_consumer_poll [OF assms, of lib] have m1: "mode_ok c1" by simp
  have commit: "mode_ok (manualCommitWaitOffset lib f c2)" if "mode_ok c2" for f c2
    using that by (auto simp: mode_ok_def manualCommitWaitOffset_empty)
  have store: "mode_ok (if \<not> is_user_manual_commit_offset c1 then addWaitCommitOffset m c1
      else addWaitDestroyMsgs m c1)" if "\<not> is_auto_commit_offset c1" for m
    using m1 that by (auto simp: mode_ok_def)
  have emit: "mode_ok (emit x c2)" if "mode_ok c2" for x c2
    using that by (simp add: mode_ok_def)
  show ?thesis
    using m1 p
    by (cases mo)
       (simp_all add: poll_body_def Let_def commit store emit mode_ok_receivedConsumeMsg)
qed

lemma poll_body_user_manual [simp]:
  "is_user_manual_commit_offset (poll_body lib user c) = is_user_manual_commit_offset c"
  "is_auto_commit_offset (poll_body lib user c) = is_auto_commit_offset c"
  "start_flag (poll_body lib user c) = start_flag c"
  "rd_kafka_handle (poll_body lib user c) = rd_kafka_handle c"
proof -
  obtain mo c1 where p: "consumer_poll lib c = (mo, c1)" by force
  have "is_user_manual_commit_offset c1 = is_user_manual_commit_offset c"
    "is_auto_commit_offset c1 = is_auto_commit_offset c" "start_flag c1 = start_flag c"
    "rd_kafka_handle c1 = rd_kafka_handle c"
    using consumer_poll_frame [of lib c] p by simp_all
  with p show "is_user_manual_commit_offset (poll_body lib user c) = is_user_manual_commit_offset c"
    "is_auto_commit_offset (poll_body lib user c) = is_auto_commit_offset c"
    "start_flag (poll_body lib user c) = start_flag c"
    "rd_kafka_handle (poll_body lib user c) = rd_kafka_handle c"
    by (simp_all add: poll_body_def Let_def split: option.split)
qed

lemma poll_loop_inv:
  assumes "owned {#} c" and "mode_ok c" and "is_user_manual_commit_offset c \<Longrightarrow> careful user"
  shows "owned {#} (poll_loop n lib user c) \<and> mode_ok (poll_loop n lib user c) \<and>
     start_flag (poll_loop n lib user c) = start_flag c \<and>
     is_user_manual_commit_offset (poll_loop n lib user c) = is_user_manual_commit_offset c \<and>
     is_auto_commit_offset (poll_loop n lib user c) = is_auto_commit_offset c"
  using assms
proof (induction n arbitrary: c)
  case (Suc n)
  from Suc.prems(2,3) have "is_user_manual_commit_offset c \<Longrightarrow> careful user \<and> \<not> is_auto_commit_offset c"
    by (simp add: mode_ok_def)
  with Suc.prems(1,2) have "owned {#} (poll_body lib user c)" "mode_ok (poll_body lib user c)"
    by (auto intro: owned_poll_body mode_ok_poll_body)
  from Suc.IH [OF this] Suc.prems(3) show ?case by simp
qed simp

section \<open>Stop\<close>

text \<open>After the thread is joined every message has been freed, whatever the commit mode.\<close>

definition all_freed :: "consumer \<Rightarrow> bool" where
  "all_freed c \<longleftrightarrow> lifetime (calls c) = Some {#} \<and> wait_commit_msgs c = []"

lemma manualCommitWaitOffset_forced [simp]: "wait_commit_msgs (manualCommitWaitOffset lib True c) = []"
  by (simp add: manualCommitWaitOffset_def getCurrentTimeMs_eq Let_def)

lemma all_freed_neutral: "neutral x \<Longrightarrow> all_freed c \<Longrightarrow> all_freed (emit x c)"
  by (simp add: all_freed_def neutral_def)

lemma all_freed_manualCommitWaitOffset:
  "all_freed c \<Longrightarrow> all_freed (manualCommitWaitOffset lib f c)"
  by (simp add: all_freed_def manualCommitWaitOffset_def getCurrentTimeMs_eq Let_def)

lemma all_freed_rebalance: "all_freed c \<Longrightarrow> all_freed (rdkafka_rebalance_cb lib ev c)"
proof (cases ev)
  case (RevokePartitions ps)
  assume "all_freed c"
  then have "all_freed (if \<not> is_auto_commit_offset c then manualCommitWaitOffset lib True c else c)"
    by (simp add: all_freed_manualCommitWaitOffset)
  with RevokePartitions show ?thesis
    by (simp add: rdkafka_rebalance_cb_def Let_def all_freed_def)
qed (simp_all add: rdkafka_rebalance_cb_def Let_def all_freed_def)

lemma all_freed_close_consumer: "all_freed c \<Longrightarrow> all_freed (close_consumer lib c)"
  unfolding close_consumer_def Let_def
  by (auto split: prod.split
      intro!: foldl_invariant [where I = all_freed] all_freed_rebalance all_freed_neutral)

lemma all_freed_wait_destroyed_loop: "all_freed c \<Longrightarrow> all_freed (wait_destroyed_loop n lib c)"
  by (induction n arbitrary: c) (simp_all add: Let_def all_freed_neutral)

lemma owned_poll_thread_exit: "owned {#} c \<Longrightarrow> owned {#} (poll_thread_exit lib c)"
  by (simp add: poll_thread_exit_def owned_manualCommitWaitOffset)

lemma mode_ok_poll_thread_exit: "mode_ok c \<Longrightarrow> mode_ok (poll_thread_exit lib c)"
  by (auto simp: poll_thread_exit_def mode_ok_def manualCommitWaitOffset_empty)

lemma all_freed_stop_thread:
  assumes "owned {#} c" and "mode_ok c"
  shows "all_freed (stop_thread cb lib c)"
proof -
  let ?s = "c\<lparr>start_flag := False\<rparr>"
  let ?c0 = "?s\<lparr>topic_partition_set := tps_init None (topic_partition_set ?s)\<rparr>"
  define c1 where "c1 = (if cb then emit ThreadJoin (poll_thread_exit lib ?c0) else ?c0)"
  define c2 where
    "c2 = (if \<not> is_auto_commit_offset c1 then manualCommitWaitOffset lib True c1 else c1)"
  have "owned {#} ?c0" using assms(1) by (rule owned_same_tables) simp_all
  moreover have "mode_ok ?c0" using assms(2) by (simp add: mode_ok_def)
  ultimately have "owned {#} c1" "mode_ok c1"
    using owned_neutral [of ThreadJoin, OF _ owned_poll_thread_exit, of ?c0 lib]
      mode_ok_poll_thread_exit [of ?c0 lib]
    by (simp_all add: mode_ok_def c1_def)
  then have o2: "owned {#} c2" and w2: "wait_commit_msgs c2 = []"
    and d2: "\<not> is_user_manual_commit_offset c2 \<Longrightarrow> wait_destroy_msgs_for_uncommit c2 = []"
    by (auto simp: c2_def owned_manualCommitWaitOffset mode_ok_def)
  then have l2: "lifetime (calls c2) = Some (held_destroy c2 + {#})"
    by (simp add: owned_def held_def held_commit_def)
  have "all_freed (if is_user_manual_commit_offset c2 then clearWaitDestroyMsgs c2 else c2)"
  proof (cases "is_user_manual_commit_offset c2")
    case True
    with live_clearWaitDestroyMsgs [OF l2] w2 show ?thesis by (simp add: all_freed_def)
  next
    case False
    with d2 l2 w2 show ?thesis by (simp add: all_freed_def held_destroy_def)
  qed
  then show ?thesis unfolding stop_thread_def Let_def c1_def c2_def by (simp only: )
qed

lemma all_freed_stop:
  assumes "all_freed (if start_flag c then stop_thread cb lib c else c)"
  shows "all_freed (stop cb lib c)"
proof -
  define c1 where "c1 = (if start_flag c then stop_thread cb lib c else c)"
  define c2 where "c2 = (if rd_kafka_handle c1 then close_consumer lib c1 else c1)"
  from assms have "all_freed c2" by (simp add: c1_def c2_def all_freed_close_consumer)
  moreover have upd: "all_freed (c'\<lparr>rd_kafka_handle := b\<rparr>) = all_freed c'" for c' b
    by (simp add: all_freed_def)
  ultimately have "all_freed (if rd_kafka_handle c2
      then (if is_user_manual_commit_offset c2 \<and> is_force_destroy c2 then c2
            else emit HandleDestroy c2)\<lparr>rd_kafka_handle := False\<rparr> else c2)"
    by (simp add: all_freed_neutral)
  from all_freed_wait_destroyed_loop [OF this, of 5 lib] show ?thesis
    unfolding stop_def Let_def c2_def c1_def .
qed

end
