(* ===== verification/Kafka_Session.thy ===== *)
theory Kafka_Session
  imports Kafka_Consumer_Proofs
begin

text \<open>
  The consumer as a transition system. A session begins with \<open>init\<close>, \<open>subscribe\<close> and \<open>start\<close>;
  from then on the poll thread's iterations and the calls of the user (\<open>commitOffset\<close>,
  \<open>consume\<close>, \<open>pause\<close>, \<open>resume\<close>) interleave as the steps of \<open>consumer_step\<close>, in any order and
  number, until \<open>stop\<close>. Here a call of \<open>commitOffset\<close> is one step, as it is in the callback and when
  no other thread touches the tables meanwhile; Kafka_Locking interleaves its parts. The lemmas show
  that the set-up neither takes nor frees a message, and that \<open>in_session\<close> holds in every reachable state.
\<close>

section \<open>Set-up\<close>

text \<open>The calls that bring a message or commit one.\<close>

definition message_call :: "rk_call \<Rightarrow> bool" where
  "message_call x = (case x of PollReturned (Some _) \<Rightarrow> True | CommitMessage _ \<Rightarrow> True | _ \<Rightarrow> False)"

definition msg_state ::
  "consumer \<Rightarrow> nat multiset option \<times> (string \<times> rk_message) list \<times>
     (string \<times> rk_message list) list \<times> rk_call list" where
  "msg_state c = (lifetime (calls c), wait_commit_msgs c, wait_destroy_msgs_for_uncommit c,
     filter message_call (calls c))"

lemma neutral_no_message: "neutral x \<Longrightarrow> \<not> message_call x"
  by (auto simp: neutral_def message_call_def dest: spec [of _ "{#}"]
      split: rk_call.splits option.splits)

lemma msg_state_neutral:
  "neutral x \<Longrightarrow> msg_state (emit x c) = msg_state c"
  using neutral_no_message [of x]
  by (cases "lifetime (calls c)") (auto simp: msg_state_def neutral_def)

lemma neutral_setup [simp]:
  "neutral ConfNew" "neutral TopicConfNew" "neutral (ConfSet i v)" "neutral (TopicConfSet i v)"
  "neutral (ConfGet i)" "neutral (TopicConfGet i)" "neutral ConfSetOpaque"
  "neutral ConfSetRebalanceCb" "neutral (ConfSetLogCb b)" "neutral ConfSetDefaultTopicConf"
  "neutral NewHandle" "neutral (BrokersAdd bl)" "neutral PollSetConsumer"
  "neutral TopicListNew" "neutral (TopicListAdd t)" "neutral (Subscribe ts)"
  by (simp_all add: neutral_def)

lemma msg_state_update [simp]:
  "msg_state (c\<lparr>is_user_manual_commit_offset := b\<rparr>) = msg_state c"
  "msg_state (c\<lparr>manual_commit_time := i\<rparr>) = msg_state c"
  "msg_state (c\<lparr>rd_kafka_conf := b\<rparr>) = msg_state c"
  "msg_state (c\<lparr>rd_kafka_topic_conf := b\<rparr>) = msg_state c"
  "msg_state (c\<lparr>rd_kafka_handle := b\<rparr>) = msg_state c"
  "msg_state (c\<lparr>broker_list := s\<rparr>) = msg_state c"
  "msg_state (c\<lparr>efficacious_topics := ts\<rparr>) = msg_state c"
  "msg_state (c\<lparr>start_flag := b\<rparr>) = msg_state c"
  "msg_state (c\<lparr>is_auto_commit_offset := b\<rparr>) = msg_state c"
  "msg_state (c\<lparr>is_force_destroy := b\<rparr>) = msg_state c"
  "msg_state (c\<lparr>consumer_poll_time := i\<rparr>) = msg_state c"
  "msg_state (c\<lparr>config := cfg\<rparr>) = msg_state c"
  "msg_state (c\<lparr>kgroup := s\<rparr>) = msg_state c"
  "msg_state (c\<lparr>ktopics := ts\<rparr>) = msg_state c"
  "msg_state (c\<lparr>logger := lg\<rparr>) = msg_state c"
  by (simp_all add: msg_state_def)

named_theorems setup_simps "set-up operations take and free no message"

lemma msg_state_setRdKafkaConfig [setup_simps]:
  "msg_state (snd (setRdKafkaConfig lib conf i v c)) = msg_state c"
  "msg_state (snd (setRdKafkaTopicConfig lib conf i v c)) = msg_state c"
  by (simp_all add: setRdKafkaConfig_def setRdKafkaTopicConfig_def msg_state_neutral)

lemma msg_state_loadRdkafkaConfig [setup_simps]:
  "msg_state (loadRdkafkaConfig lib cfg conf tconf c) = msg_state c"
  unfolding loadRdkafkaConfig_def
  by (simp add: foldl_frame setup_simps split: prod.split)

lemma msg_state_setClientId [setup_simps]: "msg_state (setClientId lib conf b c) = msg_state c"
  by (simp add: setClientId_def setup_simps)

lemma msg_state_init_offset_policy [setup_simps]:
  "msg_state (snd (init_offset_policy lib c)) = msg_state c"
proof -
  have s: "setRdKafkaTopicConfig lib b i v c' = (r, c'') \<Longrightarrow> msg_state c'' = msg_state c'"
    for b i v c' r c'' using msg_state_setRdKafkaConfig(2) [of lib b i v c'] by simp
  show ?thesis
    by (auto simp: init_offset_policy_def Let_def msg_state_neutral split: prod.split dest!: s)
qed

lemma msg_state_init_commit_mode [setup_simps]:
  "msg_state (init_commit_mode lib c) = msg_state c"
  by (simp add: init_commit_mode_def Let_def setup_simps msg_state_neutral split: option.split)

lemma msg_state_init_api_version [setup_simps]:
  "msg_state (init_api_version lib c) = msg_state c"
  by (simp add: init_api_version_def Let_def setup_simps)

lemma msg_state_init_topic_conf [setup_simps]:
  "msg_state (snd (init_topic_conf lib c)) = msg_state c"
proof -
  have s: "init_offset_policy lib c' = (r, c'') \<Longrightarrow> msg_state c'' = msg_state c'" for c' r c''
    using msg_state_init_offset_policy [of lib c'] by simp
  show ?thesis
    by (auto simp: init_topic_conf_def Let_def setup_simps msg_state_neutral
        split: prod.split dest!: s)
qed

lemma msg_state_initRdKafkaConfig [setup_simps]:
  "msg_state (snd (initRdKafkaConfig lib c)) = msg_state c"
proof -
  have s: "init_topic_conf lib c' = (r, c'') \<Longrightarrow> msg_state c'' = msg_state c'" for c' r c''
    using msg_state_init_topic_conf [of lib c'] by simp
  show ?thesis
    by (auto simp: initRdKafkaConfig_def Let_def setup_simps msg_state_neutral
        split: prod.split dest!: s)
qed

lemma msg_state_consumer_init [setup_simps]:
  "msg_state (snd (consumer_init pt lib lp cp c)) = msg_state c"
  by (simp add: consumer_init_def Let_def initRdKafka_def setup_simps split: prod.split)

lemma msg_state_initRdKafkaHandle [setup_simps]:
  "msg_state (snd (initRdKafkaHandle lib c)) = msg_state c"
  by (simp add: initRdKafkaHandle_def Let_def msg_state_neutral)

lemma msg_state_add_topics [setup_simps]:
  "msg_state (snd (add_topics lib ts added c)) = msg_state c"
  by (induction lib ts added c rule: add_topics.induct) (simp_all add: Let_def msg_state_neutral)

lemma msg_state_subscribe_topics [setup_simps]:
  "msg_state (snd (subscribe_topics lib ts c)) = msg_state c"
proof -
  have s: "add_topics lib ts a c' = (r, c'') \<Longrightarrow> msg_state c'' = msg_state c'" for a c' r c''
    using msg_state_add_topics [of lib ts a c'] by simp
  show ?thesis
    by (auto simp: subscribe_topics_def Let_def msg_state_neutral split: prod.split dest!: s)
qed

text \<open>The modes and the start flag.\<close>

definition flags :: "consumer \<Rightarrow> bool \<times> bool \<times> bool" where
  "flags c = (is_user_manual_commit_offset c, is_auto_commit_offset c, start_flag c)"

lemma flags_emit [simp]: "flags (emit x c) = flags c"
  by (simp add: flags_def emit_def)

lemma flags_update [simp]:
  "flags (c\<lparr>manual_commit_time := i\<rparr>) = flags c" "flags (c\<lparr>rd_kafka_conf := b\<rparr>) = flags c"
  "flags (c\<lparr>rd_kafka_topic_conf := b\<rparr>) = flags c" "flags (c\<lparr>rd_kafka_handle := b\<rparr>) = flags c"
  "flags (c\<lparr>broker_list := s\<rparr>) = flags c" "flags (c\<lparr>efficacious_topics := ts\<rparr>) = flags c"
  "flags (c\<lparr>is_force_destroy := b\<rparr>) = flags c" "flags (c\<lparr>consumer_poll_time := i\<rparr>) = flags c"
  "flags (c\<lparr>config := cfg\<rparr>) = flags c" "flags (c\<lparr>kgroup := s\<rparr>) = flags c"
  "flags (c\<lparr>ktopics := ts\<rparr>) = flags c" "flags (c\<lparr>logger := lg\<rparr>) = flags c"
  by (simp_all add: flags_def)

lemma flags_setRdKafkaConfig [simp]:
  "flags (snd (setRdKafkaConfig lib conf i v c)) = flags c"
  "flags (snd (setRdKafkaTopicConfig lib conf i v c)) = flags c"
  by (simp_all add: setRdKafkaConfig_def setRdKafkaTopicConfig_def)

lemma flags_loadRdkafkaConfig [simp]: "flags (loadRdkafkaConfig lib cfg conf tconf c) = flags c"
  unfolding loadRdkafkaConfig_def by (simp add: foldl_frame split: prod.split)

lemma flags_setClientId [simp]: "flags (setClientId lib conf b c) = flags c"
  by (simp add: setClientId_def)

lemma flags_init_api_version [simp]: "flags (init_api_version lib c) = flags c"
  by (simp add: init_api_version_def Let_def)

lemma flags_initRdKafkaHandle [simp]: "flags (snd (initRdKafkaHandle lib c)) = flags c"
  by (simp add: initRdKafkaHandle_def Let_def)

lemma flags_add_topics [simp]: "flags (snd (add_topics lib ts added c)) = flags c"
  by (induction lib ts added c rule: add_topics.induct) (simp_all add: Let_def)

lemma flags_subscribe_topics [simp]: "flags (snd (subscribe_topics lib ts c)) = flags c"
proof -
  have s: "add_topics lib ts a c' = (r, c'') \<Longrightarrow> flags c'' = flags c'" for a c' r c''
    using flags_add_topics [of lib ts a c'] by simp
  show ?thesis by (auto simp: subscribe_topics_def Let_def split: prod.split dest!: s)
qed

lemma subscribe_keeps [simp]:
  "flags (snd (subscribe lib grp ts c)) = flags c"
  "msg_state (snd (subscribe lib grp ts c)) = msg_state c"
proof -
  have fl: "setRdKafkaConfig lib conf i v c' = (r, c'') \<Longrightarrow> flags c'' = flags c' \<and> msg_state c'' = msg_state c'"
    "initRdKafkaHandle lib c' = (r, c'') \<Longrightarrow> flags c'' = flags c' \<and> msg_state c'' = msg_state c'"
    for conf i v c' r c''
    using flags_setRdKafkaConfig(1) [of lib conf i v c'] setup_simps(1) [of lib conf i v c']
      flags_initRdKafkaHandle [of lib c'] msg_state_initRdKafkaHandle [of lib c'] by simp_all
  show "flags (snd (subscribe lib grp ts c)) = flags c"
    "msg_state (snd (subscribe lib grp ts c)) = msg_state c"
    by (auto simp: subscribe_def Let_def setup_simps split: prod.split if_split dest!: fl)
qed

text \<open>In the user-commit mode librdkafka's own commits are off, whatever the configuration says.\<close>

definition modes_exclusive :: "consumer \<Rightarrow> bool" where
  "modes_exclusive c \<longleftrightarrow> (is_user_manual_commit_offset c \<longrightarrow> \<not> is_auto_commit_offset c)"

lemma modes_exclusive_flags: "flags c' = flags c \<Longrightarrow> modes_exclusive c' = modes_exclusive c"
  by (simp add: flags_def modes_exclusive_def)

lemma init_commit_mode_flags:
  "modes_exclusive (init_commit_mode lib c)" "start_flag (init_commit_mode lib c) = start_flag c"
  by (simp_all add: init_commit_mode_def Let_def modes_exclusive_def setRdKafkaConfig_def
      split: option.split)

lemma init_topic_conf_flags:
  "modes_exclusive (snd (init_topic_conf lib c))"
  "start_flag (snd (init_topic_conf lib c)) = start_flag c"
proof -
  have f: "flags (snd (init_offset_policy lib c)) = flags c" for c
    by (auto simp: init_offset_policy_def Let_def setRdKafkaTopicConfig_def)
  have p: "init_offset_policy lib c' = (r, c'') \<Longrightarrow> start_flag c'' = start_flag c'" for c' r c''
    using f [of c'] by (simp add: flags_def)
  have fs: "start_flag (setClientId lib b d c') = start_flag c'"
    "start_flag (loadRdkafkaConfig lib cfg b d c') = start_flag c'"
    for b d cfg and c' :: consumer
    using flags_setClientId [of lib b d c'] flags_loadRdkafkaConfig [of lib cfg b d c']
    by (simp_all add: flags_def)
  show "modes_exclusive (snd (init_topic_conf lib c))"
    by (simp add: init_topic_conf_def Let_def init_commit_mode_flags split: prod.split)
  show "start_flag (snd (init_topic_conf lib c)) = start_flag c"
    by (auto simp: init_topic_conf_def Let_def init_commit_mode_flags fs
        split: prod.split dest!: p)
qed

lemma initRdKafkaConfig_flags:
  assumes "modes_exclusive c"
  shows "modes_exclusive (snd (initRdKafkaConfig lib c))"
    and "start_flag (snd (initRdKafkaConfig lib c)) = start_flag c"
proof -
  have p: "init_topic_conf lib c' = (r, c'') \<Longrightarrow>
      modes_exclusive c'' \<and> start_flag c'' = start_flag c'" for c' r c''
    using init_topic_conf_flags [of lib c'] by simp
  have fs: "start_flag (init_api_version lib c') = start_flag c'"
    "modes_exclusive (init_api_version lib c') = modes_exclusive c'"
    "start_flag (snd (setRdKafkaConfig lib b i v c')) = start_flag c'"
    "modes_exclusive (snd (setRdKafkaConfig lib b i v c')) = modes_exclusive c'"
    for b i v and c' :: consumer
    using flags_init_api_version [of lib c'] flags_setRdKafkaConfig(1) [of lib b i v c']
    by (simp_all add: flags_def modes_exclusive_def)
  have u: "modes_exclusive (c'\<lparr>rd_kafka_conf := b\<rparr>) = modes_exclusive c'"
    "modes_exclusive (c'\<lparr>rd_kafka_topic_conf := b\<rparr>) = modes_exclusive c'"
    "modes_exclusive (emit x c') = modes_exclusive c'" for c' b x
    by (simp_all add: modes_exclusive_def)
  show "modes_exclusive (snd (initRdKafkaConfig lib c))"
    using assms
    by (auto simp: initRdKafkaConfig_def Let_def fs u split: prod.split dest!: p)
  show "start_flag (snd (initRdKafkaConfig lib c)) = start_flag c"
    by (auto simp: initRdKafkaConfig_def Let_def fs split: prod.split dest!: p)
qed

lemma consumer_init_flags:
  assumes "modes_exclusive c"
  shows "modes_exclusive (snd (consumer_init pt lib lp cp c))"
    and "start_flag (snd (consumer_init pt lib lp cp c)) = start_flag c"
proof -
  have u: "modes_exclusive (c\<lparr>config := cfg, logger := lg\<rparr>) = modes_exclusive c"
    "modes_exclusive (c\<lparr>config := cfg, logger := lg, broker_list := b\<rparr>) = modes_exclusive c"
    for cfg lg b by (simp_all add: modes_exclusive_def)
  show "modes_exclusive (snd (consumer_init pt lib lp cp c))"
    using assms
    by (simp add: consumer_init_def Let_def initRdKafka_def initRdKafkaConfig_flags u
        split: prod.split)
  show "start_flag (snd (consumer_init pt lib lp cp c)) = start_flag c"
    using assms
    by (simp add: consumer_init_def Let_def initRdKafka_def initRdKafkaConfig_flags u
        split: prod.split)
qed

section \<open>Steps\<close>

text \<open>
  One step of a running consumer: an iteration of the poll thread (with the callback build), a
  call of \<open>consume\<close> (without), or a call of the user. \<open>ordered\<close> is what a user owes: each message
  passed to \<open>commitOffset\<close> is still waiting for it.
\<close>

inductive consumer_step :: "bool \<Rightarrow> rk_lib \<Rightarrow> consumer \<Rightarrow> consumer \<Rightarrow> bool" for cb lib where
  poll_step: "cb \<Longrightarrow> start_flag c \<Longrightarrow> (is_user_manual_commit_offset c \<longrightarrow> careful user) \<Longrightarrow>
    consumer_step cb lib c (poll_body lib user c)"
| consume_step: "\<not> cb \<Longrightarrow> start_flag c \<Longrightarrow> consume lib c = (rt, info, c') \<Longrightarrow>
    consumer_step cb lib c c'"
| commit_step: "waiting m c \<Longrightarrow> start_flag c \<Longrightarrow> consumer_step cb lib c (commitOffset (Some m) c)"
| pause_step: "consumer_step cb lib c (snd (pause lib topics c))"
| resume_step: "consumer_step cb lib c (snd (resume lib topics c))"

inductive_cases consumer_stepE: "consumer_step cb lib c c'"

inductive session :: "bool \<Rightarrow> rk_lib \<Rightarrow> consumer \<Rightarrow> consumer \<Rightarrow> bool" for cb lib where
  begin_session: "session cb lib c c"
| continue_session: "session cb lib c c1 \<Longrightarrow> consumer_step cb lib c1 c2 \<Longrightarrow> session cb lib c c2"

definition in_session :: "consumer \<Rightarrow> bool" where
  "in_session c \<longleftrightarrow> owned {#} c \<and> mode_ok c \<and> (\<not> start_flag c \<longrightarrow> held c = {#})"

lemma owned_store:
  assumes "owned {#m_ptr m#} c"
  shows "owned {#} (if \<not> is_user_manual_commit_offset c then addWaitCommitOffset m c
     else addWaitDestroyMsgs m c)"
  using assms by (simp add: owned_addWaitCommitOffset owned_addWaitDestroyMsgs)

lemma mode_ok_store:
  assumes "mode_ok c" and "\<not> is_auto_commit_offset c"
  shows "mode_ok (if \<not> is_user_manual_commit_offset c then addWaitCommitOffset m c
     else addWaitDestroyMsgs m c)"
  using assms by (auto simp: mode_ok_def)

lemma flush_keeps:
  "owned {#} c \<Longrightarrow> owned {#} (if \<not> is_auto_commit_offset c then manualCommitWaitOffset lib f c else c)"
  "mode_ok c \<Longrightarrow> mode_ok (if \<not> is_auto_commit_offset c then manualCommitWaitOffset lib f c else c)"
  by (auto simp: owned_manualCommitWaitOffset mode_ok_def manualCommitWaitOffset_empty)

lemma consume_flags:
  assumes "consume lib c = (rt, info, c')"
  shows "start_flag c' = start_flag c"
proof -
  have p: "consumer_poll lib c = (mo, c1) \<Longrightarrow> start_flag c1 = start_flag c" for mo c1
    using consumer_poll_frame(1) [of lib c] by simp
  show ?thesis
    using assms
    by (auto simp: consume_def Let_def split: prod.splits option.splits if_splits dest!: p)
qed

lemma consume_keeps:
  assumes "owned {#} c" and "mode_ok c" and "start_flag c" and "consume lib c = (rt, info, c')"
  shows "owned {#} c'" and "mode_ok c'"
proof -
  obtain mo c1 where p: "consumer_poll lib c = (mo, c1)" by force
  have o1: "owned (case mo of Some m \<Rightarrow> {#m_ptr m#} | None \<Rightarrow> {#}) c1"
    using owned_consumer_poll [OF assms(1) p] by (cases mo) simp_all
  have m1: "mode_ok c1" using mode_ok_consumer_poll [OF assms(2), of lib] p by simp
  have "owned {#} c' \<and> mode_ok c'"
  proof (cases mo)
    case None
    with p assms(3,4)
    have "c' = (if \<not> is_auto_commit_offset c1 then manualCommitWaitOffset lib False c1 else c1)"
      by (simp add: consume_def Let_def)
    with o1 m1 None show ?thesis by (simp only: flush_keeps option.case simp_thms)
  next
    case (Some m)
    let ?r = "emit (MessageRead (m_ptr m)) c1" and ?d = "emit (MessageDestroy (m_ptr m))"
    have r: "owned {#m_ptr m#} ?r" "mode_ok ?r" using o1 m1 Some by (simp_all add: owned_def)
    define c2 where "c2 = (if checkMsg m \<and> m_payload m \<noteq> None
      then if \<not> is_auto_commit_offset ?r
           then if \<not> is_user_manual_commit_offset ?r then addWaitCommitOffset m ?r
                else addWaitDestroyMsgs m ?r
           else ?d ?r
      else ?d c1)"
    have "owned {#} (?d ?r)" "owned {#} (?d c1)"
      using r(1) o1 Some by (auto intro!: owned_destroy)
    then have "owned {#} c2" "mode_ok c2"
      unfolding c2_def using owned_store [OF r(1)] mode_ok_store [OF r(2)] r(2) m1 by auto
    moreover have "c' = (if \<not> is_auto_commit_offset c2 then manualCommitWaitOffset lib False c2 else c2)"
      using p Some assms(3,4) by (auto simp: consume_def Let_def c2_def)
    ultimately show ?thesis by (simp only: flush_keeps simp_thms)
  qed
  then show "owned {#} c'" "mode_ok c'" by simp_all
qed

lemma pause_keeps:
  assumes "in_session c"
  shows "in_session (snd (pause lib ts c))" and "in_session (snd (resume lib ts c))"
  using assms by (simp_all add: in_session_def pause_def resume_def Let_def owned_neutral)

lemma in_session_step: "consumer_step cb lib c c' \<Longrightarrow> in_session c \<Longrightarrow> in_session c'"
proof (induction rule: consumer_step.induct)
  case (poll_step c user)
  then have "is_user_manual_commit_offset c \<Longrightarrow> careful user \<and> \<not> is_auto_commit_offset c"
    by (simp add: in_session_def mode_ok_def)
  with poll_step show ?case by (simp add: in_session_def owned_poll_body mode_ok_poll_body)
next
  case (consume_step c rt info c')
  then show ?case by (auto simp: in_session_def consume_flags dest: consume_keeps)
next
  case (commit_step m c)
  then show ?case by (simp add: in_session_def owned_commitOffset mode_ok_commitOffset)
qed (simp_all add: pause_keeps)

lemma in_session_reachable: "session cb lib c c' \<Longrightarrow> in_session c \<Longrightarrow> in_session c'"
  by (induction rule: session.induct) (auto intro: in_session_step)

lemma in_session_empty:
  assumes "msg_state c = (Some {#}, [], [], [])" and "modes_exclusive c"
  shows "in_session c"
  using assms
  by (simp add: msg_state_def modes_exclusive_def in_session_def owned_def mode_ok_def tables_ok_def
      held_def held_commit_def held_destroy_def)

text \<open>What \<open>init\<close> leaves on a new object.\<close>

lemma consumer_new_state:
  "msg_state (consumer_new cl lg) = (Some {#}, [], [], [])" "modes_exclusive (consumer_new cl lg)"
  by (simp_all add: consumer_new_def msg_state_def modes_exclusive_def)

lemma start_keeps:
  "msg_state (snd (start cb lib c)) = msg_state c"
  "modes_exclusive (snd (start cb lib c)) = modes_exclusive c"
  by (simp_all add: start_def Let_def msg_state_neutral modes_exclusive_def)

lemma msg_state_start:
  assumes "consumer_init pt lib lp cp (consumer_new cl lg) = (ok1, c1)"
    and "subscribe lib grp ts c1 = (ok2, c2)" and "start cb lib c2 = (ok3, c3)"
  shows "msg_state c3 = (Some {#}, [], [], [])"
  using msg_state_consumer_init [of pt lib lp cp "consumer_new cl lg"]
    subscribe_keeps(2) [of lib grp ts c1] start_keeps(1) [of cb lib c2] assms
  by (simp add: consumer_new_state)

lemma in_session_start:
  assumes "consumer_init pt lib lp cp (consumer_new cl lg) = (ok1, c1)"
    and "subscribe lib grp ts c1 = (ok2, c2)" and "start cb lib c2 = (ok3, c3)"
  shows "in_session c3"
proof (rule in_session_empty [OF msg_state_start [OF assms]])
  show "modes_exclusive c3"
    using consumer_init_flags(1) [OF consumer_new_state(2), of pt lib lp cp cl lg]
      modes_exclusive_flags [OF subscribe_keeps(1) [of lib grp ts c1]]
      start_keeps(2) [of cb lib c2] assms by simp
qed

section \<open>Stop\<close>

lemma all_freed_idle:
  assumes "owned {#} c" and "held c = {#}"
  shows "all_freed c"
proof -
  have "wait_commit_msgs c = []"
    using assms(2) by (cases "wait_commit_msgs c") (auto simp: held_def held_commit_def)
  with assms show ?thesis by (simp add: all_freed_def owned_def)
qed

lemma all_freed_stop_in_session:
  assumes "in_session c"
  shows "all_freed (stop cb lib c)"
proof (cases "start_flag c")
  case True
  with assms show ?thesis by (simp add: in_session_def all_freed_stop all_freed_stop_thread)
next
  case False
  with assms have "all_freed c" by (simp add: in_session_def all_freed_idle)
  with False show ?thesis by (simp add: all_freed_stop)
qed

section \<open>A set-up that succeeds\<close>

text \<open>The NULL tests on librdkafka's objects and the subscribed topics, through \<open>init\<close>.\<close>

definition handles :: "consumer \<Rightarrow> bool \<times> bool \<times> bool \<times> string list" where
  "handles c = (rd_kafka_conf c, rd_kafka_topic_conf c, rd_kafka_handle c, efficacious_topics c)"

lemma handles_emit [simp]: "handles (emit x c) = handles c"
  by (simp add: handles_def emit_def)

lemma handles_update [simp]:
  "handles (c\<lparr>manual_commit_time := i\<rparr>) = handles c" "handles (c\<lparr>is_force_destroy := b\<rparr>) = handles c"
  "handles (c\<lparr>is_user_manual_commit_offset := b\<rparr>) = handles c"
  "handles (c\<lparr>is_auto_commit_offset := b\<rparr>) = handles c"
  "handles (c\<lparr>broker_list := s\<rparr>) = handles c" "handles (c\<lparr>consumer_poll_time := i\<rparr>) = handles c"
  "handles (c\<lparr>config := cfg\<rparr>) = handles c" "handles (c\<lparr>kgroup := s\<rparr>) = handles c"
  "handles (c\<lparr>ktopics := ts\<rparr>) = handles c" "handles (c\<lparr>logger := lg\<rparr>) = handles c"
  by (simp_all add: handles_def)

lemma handles_setRdKafkaConfig [simp]:
  "handles (snd (setRdKafkaConfig lib conf i v c)) = handles c"
  "handles (snd (setRdKafkaTopicConfig lib conf i v c)) = handles c"
  by (simp_all add: setRdKafkaConfig_def setRdKafkaTopicConfig_def)

lemma handles_loadRdkafkaConfig [simp]: "handles (loadRdkafkaConfig lib cfg conf tconf c) = handles c"
  unfolding loadRdkafkaConfig_def by (simp add: foldl_frame split: prod.split)

lemma handles_init_steps [simp]:
  "handles (setClientId lib conf b c) = handles c"
  "handles (init_api_version lib c) = handles c"
  "handles (init_commit_mode lib c) = handles c"
  "handles (snd (init_offset_policy lib c)) = handles c"
proof -
  have s: "setRdKafkaTopicConfig lib b i v c' = (r, c'') \<Longrightarrow> handles c'' = handles c'"
    for b i v r and c' c'' :: consumer
    using handles_setRdKafkaConfig(2) [of lib b i v c'] by simp
  show "handles (setClientId lib conf b c) = handles c"
    "handles (init_api_version lib c) = handles c"
    "handles (init_commit_mode lib c) = handles c"
    by (simp_all add: setClientId_def init_api_version_def init_commit_mode_def Let_def
        split: option.split)
  show "handles (snd (init_offset_policy lib c)) = handles c"
    by (auto simp: init_offset_policy_def Let_def split: prod.split dest!: s)
qed

text \<open>A library that accepts every call of the set-up.\<close>

definition accepting :: "rk_lib \<Rightarrow> bool" where
  "accepting lib \<longleftrightarrow> (\<forall>log. rk_conf_new lib log \<and> rk_topic_conf_new lib log \<and> rk_new lib log \<and>
     rk_list_new lib log \<and> rk_thread_create lib log = 0) \<and>
     (\<forall>log i v. rk_conf_set lib log i v \<and> rk_topic_conf_set lib log i v) \<and>
     (\<forall>log bl. rk_brokers_add lib log bl \<noteq> 0) \<and> (\<forall>log t. rk_list_add_ok lib log t) \<and>
     (\<forall>log ts. rk_subscribe lib log ts = 0)"

lemma accepting_set [simp]:
  "accepting lib \<Longrightarrow> item \<noteq> '''' \<Longrightarrow> fst (setRdKafkaConfig lib True item v c)"
  "accepting lib \<Longrightarrow> item \<noteq> '''' \<Longrightarrow> fst (setRdKafkaTopicConfig lib True item v c)"
  by (simp_all add: accepting_def setRdKafkaConfig_def setRdKafkaTopicConfig_def)

lemma init_offset_policy_ok:
  "accepting lib \<Longrightarrow> rd_kafka_topic_conf c \<Longrightarrow> fst (init_offset_policy lib c)"
  by (auto simp: init_offset_policy_def Let_def setRdKafkaTopicConfig_def accepting_def
      conf_item_defs emit_def)

lemma init_topic_conf_handles [simp]: "handles (snd (init_topic_conf lib c)) = handles c"
proof -
  have o: "init_offset_policy lib c' = (r, c'') \<Longrightarrow> handles c'' = handles c'" for c' r c''
    using handles_init_steps(4) [of lib c'] by simp
  show ?thesis by (auto simp: init_topic_conf_def Let_def split: prod.split dest!: o)
qed

lemma init_topic_conf_ok:
  assumes "accepting lib" and "rd_kafka_topic_conf c"
  shows "fst (init_topic_conf lib c)"
proof -
  have t: "handles c' = handles c \<Longrightarrow> rd_kafka_topic_conf c'" for c'
    using assms(2) by (simp add: handles_def)
  have o: "init_offset_policy lib c' = (r, c'') \<Longrightarrow> handles c' = handles c \<Longrightarrow> r" for c' r c''
    using init_offset_policy_ok [OF assms(1) t, of c'] by simp
  show ?thesis
    by (auto simp: init_topic_conf_def Let_def split: prod.split dest!: o)
qed

lemma initRdKafkaConfig_ok:
  assumes "accepting lib"
  shows "fst (initRdKafkaConfig lib c)"
    and "handles (snd (initRdKafkaConfig lib c)) = (True, True, rd_kafka_handle c, efficacious_topics c)"
proof -
  have n: "rk_conf_new lib log" "rk_topic_conf_new lib log" for log
    using assms by (simp_all add: accepting_def)
  have o: "init_topic_conf lib c' = (r, c'') \<Longrightarrow> rd_kafka_topic_conf c' \<Longrightarrow>
      r \<and> handles c'' = handles c'" for c' r c''
    using init_topic_conf_ok [OF assms, of c'] init_topic_conf_handles [of lib c'] by simp
  have h: "handles c' = handles c'' \<Longrightarrow> rd_kafka_handle c' = rd_kafka_handle c'' \<and>
      efficacious_topics c' = efficacious_topics c'' \<and> rd_kafka_conf c' = rd_kafka_conf c''" for c' c''
    by (simp add: handles_def)
  note s = handles_setRdKafkaConfig(1) [of lib True RD_KAFKA_CONFIG_INTERNAL_TERMINATION_SIGNAL
      "take 15 (show_int SIGIO)" "emit ConfNew c\<lparr>rd_kafka_conf := True\<rparr>", THEN h]
  show "fst (initRdKafkaConfig lib c)"
    by (auto simp: initRdKafkaConfig_def Let_def n split: prod.split dest!: o)
  show "handles (snd (initRdKafkaConfig lib c)) =
      (True, True, rd_kafka_handle c, efficacious_topics c)"
    using s
    by (auto simp: initRdKafkaConfig_def Let_def n emit_def split: prod.split dest!: o)
       (simp_all add: handles_def)
qed

lemma efficacious_handles: "handles c' = handles c \<Longrightarrow> efficacious_topics c' = efficacious_topics c"
  by (simp add: handles_def)

lemma efficacious_initRdKafkaConfig:
  "efficacious_topics (snd (initRdKafkaConfig lib c)) = efficacious_topics c"
proof -
  note e = efficacious_handles [OF handles_init_steps(2)] efficacious_handles [OF handles_emit]
    efficacious_handles [OF init_topic_conf_handles] efficacious_handles [OF handles_setRdKafkaConfig(1)]
  show ?thesis by (simp add: initRdKafkaConfig_def Let_def case_prod_unfold e)
qed

lemma efficacious_consumer_init:
  "efficacious_topics (snd (consumer_init pt lib lp cp c)) = efficacious_topics c"
  by (simp add: consumer_init_def Let_def case_prod_unfold initRdKafka_def
      efficacious_initRdKafkaConfig)

lemma add_topics_ok:
  "accepting lib \<Longrightarrow> fst (add_topics lib ts added c) = added @ ts"
  by (induction lib ts added c rule: add_topics.induct) (auto simp: Let_def accepting_def)

lemma consumer_init_ok:
  assumes "accepting lib" and "pt_read_ini pt cp = Inr root"
    and "cluster_name c \<noteq> '''' \<or>
      fst (getQbusBrokerList (snd (snd (loadConfig pt cp '''' (config c)))))"
  shows "fst (consumer_init pt lib lp cp c) \<and> handles (snd (consumer_init pt lib lp cp c)) =
     (True, True, rd_kafka_handle c, efficacious_topics c)"
proof -
  obtain e cfg where l: "loadConfig pt cp '''' (config c) = (True, e, cfg)"
    using assms(2) by (simp add: loadConfig_def)
  with assms(1,3) show ?thesis
    by (auto simp: consumer_init_def Let_def initRdKafka_def initRdKafkaConfig_ok split: prod.split)
qed

lemma initRdKafkaHandle_ok:
  assumes "accepting lib"
  shows "fst (initRdKafkaHandle lib c)"
    and "efficacious_topics (snd (initRdKafkaHandle lib c)) = efficacious_topics c"
  using assms by (simp_all add: initRdKafkaHandle_def Let_def accepting_def emit_def)

lemma efficacious_add_topics:
  "efficacious_topics (snd (add_topics lib ts added c)) = efficacious_topics c"
  by (induction lib ts added c rule: add_topics.induct) (auto simp: Let_def emit_def)

lemma subscribe_topics_ok:
  assumes "accepting lib" and "ts \<noteq> []"
  shows "fst (subscribe_topics lib ts c)"
    and "efficacious_topics (snd (subscribe_topics lib ts c)) =
      foldl (\<lambda>s t. insort_insert t s) (efficacious_topics c) ts"
proof -
  obtain added c1 where a: "add_topics lib ts [] (emit TopicListNew c) = (added, c1)" by force
  with add_topics_ok [OF assms(1), of ts "[]" "emit TopicListNew c"]
    efficacious_add_topics [of lib ts "[]" "emit TopicListNew c"]
  have "added = ts" "efficacious_topics c1 = efficacious_topics c" by (simp_all add: emit_def)
  with a assms show "fst (subscribe_topics lib ts c)"
    "efficacious_topics (snd (subscribe_topics lib ts c)) =
      foldl (\<lambda>s t. insort_insert t s) (efficacious_topics c) ts"
    by (simp_all add: subscribe_topics_def Let_def accepting_def emit_def)
qed

lemma subscribe_ok:
  assumes "accepting lib" and "rd_kafka_conf c" and "grp \<noteq> ''''" and "ts \<noteq> []"
  shows "fst (subscribe lib grp ts c) \<and> efficacious_topics (snd (subscribe lib grp ts c)) =
     foldl (\<lambda>s t. insort_insert t s) (efficacious_topics c) ts"
proof -
  let ?c = "c\<lparr>kgroup := grp, ktopics := ts\<rparr>"
  obtain c1 where c1: "setRdKafkaConfig lib True RD_KAFKA_CONFIG_GROUP_ID grp ?c = (True, c1)"
    "efficacious_topics c1 = efficacious_topics c"
    using assms(1) by (simp add: setRdKafkaConfig_def accepting_def conf_item_defs emit_def)
  obtain c2 where c2: "initRdKafkaHandle lib c1 = (True, c2)"
    "efficacious_topics c2 = efficacious_topics c"
    using initRdKafkaHandle_ok [OF assms(1), of c1] c1(2) by (cases "initRdKafkaHandle lib c1") auto
  show ?thesis
    using subscribe_topics_ok [OF assms(1,4), of c2] assms(2-4) c1(1) c2
    by (simp add: subscribe_def Let_def)
qed

lemma set_fold_insort: "set (foldl (\<lambda>s t. insort_insert t s) s ts) = set s \<union> set ts"
  by (induction ts arbitrary: s) (auto simp: set_insort_insert)

end
