(* ===== verification/Kafka_Offset_Spec.thy ===== *)
theory Kafka_Offset_Spec
  imports Kafka_Session
begin

text \<open>
  What the offset tables of the Kafka consumer promise, without strings, keys and memory: for each
  topic and partition the message whose commit is pending, the messages that wait for the user, and
  the offset of the last commit that was requested. \<open>offset_view\<close> is the abstraction function; each
  operation of Kafka_Offsets commutes with its abstract counterpart as long as no topic name ends in
  a digit (\<open>proper\<close>), because then the string key determines topic and partition.
\<close>

section \<open>Topic and partition\<close>

type_synonym topic_partition = "string \<times> int"

definition tp_of :: "rk_message \<Rightarrow> topic_partition" where
  "tp_of m = (topic_of m, m_partition m)"

definition wait_key :: "topic_partition \<Rightarrow> string" where
  "wait_key a = fst a @ show_int (snd a)"

definition proper :: "topic_partition \<Rightarrow> bool" where
  "proper a \<longleftrightarrow> (fst a \<noteq> '''' \<longrightarrow> \<not> c_isdigit (last (fst a))) \<and> 0 \<le> snd a"

lemma getWaitOffsetKey_eq: "getWaitOffsetKey m = wait_key (tp_of m)"
  by (simp add: getWaitOffsetKey_def wait_key_def tp_of_def topic_of_def)

lemma wait_key_digits:
  assumes "proper (t, i)"
  shows "takeWhile c_isdigit (rev (t @ show_int i)) = rev (show_int i)"
proof -
  have "\<forall>x \<in> set (rev (show_int i)). c_isdigit x"
    using assms show_nat_digits by (auto simp: show_int_def proper_def)
  moreover have "takeWhile c_isdigit (rev t) = []"
    using assms by (cases t rule: rev_cases) (auto simp: proper_def)
  ultimately show ?thesis
    using takeWhile_append2 [of "rev (show_int i)" c_isdigit "rev t"] by simp
qed

lemma wait_key_inject:
  assumes "proper a" and "proper b"
  shows "wait_key a = wait_key b \<longleftrightarrow> a = b"
proof
  assume e: "wait_key a = wait_key b"
  obtain t i u j where ab: "a = (t, i)" "b = (u, j)" by fastforce
  with e assms wait_key_digits [of t i] wait_key_digits [of u j]
  have s: "show_int i = show_int j" by (simp add: wait_key_def del: rev_append)
  with e ab have "t = u" by (simp add: wait_key_def)
  moreover from s assms ab have "i = j" by (simp add: proper_def show_int_inject)
  ultimately show "a = b" using ab by simp
qed simp

section \<open>The specification\<close>

record offset_spec =
  sp_pending :: "topic_partition \<Rightarrow> rk_message option"
  sp_unconfirmed :: "topic_partition \<Rightarrow> rk_message list"
  sp_requested :: "topic_partition \<Rightarrow> int option"     \<comment> \<open>offset of the last commit requested\<close>

text \<open>A message becomes the pending commit; a message waits for the user; the user confirms it, and
  with it all that came before it; the pending commits are requested.\<close>

definition spec_store :: "rk_message \<Rightarrow> offset_spec \<Rightarrow> offset_spec" where
  "spec_store m s = s\<lparr>sp_pending := (sp_pending s)(tp_of m \<mapsto> m)\<rparr>"

definition spec_await :: "rk_message \<Rightarrow> offset_spec \<Rightarrow> offset_spec" where
  "spec_await m s = s\<lparr>sp_unconfirmed :=
     (sp_unconfirmed s)(tp_of m := sp_unconfirmed s (tp_of m) @ [m])\<rparr>"

definition drop_through :: "rk_message \<Rightarrow> rk_message list \<Rightarrow> rk_message list" where
  "drop_through m ms =
     (case dropWhile (\<lambda>x. m_ptr x \<noteq> m_ptr m) ms of [] \<Rightarrow> ms | _ # later \<Rightarrow> later)"

definition spec_confirm :: "rk_message \<Rightarrow> offset_spec \<Rightarrow> offset_spec" where
  "spec_confirm m s = s\<lparr>sp_unconfirmed :=
     (sp_unconfirmed s)(tp_of m := drop_through m (sp_unconfirmed s (tp_of m)))\<rparr>"

definition spec_flush :: "offset_spec \<Rightarrow> offset_spec" where
  "spec_flush s = s\<lparr>sp_pending := (\<lambda>_. None),
     sp_requested := (\<lambda>a. case sp_pending s a of Some m \<Rightarrow> Some (m_offset m) | None \<Rightarrow> sp_requested s a)\<rparr>"

section \<open>Abstraction\<close>

fun requested :: "topic_partition \<Rightarrow> rk_call list \<Rightarrow> int option" where
  "requested a [] = None"
| "requested a (x # log) =
     (case requested a log of
        Some off \<Rightarrow> Some off
      | None \<Rightarrow> (case x of CommitMessage m \<Rightarrow> if tp_of m = a then Some (m_offset m) else None
                | _ \<Rightarrow> None))"

definition offset_view :: "'a offset_tables_scheme \<Rightarrow> offset_spec" where
  "offset_view c = \<lparr>
     sp_pending = (\<lambda>a. if proper a then map_of (wait_commit_msgs c) (wait_key a) else None),
     sp_unconfirmed = (\<lambda>a. if proper a
       then (case map_of (wait_destroy_msgs_for_uncommit c) (wait_key a) of Some ms \<Rightarrow> ms | None \<Rightarrow> [])
       else []),
     sp_requested = (\<lambda>a. requested a (calls c))\<rparr>"

text \<open>Every entry stands under the key of its topic and partition.\<close>

definition keyed_commit :: "string \<times> rk_message \<Rightarrow> bool" where
  "keyed_commit x \<longleftrightarrow> proper (tp_of (snd x)) \<and> fst x = wait_key (tp_of (snd x))"

definition keyed_waiting :: "string \<times> rk_message list \<Rightarrow> bool" where
  "keyed_waiting x \<longleftrightarrow> (\<exists>a. proper a \<and> fst x = wait_key a \<and> (\<forall>m \<in> set (snd x). tp_of m = a))"

definition keyed :: "'a offset_tables_scheme \<Rightarrow> bool" where
  "keyed c \<longleftrightarrow> tables_ok c \<and> (\<forall>x \<in> set (wait_commit_msgs c). keyed_commit x) \<and>
     (\<forall>x \<in> set (wait_destroy_msgs_for_uncommit c). keyed_waiting x)"

section \<open>What is requested\<close>

lemma requested_append: "requested a (log @ log') =
    (case requested a log' of Some off \<Rightarrow> Some off | None \<Rightarrow> requested a log)"
  by (induction log) (auto split: option.split)

lemma requested_quiet:
  "\<forall>x \<in> set log'. \<not> message_call x \<Longrightarrow> requested a (log @ log') = requested a log"
  by (induction log' rule: rev_induct)
     (auto simp: requested_append message_call_def append_assoc [symmetric] simp del: append_assoc
      split: rk_call.splits option.splits)

lemma requested_one:
  "requested a (log @ [x]) = (case x of
     CommitMessage m \<Rightarrow> if tp_of m = a then Some (m_offset m) else requested a log
   | _ \<Rightarrow> requested a log)"
  by (simp add: requested_append split: rk_call.split)

lemma requested_table:
  assumes "distinct (map fst xs)" and "\<forall>x \<in> set xs. keyed_commit x"
  shows "requested a (log @ concat (map (\<lambda>(k, m). [CommitMessage m, MessageDestroy (m_ptr m)]) xs)) =
     (case (if proper a then map_of xs (wait_key a) else None) of
        Some m \<Rightarrow> Some (m_offset m) | None \<Rightarrow> requested a log)"
  using assms
proof (induction xs rule: rev_induct)
  case (snoc x xs)
  obtain k m where x: "x = (k, m)" by force
  have k: "proper (tp_of m)" "k = wait_key (tp_of m)" using snoc.prems(2) x by (simp_all add: keyed_commit_def)
  let ?l = "log @ concat (map (\<lambda>(k, m). [CommitMessage m, MessageDestroy (m_ptr m)]) xs)"
  have "requested a (?l @ [CommitMessage m, MessageDestroy (m_ptr m)]) =
      (if tp_of m = a then Some (m_offset m) else requested a ?l)"
    using requested_append [of a ?l "[CommitMessage m, MessageDestroy (m_ptr m)]"]
    by (auto split: option.splits if_splits)
  moreover have "map_of (xs @ [x]) (wait_key a) =
      (if tp_of m = a then Some m else map_of xs (wait_key a))" if "proper a"
  proof -
    have "map_of xs k = None" using snoc.prems(1) x by (simp add: map_of_eq_None_iff)
    then show ?thesis using k x wait_key_inject [OF k(1) that] by (auto simp: map_add_def split: option.split)
  qed
  ultimately show ?case using snoc k x by (auto split: option.split)
qed simp

section \<open>The operations refine the specification\<close>

lemma keyed_tables:
  assumes "keyed c"
  shows "distinct (map fst (wait_commit_msgs c))" "\<forall>x \<in> set (wait_commit_msgs c). keyed_commit x"
  using assms by (simp_all add: keyed_def tables_ok_def smap_ok_distinct)

lemma smap_assign_set: "x \<in> set (smap_assign k v m) \<Longrightarrow> x = (k, v) \<or> x \<in> set m"
  by (induction k v m rule: smap_assign.induct) (auto split: if_splits)

lemma view_addWaitCommitOffset:
  assumes "keyed c" and "proper (tp_of m)"
  shows "offset_view (addWaitCommitOffset m c) = spec_store m (offset_view c)"
    and "keyed (addWaitCommitOffset m c)"
proof -
  let ?c = "addWaitCommitOffset m c"
  have "requested a (calls ?c) = requested a (calls c)" for a
    by (simp add: addWaitCommitOffset_def Let_def requested_append split: option.split)
  then show "offset_view ?c = spec_store m (offset_view c)"
    using assms(2) wait_key_inject [OF _ assms(2)]
    by (auto simp: offset_view_def spec_store_def frame_simps getWaitOffsetKey_eq map_of_smap_assign
        fun_eq_iff)
  have "keyed_commit x" if "x \<in> set (wait_commit_msgs ?c)" for x
    using that assms by (auto simp: frame_simps getWaitOffsetKey_eq keyed_def keyed_commit_def
        dest!: smap_assign_set)
  then show "keyed ?c"
    using assms(1) tables_ok_addWaitCommitOffset [of c m] by (simp add: keyed_def frame_simps)
qed

lemma view_addWaitDestroyMsgs:
  assumes "keyed c" and "proper (tp_of m)"
  shows "offset_view (addWaitDestroyMsgs m c) = spec_await m (offset_view c)"
    and "keyed (addWaitDestroyMsgs m c)"
proof -
  let ?c = "addWaitDestroyMsgs m c" and ?k = "wait_key (tp_of m)"
  define old where "old = (case map_of (wait_destroy_msgs_for_uncommit c) ?k of Some ms \<Rightarrow> ms | None \<Rightarrow> [])"
  have ok: "smap_ok (wait_destroy_msgs_for_uncommit c)" using assms(1) by (simp add: keyed_def tables_ok_def)
  have w: "wait_destroy_msgs_for_uncommit ?c =
      smap_assign ?k (old @ [m]) (wait_destroy_msgs_for_uncommit c)"
    using ok by (simp add: addWaitDestroyMsgs_def Let_def getWaitOffsetKey_eq old_def
        smap_insert_absent split: option.split)
  have "requested a (calls ?c) = requested a (calls c)" for a
    by (simp add: addWaitDestroyMsgs_def Let_def requested_append split: option.split)
  then show "offset_view ?c = spec_await m (offset_view c)"
    using assms(2) wait_key_inject [OF _ assms(2)] w
    by (auto simp: offset_view_def spec_await_def frame_simps map_of_smap_assign old_def fun_eq_iff)
  have "\<forall>x \<in> set old. tp_of x = tp_of m"
  proof (cases "map_of (wait_destroy_msgs_for_uncommit c) ?k")
    case (Some ms)
    then have "keyed_waiting (?k, ms)" using assms(1) map_of_SomeD [OF Some] by (auto simp: keyed_def)
    then obtain a where a: "proper a" "?k = wait_key a" "\<forall>x \<in> set ms. tp_of x = a"
      by (auto simp: keyed_waiting_def)
    with assms(2) wait_key_inject have "tp_of m = a" by blast
    with a(3) Some show ?thesis by (simp add: old_def)
  qed (simp add: old_def)
  then have "keyed_waiting (?k, old @ [m])"
    using assms(2) unfolding keyed_waiting_def by (intro exI [of _ "tp_of m"]) auto
  then have "keyed_waiting x" if "x \<in> set (wait_destroy_msgs_for_uncommit ?c)" for x
    using that assms(1) by (auto simp: w keyed_def dest!: smap_assign_set)
  then show "keyed ?c"
    using assms(1) tables_ok_addWaitDestroyMsgs [of c m] by (simp add: keyed_def frame_simps)
qed

lemma view_removeWaitDestroyMsgs:
  assumes "keyed c" and "proper (tp_of m)"
  shows "offset_view (removeWaitDestroyMsgs m c) = spec_confirm m (offset_view c)"
    and "keyed (removeWaitDestroyMsgs m c)"
proof -
  let ?c = "removeWaitDestroyMsgs m c" and ?k = "wait_key (tp_of m)"
  define old where "old = (case map_of (wait_destroy_msgs_for_uncommit c) ?k of Some ms \<Rightarrow> ms | None \<Rightarrow> [])"
  have w: "map_of (wait_destroy_msgs_for_uncommit ?c) k =
      (if k = ?k \<and> map_of (wait_destroy_msgs_for_uncommit c) ?k \<noteq> None then Some (drop_through m old)
       else map_of (wait_destroy_msgs_for_uncommit c) k)" for k
    by (auto simp: removeWaitDestroyMsgs_def Let_def getWaitOffsetKey_eq old_def drop_through_def
        map_of_smap_assign simp del: dropWhile_eq_Nil_conv split: option.split list.split)
  have "requested a (calls ?c) = requested a (calls c)" for a
    unfolding removeWaitDestroyMsgs_def Let_def
    by (simp add: requested_quiet message_call_def split: option.split list.split)
  then show "offset_view ?c = spec_confirm m (offset_view c)"
    using assms(2) wait_key_inject [OF _ assms(2)] w
    by (auto simp: offset_view_def spec_confirm_def frame_simps old_def fun_eq_iff
        drop_through_def split: option.split)
  have "keyed_waiting x" if x: "x \<in> set (wait_destroy_msgs_for_uncommit ?c)" for x
  proof (cases "x \<in> set (wait_destroy_msgs_for_uncommit c)")
    case True
    with assms(1) show ?thesis by (simp add: keyed_def)
  next
    case False
    with x obtain ms rest f where ms: "map_of (wait_destroy_msgs_for_uncommit c) ?k = Some ms"
      "dropWhile (\<lambda>x. m_ptr x \<noteq> m_ptr m) ms = f # rest" "x = (?k, rest)"
      by (auto simp: removeWaitDestroyMsgs_def Let_def getWaitOffsetKey_eq
          split: option.splits list.splits dest!: smap_assign_set)
    then have "set rest \<subseteq> set ms" by (metis set_dropWhileD set_subset_Cons subset_iff)
    moreover have "keyed_waiting (?k, ms)" using assms(1) map_of_SomeD [OF ms(1)] by (auto simp: keyed_def)
    ultimately show ?thesis using ms(3) by (auto simp: keyed_waiting_def)
  qed
  then show "keyed ?c"
    using assms(1) tables_ok_removeWaitDestroyMsgs [of c m] by (simp add: keyed_def frame_simps)
qed

definition flush_due :: "rk_lib \<Rightarrow> bool \<Rightarrow> 'a offset_tables_scheme \<Rightarrow> bool" where
  "flush_due lib face c \<longleftrightarrow> face \<or> now_ms lib c - last_commit_ms c \<ge> manual_commit_time c"

lemma view_manualCommitWaitOffset:
  assumes "keyed c"
  shows "offset_view (manualCommitWaitOffset lib face c) =
      (if flush_due lib face c then spec_flush (offset_view c) else offset_view c)"
    and "keyed (manualCommitWaitOffset lib face c)"
proof -
  let ?c = "manualCommitWaitOffset lib face c"
  have r: "requested a (calls c @ [GetTimeOfDay]) = requested a (calls c)" for a
    by (simp add: requested_one)
  have "requested a (calls ?c) = (if flush_due lib face c
      then (case (if proper a then map_of (wait_commit_msgs c) (wait_key a) else None) of
              Some m \<Rightarrow> Some (m_offset m) | None \<Rightarrow> requested a (calls c))
      else requested a (calls c))" for a
    using requested_table [OF keyed_tables [OF assms], of a "calls c @ [GetTimeOfDay]"] r [of a]
    by (simp add: manualCommitWaitOffset_def getCurrentTimeMs_eq Let_def calls_commit_loop
        flush_due_def split: option.split)
  moreover have "wait_commit_msgs ?c = (if flush_due lib face c then [] else wait_commit_msgs c)"
    by (simp add: manualCommitWaitOffset_def getCurrentTimeMs_eq Let_def flush_due_def)
  ultimately show "offset_view ?c =
      (if flush_due lib face c then spec_flush (offset_view c) else offset_view c)"
    by (auto simp: offset_view_def spec_flush_def frame_simps fun_eq_iff split: option.split)
  show "keyed ?c"
    using assms tables_ok_manualCommitWaitOffset [of c lib face]
    by (auto simp: keyed_def frame_simps manualCommitWaitOffset_def getCurrentTimeMs_eq Let_def)
qed

end
