(* ===== verification/Qbus_Interface.thy ===== *)
theory Qbus_Interface
  imports Qbus_Prelude
begin

text \<open>
  The interfaces \<open>QbusProducer::Imp\<close> and \<open>QbusConsumer::Imp\<close> (qbus_producer_imp.h,
  qbus_consumer_imp.h) as locales: the virtual functions a client of the library calls, over the
  state of an implementation, and the laws that the Kafka and the Pulsar implementations share. What
  follows for a sequence of calls is proved here once; each implementation discharges the laws in
  its own theory.
\<close>

section \<open>Producers\<close>

text \<open>A sequence of \<open>produce\<close> calls with their results.\<close>

fun produce_all ::
  "(string \<Rightarrow> string \<Rightarrow> 's \<Rightarrow> bool \<times> 's) \<Rightarrow> (string \<times> string) list \<Rightarrow> 's \<Rightarrow> bool list \<times> 's" where
  "produce_all produce [] s = ([], s)"
| "produce_all produce ((d, k) # ms) s =
     (let (r, s) = produce d k s; (rs, s) = produce_all produce ms s in (r # rs, s))"

locale producer_interface =
  fixes is_open :: "'s \<Rightarrow> bool"
    and produce :: "string \<Rightarrow> string \<Rightarrow> 's \<Rightarrow> bool \<times> 's"
    and uninit :: "'s \<Rightarrow> 's"
    and trace :: "'s \<Rightarrow> 'c list"
  assumes closed_refuses: "\<not> is_open s \<Longrightarrow> d \<noteq> [] \<Longrightarrow> produce d k s = (False, s)"
    and produce_open: "is_open (snd (produce d k s)) = is_open s"
    and produce_trace: "\<exists>new. trace (snd (produce d k s)) = trace s @ new"
    and uninit_closes: "\<not> is_open (uninit s)"
    and uninit_again: "uninit (uninit s) = uninit s"
    and uninit_trace: "\<exists>new. trace (uninit s) = trace s @ new"
begin

lemma success_means_open: "fst (produce d k s) \<Longrightarrow> d \<noteq> [] \<Longrightarrow> is_open s"
  using closed_refuses [of s d k] by (cases "is_open s") auto

text \<open>Nothing happens on a closed producer, however often it is called.\<close>

lemma silent_when_closed:
  "\<not> is_open s \<Longrightarrow> \<forall>(d, k) \<in> set ms. d \<noteq> [] \<Longrightarrow>
     produce_all produce ms s = (replicate (length ms) False, s)"
  by (induction ms arbitrary: s rule: list.induct) (auto simp: closed_refuses)

lemma silent_after_uninit:
  "\<forall>(d, k) \<in> set ms. d \<noteq> [] \<Longrightarrow>
     produce_all produce ms (uninit s) = (replicate (length ms) False, uninit s)"
  using uninit_closes by (rule silent_when_closed)

lemma produce_all_trace: "\<exists>new. trace (snd (produce_all produce ms s)) = trace s @ new"
proof (induction ms arbitrary: s)
  case (Cons m ms)
  obtain d k where m: "m = (d, k)" by force
  obtain r t where t: "produce d k s = (r, t)" by force
  obtain a where a: "trace t = trace s @ a" using produce_trace [of d k s] t by auto
  obtain b where "trace (snd (produce_all produce ms t)) = trace t @ b" using Cons by blast
  with a t show ?case by (cases "produce_all produce ms t") (simp add: m)
qed simp

text \<open>Every call of a run that reports success was made on an open producer.\<close>

lemma any_success_means_open:
  "\<forall>(d, k) \<in> set ms. d \<noteq> [] \<Longrightarrow> True \<in> set (fst (produce_all produce ms s)) \<Longrightarrow> is_open s"
  using silent_when_closed [of s ms] by fastforce

end

section \<open>Consumers\<close>

datatype control = Start | Stop | Pause "string list" | Resume "string list"

text \<open>The four control operations of an implementation, and a sequence of calls of them.\<close>

record 's control_ops =
  op_start :: "'s \<Rightarrow> bool \<times> 's"
  op_stop :: "'s \<Rightarrow> 's"
  op_pause :: "string list \<Rightarrow> 's \<Rightarrow> bool \<times> 's"
  op_resume :: "string list \<Rightarrow> 's \<Rightarrow> bool \<times> 's"

fun control_step :: "'s control_ops \<Rightarrow> control \<Rightarrow> 's \<Rightarrow> bool \<times> 's" where
  "control_step ops Start s = op_start ops s"
| "control_step ops Stop s = (True, op_stop ops s)"
| "control_step ops (Pause ts) s = op_pause ops ts s"
| "control_step ops (Resume ts) s = op_resume ops ts s"

fun controls :: "'s control_ops \<Rightarrow> control list \<Rightarrow> 's \<Rightarrow> 's" where
  "controls ops [] s = s"
| "controls ops (x # xs) s = controls ops xs (snd (control_step ops x s))"

locale consumer_interface =
  fixes ok :: "'s \<Rightarrow> bool"
    and running :: "'s \<Rightarrow> bool"
    and ops :: "'s control_ops"
  assumes ok_start: "ok s \<Longrightarrow> ok (snd (op_start ops s))"
    and ok_stop: "ok s \<Longrightarrow> ok (op_stop ops s)"
    and ok_pause: "ok s \<Longrightarrow> ok (snd (op_pause ops ts s))"
    and ok_resume: "ok s \<Longrightarrow> ok (snd (op_resume ops ts s))"
    and start_refused: "ok s \<Longrightarrow> \<not> fst (op_start ops s) \<Longrightarrow> running (snd (op_start ops s)) = running s"
    and stop_stops: "ok s \<Longrightarrow> \<not> running (op_stop ops s)"
    and pause_needs_running: "ok s \<Longrightarrow> fst (op_pause ops ts s) \<Longrightarrow> running s"
    and resume_needs_running: "ok s \<Longrightarrow> fst (op_resume ops ts s) \<Longrightarrow> running s"
    and pause_running: "ok s \<Longrightarrow> running (snd (op_pause ops ts s)) = running s"
    and resume_running: "ok s \<Longrightarrow> running (snd (op_resume ops ts s)) = running s"
begin

lemma ok_control_step: "ok s \<Longrightarrow> ok (snd (control_step ops x s))"
  by (cases x) (auto intro: ok_start ok_stop ok_pause ok_resume)

lemma ok_controls: "ok s \<Longrightarrow> ok (controls ops xs s)"
  by (induction xs arbitrary: s) (auto intro: ok_control_step)

lemma stopped_stays_stopped:
  "ok s \<Longrightarrow> \<not> running s \<Longrightarrow> Start \<notin> set xs \<Longrightarrow> \<not> running (controls ops xs s)"
proof (induction xs arbitrary: s)
  case (Cons x xs)
  have "\<not> running (snd (control_step ops x s))"
    using Cons.prems by (cases x) (auto simp: stop_stops pause_running resume_running)
  with Cons ok_control_step [OF Cons.prems(1), of x] show ?case by simp
qed simp

text \<open>After \<open>stop\<close>, until the next \<open>start\<close>, no \<open>pause\<close> and no \<open>resume\<close> succeeds.\<close>

lemma stopped_refuses:
  assumes "ok s" and "Start \<notin> set xs"
  shows "\<not> fst (op_pause ops ts (controls ops xs (op_stop ops s)))" and "\<not> fst (op_resume ops ts (controls ops xs (op_stop ops s)))"
proof -
  have "\<not> running (controls ops xs (op_stop ops s))"
    using stopped_stays_stopped [OF ok_stop stop_stops] assms by blast
  then show "\<not> fst (op_pause ops ts (controls ops xs (op_stop ops s)))" "\<not> fst (op_resume ops ts (controls ops xs (op_stop ops s)))"
    using pause_needs_running resume_needs_running ok_controls [OF ok_stop [OF assms(1)], of xs] by blast+
qed

text \<open>Starting is the only way to run: a consumer that runs after some calls was started in them.\<close>

lemma runs_only_after_start:
  "ok s \<Longrightarrow> \<not> running s \<Longrightarrow> running (controls ops xs s) \<Longrightarrow> Start \<in> set xs"
  using stopped_stays_stopped by blast

end

end
