(* ===== verification/Kafka_Consumer_Props.thy ===== *)
theory Kafka_Consumer_Props
  imports Kafka_Offset_Spec Qbus_Interface
begin

text \<open>
  Properties of the Kafka consumer: memory safety of a whole session, the commit protocol and its
  corner cases, rebalancing, \<open>pause\<close>, \<open>start\<close> and \<open>stop\<close>. Each property is followed by a witness on
  a concrete consumer and library where it has hypotheses.
\<close>

section \<open>Concrete data of the witnesses\<close>

definition demo_msg :: "nat \<Rightarrow> string \<Rightarrow> int \<Rightarrow> int \<Rightarrow> rk_message" where
  "demo_msg p t part off = \<lparr>m_ptr = p, m_err = 0, m_topic = Some t, m_partition = part,
     m_offset = off, m_payload = Some ''x'', m_key = None\<rparr>"

text \<open>Commits are the client's business, and each poll returns a message at a new address.\<close>

definition demo_lib :: rk_lib where
  "demo_lib = quiet_lib\<lparr>rk_conf_get := (\<lambda>_ _. Some ''false''),
     rk_consumer_poll := (\<lambda>log _. ([], Some (demo_msg (length log) ''t'' 0 0)))\<rparr>"

definition demo_pt :: "ini ptree_lib" where
  "demo_pt = ini_lib (\<lambda>_. Inr (Ini ''''
     [(''sdk'', Ini '''' [(''broker.list'', ini_value ''h:1'')])]))"

definition demo_started :: consumer where
  "demo_started = snd (start True demo_lib (snd (subscribe demo_lib ''g'' [''t'']
     (snd (consumer_init demo_pt demo_lib ''log'' ''conf'' (consumer_new '''' logger_start))))))"

text \<open>A consumer in the user-commit mode with messages that wait for \<open>commitOffset\<close>.\<close>

definition demo_waiting :: "rk_message list \<Rightarrow> consumer" where
  "demo_waiting ms = foldl (\<lambda>c m. addWaitDestroyMsgs m (emit (PollReturned (Some m)) c))
     ((consumer_new ''c'' logger_start)\<lparr>is_user_manual_commit_offset := True,
        is_auto_commit_offset := False, start_flag := True, manual_commit_time := 5\<rparr>) ms"

lemma accepting_demo_lib [simp]: "accepting demo_lib"
  by (simp add: accepting_def demo_lib_def quiet_lib_def)

lemma demo_init: "fst (consumer_init demo_pt demo_lib lp cp (consumer_new [] lg)) \<and>
    handles (snd (consumer_init demo_pt demo_lib lp cp (consumer_new [] lg))) = (True, True, False, [])"
proof -
  have "fst (getQbusBrokerList (snd (snd (loadConfig demo_pt cp [] config_empty))))" by code_simp
  then show ?thesis
    using consumer_init_ok [of demo_lib demo_pt cp _ "consumer_new [] lg" lp]
    by (simp add: demo_pt_def ini_lib_def consumer_new_def)
qed

lemma demo_started_flag: "start_flag demo_started"
proof -
  let ?c = "snd (consumer_init demo_pt demo_lib ''log'' ''conf'' (consumer_new '''' logger_start))"
  have "rd_kafka_conf ?c" "efficacious_topics ?c = []"
    using demo_init [of "''log''" "''conf''" logger_start] by (simp_all add: handles_def)
  then have "efficacious_topics (snd (subscribe demo_lib ''g'' [''t''] ?c)) = [''t'']"
    using subscribe_ok [of demo_lib ?c "''g''" "[''t'']"] by (simp add: insort_insert_key_def)
  then show ?thesis
    by (simp add: demo_started_def start_def Let_def demo_lib_def quiet_lib_def)
qed

lemma demo_session: "session True demo_lib demo_started (poll_body demo_lib (\<lambda>_. []) demo_started)"
  by (rule continue_session [OF begin_session], rule poll_step)
     (simp_all add: careful_def demo_started_flag)

lemma digit_chars [simp]:
  "char_of (48 :: nat) = CHR ''0''" "char_of (49 :: nat) = CHR ''1''"
  "char_of (50 :: nat) = CHR ''2''"
  by code_simp+

lemma live_step_None: "foldl live_step None xs = None"
  by (induction xs) simp_all

lemma live_read_destroy:
  assumes "foldl live_step (Some L) xs = Some L'"
    and "\<forall>x \<in> set xs. (\<exists>p. x = MessageRead p) \<or> (\<exists>p. x = MessageDestroy p)"
  shows "L' \<subseteq># L"
  using assms
proof (induction xs arbitrary: L)
  case (Cons x xs)
  then show ?case
    by (auto simp: live_step_None split: if_splits)
       (meson diff_subset_eq_self subset_mset.order_trans)
qed simp

lemma calls_removeWaitDestroyMsgs:
  "\<exists>ds. calls (removeWaitDestroyMsgs m c) = calls (emit (MessageRead (m_ptr m)) c) @
     map MessageDestroy ds"
proof -
  have d: "\<exists>ds. map (MessageDestroy \<circ> m_ptr) ms = map MessageDestroy ds" for ms
    by (rule exI [of _ "map m_ptr ms"]) simp
  show ?thesis
    using d by (auto simp: removeWaitDestroyMsgs_def Let_def split: option.split list.split)
qed

lemma lifetime_commitOffset_le:
  assumes "lifetime (calls c) = Some L" and "lifetime (calls (commitOffset (Some m) c)) = Some L'"
  shows "L' \<subseteq># L"
proof -
  obtain ds where "calls (removeWaitDestroyMsgs m (addWaitCommitOffset m c)) =
      calls (emit (MessageRead (m_ptr m)) (addWaitCommitOffset m c)) @ map MessageDestroy ds"
    using calls_removeWaitDestroyMsgs by blast
  then have "\<exists>xs. calls (commitOffset (Some m) c) = calls c @ xs \<and>
      (\<forall>x \<in> set xs. (\<exists>p. x = MessageRead p) \<or> (\<exists>p. x = MessageDestroy p))"
    by (auto simp: commitOffset_def addWaitCommitOffset_def Let_def split: option.split)
  with assms live_read_destroy show ?thesis by force
qed

lemma demo_one_waiting:
  "owned {#} (demo_waiting [demo_msg 1 ''t'' 0 0])"
  "is_user_manual_commit_offset (demo_waiting [demo_msg 1 ''t'' 0 0])"
  "waiting (demo_msg 1 ''t'' 0 0) (demo_waiting [demo_msg 1 ''t'' 0 0])"
  "count (held (demo_waiting [demo_msg 1 ''t'' 0 0])) (m_ptr (demo_msg 1 ''t'' 0 0)) = 1"
  by (simp_all add: owned_def tables_ok_def held_def held_commit_def held_destroy_def waiting_def
      demo_waiting_def addWaitDestroyMsgs_def Let_def consumer_new_def demo_msg_def emit_def
      smap_ok_def lifetime_def)

section \<open>Memory\<close>

text \<open>C2: In a session of the Kafka consumer, whatever librdkafka, the brokers and the clock do and however
  polls, commits, pauses and resumes follow each other, every message that a poll returned is freed
  exactly once by the time \<open>stop\<close> returns, and none is read, committed or freed after that: replaying the
  whole call log with the set of live messages never fails and ends with none. The condition is on the
  user: it commits, in the callback (\<open>careful\<close>) or between iterations, only messages that still wait for
  it, so none twice, and no call of \<open>commitOffset\<close> overlaps an iteration of the poll thread.\<close>

theorem session_frees_each_message_once:
  assumes "consumer_init pt lib lp cp (consumer_new cl lg) = (ok1, c1)"
    and "subscribe lib grp ts c1 = (ok2, c2)" and "start cb lib c2 = (ok3, c3)"
    and "session cb lib c3 c4"
  shows "lifetime (calls (stop cb lib c4)) = Some {#}"
proof -
  have "in_session c4"
    using in_session_reachable [OF assms(4)] in_session_start [OF assms(1-3)] by simp
  from all_freed_stop_in_session [OF this, of cb lib] show ?thesis by (simp add: all_freed_def)
qed

theorem session_frees_each_message_once_witness:
  "lifetime (calls (stop True demo_lib (poll_body demo_lib (\<lambda>_. []) demo_started))) = Some {#}"
  using session_frees_each_message_once [OF surjective_pairing surjective_pairing
      surjective_pairing demo_session [unfolded demo_started_def]]
  by (simp add: demo_started_def)

text \<open>C22: \<open>commitOffset\<close> of a message that waits for it, in the user-commit mode: the message becomes
  the pending commit of its topic and partition, the pending commit it replaces and every message
  delivered before it on the same partition are freed, and the later ones keep waiting.\<close>

theorem commitOffset_waiting:
  assumes "is_user_manual_commit_offset c"
    and "map_of (wait_destroy_msgs_for_uncommit c) (getWaitOffsetKey m) = Some (before @ x # later)"
    and "m_ptr x = m_ptr m" and "m_ptr m \<notin> m_ptr ` set before"
  shows "map_of (wait_commit_msgs (commitOffset (Some m) c)) =
           (map_of (wait_commit_msgs c))(getWaitOffsetKey m \<mapsto> m) \<and>
         map_of (wait_destroy_msgs_for_uncommit (commitOffset (Some m) c)) =
           (map_of (wait_destroy_msgs_for_uncommit c))(getWaitOffsetKey m \<mapsto> later) \<and>
         calls (commitOffset (Some m) c) = calls c @ MessageRead (m_ptr m) #
           (case map_of (wait_commit_msgs c) (getWaitOffsetKey m) of
              Some old \<Rightarrow> [MessageDestroy (m_ptr old)] | None \<Rightarrow> []) @
           MessageRead (m_ptr m) # map (MessageDestroy \<circ> m_ptr) before"
proof -
  have "\<forall>y \<in> set before. m_ptr y \<noteq> m_ptr m" using assms(4) by (metis imageI)
  then have d: "dropWhile (\<lambda>y. m_ptr y \<noteq> m_ptr m) (before @ x # later) = x # later"
    "takeWhile (\<lambda>y. m_ptr y \<noteq> m_ptr m) (before @ x # later) = before"
    using assms(3) by (simp_all add: dropWhile_append takeWhile_append)
  show ?thesis
    using assms(1,2) d
    by (simp add: commitOffset_def removeWaitDestroyMsgs_def Let_def map_of_smap_assign frame_simps
        addWaitCommitOffset_def [of m c] split: option.split)
qed

theorem commitOffset_waiting_witness:
  "map_of (wait_destroy_msgs_for_uncommit (commitOffset (Some (demo_msg 2 ''t'' 0 1))
     (demo_waiting [demo_msg 1 ''t'' 0 0, demo_msg 2 ''t'' 0 1, demo_msg 3 ''t'' 0 2])))
       (getWaitOffsetKey (demo_msg 2 ''t'' 0 1)) = Some [demo_msg 3 ''t'' 0 2]"
proof -
  let ?c = "demo_waiting [demo_msg 1 ''t'' 0 0, demo_msg 2 ''t'' 0 1, demo_msg 3 ''t'' 0 2]"
  have "is_user_manual_commit_offset ?c"
    by (simp add: demo_waiting_def frame_simps consumer_new_def)
  moreover have "map_of (wait_destroy_msgs_for_uncommit ?c)
      (getWaitOffsetKey (demo_msg 2 ''t'' 0 1)) =
      Some ([demo_msg 1 ''t'' 0 0] @ demo_msg 2 ''t'' 0 1 # [demo_msg 3 ''t'' 0 2])"
    by (simp add: demo_waiting_def addWaitDestroyMsgs_def Let_def consumer_new_def demo_msg_def
        emit_def getWaitOffsetKey_def)
  ultimately show ?thesis
    using commitOffset_waiting [of ?c "demo_msg 2 ''t'' 0 1" "[demo_msg 1 ''t'' 0 0]"
        "demo_msg 2 ''t'' 0 1" "[demo_msg 3 ''t'' 0 2]"]
    by (simp add: demo_msg_def)
qed

section \<open>Commits\<close>

text \<open>When messages arrive without the user-commit mode, the pending commit of each topic and
  partition is the last message that came from there; all the earlier ones have been freed.\<close>

theorem pending_commit_is_last:
  assumes "wait_commit_msgs c = []"
  shows "map_of (wait_commit_msgs (foldl (\<lambda>c m. addWaitCommitOffset m c) c ms)) k =
     (if filter (\<lambda>m. getWaitOffsetKey m = k) ms = [] then None
      else Some (last (filter (\<lambda>m. getWaitOffsetKey m = k) ms)))"
proof (induction ms rule: rev_induct)
  case (snoc m ms)
  then show ?case by (simp add: frame_simps map_of_smap_assign)
qed (simp add: assms)

theorem pending_commit_is_last_witness:
  "map_of (wait_commit_msgs (foldl (\<lambda>c m. addWaitCommitOffset m c) (consumer_new ''c'' logger_start)
     [demo_msg 1 ''t'' 0 7, demo_msg 2 ''u'' 0 3, demo_msg 3 ''t'' 0 8])) ''t0'' =
   Some (demo_msg 3 ''t'' 0 8)"
  by (subst pending_commit_is_last)
     (simp_all add: consumer_new_def demo_msg_def getWaitOffsetKey_def show_int_def
        show_nat.simps digit_char_def)

text \<open>C37: The table key is the topic name followed by the decimal partition number. It determines
  topic and partition when no topic name ends in a digit and partitions are not negative.\<close>

theorem getWaitOffsetKey_injective:
  assumes "m_topic m = Some t" and "m_topic m' = Some t'"
    and "t \<noteq> '''' \<longrightarrow> \<not> c_isdigit (last t)" and "t' \<noteq> '''' \<longrightarrow> \<not> c_isdigit (last t')"
    and "0 \<le> m_partition m" and "0 \<le> m_partition m'"
  shows "getWaitOffsetKey m = getWaitOffsetKey m' \<longleftrightarrow> t = t' \<and> m_partition m = m_partition m'"
proof -
  have "tp_of m = (t, m_partition m)" "tp_of m' = (t', m_partition m')"
    using assms(1,2) by (simp_all add: tp_of_def topic_of_def)
  moreover have "proper (t, m_partition m)" "proper (t', m_partition m')"
    using assms(3-6) by (simp_all add: proper_def)
  ultimately show ?thesis using wait_key_inject by (simp add: getWaitOffsetKey_eq)
qed

theorem getWaitOffsetKey_injective_witness:
  "getWaitOffsetKey (demo_msg 1 ''ab'' 2 0) \<noteq> getWaitOffsetKey (demo_msg 2 ''ab'' 12 0)"
  using getWaitOffsetKey_injective [of "demo_msg 1 ''ab'' 2 0" "''ab''" "demo_msg 2 ''ab'' 12 0" "''ab''"]
  by (simp add: demo_msg_def c_isdigit_def)

text \<open>Without that restriction the key is ambiguous: partition 12 of topic \<open>a\<close> and partition 2 of
  topic \<open>a1\<close> share a key. When a message of each arrives before a flush, the first is freed without
  ever being committed.\<close>

theorem getWaitOffsetKey_collision:
  "calls (manualCommitWaitOffset demo_lib True
     (addWaitCommitOffset (demo_msg 2 ''a1'' 2 5)
        (addWaitCommitOffset (demo_msg 1 ''a'' 12 9) (consumer_new ''c'' logger_start)))) =
   [MessageRead 1, MessageRead 2, MessageDestroy 1, GetTimeOfDay,
    CommitMessage (demo_msg 2 ''a1'' 2 5), MessageDestroy 2]"
  by (simp add: manualCommitWaitOffset_def getCurrentTimeMs_eq addWaitCommitOffset_def Let_def
      consumer_new_def demo_msg_def getWaitOffsetKey_def show_int_def show_nat.simps digit_char_def
      manualCommitOffset_def)

text \<open>\<open>commitOffset\<close> twice on the same message is a use after free: the first call leaves the
  message in the commit table, and the second frees it as the replaced entry while it is stored
  again.\<close>

theorem commitOffset_twice:
  assumes "owned {#} c" and "is_user_manual_commit_offset c" and "waiting m c"
    and "count (held c) (m_ptr m) = 1"
  shows "lifetime (calls (commitOffset (Some m) (commitOffset (Some m) c))) = None"
proof -
  define c1 where "c1 = commitOffset (Some m) c"
  obtain L where L: "lifetime (calls c1) = Some L"
    using owned_commitOffset [OF assms(1,3)] by (simp add: owned_def c1_def)
  have "lifetime (calls c) = Some (held c)" using assms(1) by (simp add: owned_def)
  then have "count L (m_ptr m) \<le> 1"
    using lifetime_commitOffset_le [OF _ L [unfolded c1_def], of "held c"] assms(4)
    by (metis mset_subset_eq_count)
  then have "m_ptr m \<notin># L - {#m_ptr m#}" by (simp add: not_in_iff)
  moreover have "map_of (wait_commit_msgs c1) (getWaitOffsetKey m) = Some m"
    using assms(2) by (simp add: c1_def commitOffset_def frame_simps map_of_smap_assign)
  ultimately have "lifetime (calls (emit (MessageRead (m_ptr m)) (addWaitCommitOffset m c1))) = None"
    using L by (simp add: addWaitCommitOffset_def Let_def)
  then have "lifetime (calls (commitOffset (Some m) c1)) = None"
    using assms(2) calls_removeWaitDestroyMsgs [of m "addWaitCommitOffset m c1"]
    by (auto simp: commitOffset_def c1_def live_step_None)
  then show ?thesis by (simp add: c1_def)
qed

theorem commitOffset_twice_witness:
  "lifetime (calls (commitOffset (Some (demo_msg 1 ''t'' 0 0)) (commitOffset (Some (demo_msg 1 ''t'' 0 0))
     (demo_waiting [demo_msg 1 ''t'' 0 0])))) = None"
  by (rule commitOffset_twice) (fact demo_one_waiting)+

section \<open>Rebalancing, pause and resume\<close>

text \<open>When partitions are revoked and the client commits by itself, every pending message is
  committed before the assignment is dropped, and nothing is left pending; with librdkafka's own
  commits the callback only drops the assignment.\<close>

theorem revoke_commits_before_unassign:
  "calls (rdkafka_rebalance_cb lib (RevokePartitions ps) c) = calls c @
     (if is_auto_commit_offset c then []
      else GetTimeOfDay #
        concat (map (\<lambda>(k, m). [CommitMessage m, MessageDestroy (m_ptr m)]) (wait_commit_msgs c))) @
     [RebalanceAssign None] \<and>
   wait_commit_msgs (rdkafka_rebalance_cb lib (RevokePartitions ps) c) =
     (if is_auto_commit_offset c then wait_commit_msgs c else []) \<and>
   \<not> has_assigned (rdkafka_rebalance_cb lib (RevokePartitions ps) c)"
  by (simp add: rdkafka_rebalance_cb_def Let_def manualCommitWaitOffset_def getCurrentTimeMs_eq
      calls_commit_loop)

lemma topic_partition_set_rebalance:
  "topic_partition_set (rdkafka_rebalance_cb lib ev c) =
     (case ev of AssignPartitions ps \<Rightarrow> tps_init (Some ps) (topic_partition_set c)
      | _ \<Rightarrow> topic_partition_set c)"
  by (simp add: rdkafka_rebalance_cb_def Let_def split: rebalance.split)

text \<open>The partitions that \<open>pause\<close> and \<open>resume\<close> act on are those of every assignment since
  \<open>start\<close>, not of the last one: an assignment is added to the set and a revocation leaves it.\<close>

theorem assigned_partitions_accumulate:
  assumes "tps_ok (topic_partition_set c)"
  shows "partitions_of (topic_partition_set (foldl (\<lambda>c ev. rdkafka_rebalance_cb lib ev c) c evs)) t =
     partitions_of (topic_partition_set c) t \<union>
     (\<Union>ps \<in> {ps. AssignPartitions ps \<in> set evs}. listed ps t)"
proof -
  have "tps_ok (topic_partition_set (foldl (\<lambda>c ev. rdkafka_rebalance_cb lib ev c) c evs)) \<and>
    partitions_of (topic_partition_set (foldl (\<lambda>c ev. rdkafka_rebalance_cb lib ev c) c evs)) t =
     partitions_of (topic_partition_set c) t \<union>
     (\<Union>ps \<in> {ps. AssignPartitions ps \<in> set evs}. listed ps t)"
  proof (induction evs rule: rev_induct)
    case Nil
    with assms show ?case by simp
  next
    case (snoc ev evs)
    then show ?case
    proof (cases ev)
      case (AssignPartitions ps)
      with snoc show ?thesis
        by (auto simp: topic_partition_set_rebalance tps_ok_init)
           (auto simp: partitions_of_fold_add tps_init_def)
    qed (auto simp: topic_partition_set_rebalance)
  qed
  then show ?thesis by simp
qed

theorem assigned_partitions_accumulate_witness:
  "partitions_of (topic_partition_set (foldl (\<lambda>c ev. rdkafka_rebalance_cb demo_lib ev c)
     (consumer_new ''c'' logger_start)
     [AssignPartitions [\<lparr>p_topic = ''t'', p_partition = 0, p_offset = 0\<rparr>], RevokePartitions [],
      AssignPartitions [\<lparr>p_topic = ''t'', p_partition = 1, p_offset = 0\<rparr>]])) ''t'' = {0, 1}"
proof -
  have e: "{ps. AssignPartitions ps \<in> set [AssignPartitions a, RevokePartitions [], AssignPartitions b]}
      = {a, b}" for a b by auto
  show ?thesis
    by (subst assigned_partitions_accumulate)
       (simp_all only: e, auto simp: consumer_new_def partitions_of_def listed_def)
qed

text \<open>C35: \<open>pause\<close> and \<open>resume\<close> do nothing and fail unless the consumer runs with an assignment.
  Otherwise they act on the recorded partitions of the topics they are given, in the order of the
  topics and ascending within each, and report what librdkafka answered.\<close>

theorem pause_resume_contract:
  assumes "list_add_law lib"
  defines "targets \<equiv> (\<lambda>c topics. concat (map (\<lambda>t. map (Pair t)
     (case map_of (topic_partition_set c) t of Some s \<Rightarrow> s | None \<Rightarrow> [])) topics))"
  shows "(if start_flag c \<and> has_assigned c
     then \<exists>lst. map (\<lambda>e. (p_topic e, p_partition e)) lst = targets c topics \<and>
            pause lib topics c =
              (rk_pause_partitions lib (calls c) lst = 0, emit (PausePartitions lst) c) \<and>
            resume lib topics c =
              (rk_resume_partitions lib (calls c) lst = 0, emit (ResumePartitions lst) c)
     else pause lib topics c = (False, c) \<and> resume lib topics c = (False, c))"
proof (cases "start_flag c \<and> has_assigned c")
  case True
  then show ?thesis
    using map_findTopics [OF assms(1), of "topic_partition_set c" topics]
    by (auto simp: targets_def pause_def resume_def Let_def
        intro!: exI [of _ "findTopics lib (topic_partition_set c) topics"])
qed (simp add: pause_def resume_def)

theorem pause_resume_contract_witness:
  "\<exists>lst. map (\<lambda>e. (p_topic e, p_partition e)) lst = [(''t'', 0), (''t'', 2)] \<and>
     calls (snd (pause quiet_lib [''t'', ''u''] ((consumer_new ''c'' logger_start)
       \<lparr>start_flag := True, has_assigned := True, topic_partition_set := [(''t'', [0, 2])]\<rparr>))) =
     [PausePartitions lst]"
  using pause_resume_contract [OF list_add_law_quiet_lib, of "(consumer_new ''c'' logger_start)
       \<lparr>start_flag := True, has_assigned := True, topic_partition_set := [(''t'', [0, 2])]\<rparr>"
       "[''t'', ''u'']"]
  by (auto simp: consumer_new_def emit_def)

section \<open>Start and stop\<close>

text \<open>C34: With a configuration file that names the brokers and a library that accepts every call,
  \<open>init\<close>, \<open>subscribe\<close> to a nonempty list of topics and \<open>start\<close> succeed, and the consumer runs,
  subscribed to exactly these topics.\<close>

theorem consumer_starts:
  assumes "accepting lib" and "pt_read_ini pt cp = Inr root"
    and "cl \<noteq> '''' \<or> fst (getQbusBrokerList (snd (snd (loadConfig pt cp '''' config_empty))))"
    and "grp \<noteq> ''''" and "ts \<noteq> []"
    and "consumer_init pt lib lp cp (consumer_new cl lg) = (ok1, c1)"
    and "subscribe lib grp ts c1 = (ok2, c2)" and "start cb lib c2 = (ok3, c3)"
  shows "ok1 \<and> ok2 \<and> ok3 \<and> start_flag c3 \<and> set (efficacious_topics c3) = set ts"
proof -
  have i: "ok1" "handles c1 = (True, True, False, [])"
    using consumer_init_ok [OF assms(1,2), of "consumer_new cl lg" lp] assms(3,6)
    by (auto simp: consumer_new_def)
  then have s: "ok2" "efficacious_topics c2 = foldl (\<lambda>s t. insort_insert t s) [] ts"
    using subscribe_ok [OF assms(1) _ assms(4,5), of c1] assms(7) by (simp_all add: handles_def)
  then have t: "set (efficacious_topics c2) = set ts" by (simp add: set_fold_insort)
  with assms(5) have "efficacious_topics c2 \<noteq> []" by (metis set_empty)
  moreover have "flags c2 = flags c1"
    using subscribe_keeps(1) [of lib grp ts c1] assms(7) by simp
  then have "start_flag c2 = start_flag (consumer_new cl lg)"
    using consumer_init_flags(2) [OF consumer_new_state(2), of pt lib lp cp cl lg] assms(6)
    by (simp add: flags_def)
  then have "\<not> start_flag c2" by (simp add: consumer_new_def)
  ultimately show ?thesis
    using assms(1,8) i s t by (auto simp: start_def Let_def accepting_def emit_def split: if_splits)
qed

theorem consumer_starts_witness: "start_flag demo_started"
proof -
  have "fst (getQbusBrokerList (snd (snd (loadConfig demo_pt ''conf'' '''' config_empty))))" by code_simp
  then show ?thesis
    using consumer_starts [of demo_lib demo_pt "''conf''" _ "''''" "''g''" "[''t'']",
        OF _ _ _ _ _ surjective_pairing surjective_pairing surjective_pairing,
        of _ "''log''" logger_start True]
    by (simp add: demo_started_def demo_pt_def ini_lib_def)
qed

lemma wait_destroyed_loop_calls:
  "\<exists>k \<le> n. wait_destroyed_loop n lib c =
     c\<lparr>calls := calls c @ replicate k (WaitDestroyed 1000)\<rparr>"
proof (induction n arbitrary: c)
  case (Suc n)
  obtain k where "k \<le> n" "wait_destroyed_loop n lib (emit (WaitDestroyed 1000) c) =
      (emit (WaitDestroyed 1000) c)\<lparr>calls := calls (emit (WaitDestroyed 1000) c) @
        replicate k (WaitDestroyed 1000)\<rparr>" using Suc.IH by blast
  moreover have "emit (WaitDestroyed 1000) c = c\<lparr>calls := calls c @ replicate 1 (WaitDestroyed 1000)\<rparr>"
    by (simp add: emit_def)
  ultimately show ?case
    by (cases "rk_wait_destroyed lib (calls c) = -1")
       (auto simp: Let_def intro: exI [of _ "Suc k"] exI [of _ "Suc 0"])
qed simp

lemma stop_flags: "\<not> start_flag (stop cb lib c)" "\<not> rd_kafka_handle (stop cb lib c)"
proof -
  have st: "\<not> start_flag (stop_thread cb lib c)"
    by (simp add: stop_thread_def Let_def poll_thread_exit_def)
  have cl: "start_flag (close_consumer lib c') = start_flag c'"
    "rd_kafka_handle (close_consumer lib c') = rd_kafka_handle c'" for c'
    by (simp_all add: close_consumer_def case_prod_unfold)
  define c1 where "c1 = (if start_flag c then stop_thread cb lib c else c)"
  define c2 where "c2 = (if rd_kafka_handle c1 then close_consumer lib c1 else c1)"
  define c3 where "c3 = (if rd_kafka_handle c2
    then (if is_user_manual_commit_offset c2 \<and> is_force_destroy c2 then c2
          else emit HandleDestroy c2)\<lparr>rd_kafka_handle := False\<rparr> else c2)"
  have "\<not> start_flag c1" using st by (simp add: c1_def)
  then have "\<not> start_flag c3" "\<not> rd_kafka_handle c3" by (simp_all add: c3_def c2_def cl)
  moreover have "stop cb lib c = wait_destroyed_loop 5 lib c3"
    by (simp only: stop_def Let_def c1_def c2_def c3_def)
  ultimately show "\<not> start_flag (stop cb lib c)" "\<not> rd_kafka_handle (stop cb lib c)"
    using wait_destroyed_loop_calls [of 5 lib c3] by auto
qed

text \<open>\<open>stop\<close> terminates after at most five waits of a second for librdkafka, leaves the consumer
  not running and without a handle, and a second \<open>stop\<close> only waits again: it joins no thread, and
  closes and destroys nothing.\<close>

theorem stop_once:
  "\<not> start_flag (stop cb lib c) \<and> \<not> rd_kafka_handle (stop cb lib c) \<and>
   (\<exists>k. k \<le> 5 \<and> stop cb lib (stop cb lib c) = (stop cb lib c)
      \<lparr>calls := calls (stop cb lib c) @ replicate k (WaitDestroyed 1000)\<rparr>)"
  using stop_flags [of cb lib c] wait_destroyed_loop_calls [of 5 lib "stop cb lib c"]
  by (simp add: stop_def [of cb lib "stop cb lib c"])

lemma failed_subscribe_topics:
  assumes "subscribe_topics lib ts c = (False, c')"
  shows "efficacious_topics c' = efficacious_topics c"
proof -
  have a: "add_topics lib ts [] c0 = (added, c1) \<Longrightarrow> efficacious_topics c1 = efficacious_topics c0"
    for c0 c1 added using efficacious_add_topics [of lib ts "[]" c0] by simp
  show ?thesis
    using assms
    by (auto simp: subscribe_topics_def Let_def emit_def split: if_splits prod.splits dest!: a)
qed

lemma failed_subscribe:
  assumes "subscribe lib grp ts c = (False, c')"
  shows "efficacious_topics c' = efficacious_topics c"
proof -
  have s: "setRdKafkaConfig lib b i v c0 = (r, c1) \<Longrightarrow> efficacious_topics c1 = efficacious_topics c0"
    "initRdKafkaHandle lib c0 = (r, c1) \<Longrightarrow> efficacious_topics c1 = efficacious_topics c0"
    for b i v c0 r and c1 :: consumer
    by (auto simp: setRdKafkaConfig_def initRdKafkaHandle_def Let_def emit_def split: if_splits)
  show ?thesis
    using assms
    by (auto simp: subscribe_def Let_def split: prod.splits if_splits
        dest!: s failed_subscribe_topics)
qed

text \<open>\<open>start\<close> does not report that nothing was started: after a failed \<open>subscribe\<close> on a new
  consumer it returns true, and no thread runs.\<close>

theorem start_hides_failed_subscribe:
  assumes "consumer_init pt lib lp cp (consumer_new cl lg) = (ok1, c1)"
    and "subscribe lib grp ts c1 = (False, c2)"
  shows "start cb lib c2 = (True, c2) \<and> \<not> start_flag c2"
proof -
  have "efficacious_topics c2 = []"
    using failed_subscribe [OF assms(2)] assms(1)
      efficacious_consumer_init [of pt lib lp cp "consumer_new cl lg"] by (simp add: consumer_new_def)
  moreover have "flags c2 = flags c1"
    using subscribe_keeps(1) [of lib grp ts c1] assms(2) by simp
  then have "start_flag c2 = start_flag (consumer_new cl lg)"
    using consumer_init_flags(2) [OF consumer_new_state(2), of pt lib lp cp cl lg] assms(1)
    by (simp add: flags_def)
  then have "\<not> start_flag c2" by (simp add: consumer_new_def)
  ultimately show ?thesis by (simp add: start_def)
qed

theorem start_hides_failed_subscribe_witness:
  "fst (start True (quiet_lib\<lparr>rk_conf_set := \<lambda>_ _ _. False\<rparr>)
     (snd (subscribe (quiet_lib\<lparr>rk_conf_set := \<lambda>_ _ _. False\<rparr>) ''g'' [''t'']
       (snd (consumer_init demo_pt (quiet_lib\<lparr>rk_conf_set := \<lambda>_ _ _. False\<rparr>) ''log'' ''conf''
         (consumer_new ''h:1'' logger_start))))))"
proof -
  let ?lib = "quiet_lib\<lparr>rk_conf_set := \<lambda>_ _ _. False\<rparr>"
  have f: "subscribe ?lib ''g'' ts c = (False, snd (subscribe ?lib ''g'' ts c))" for ts c
    by (simp add: subscribe_def setRdKafkaConfig_def Let_def)
  show ?thesis by (simp add: start_hides_failed_subscribe [OF surjective_pairing f])
qed

section \<open>The interface\<close>

definition kafka_running :: "kafka_consumer \<Rightarrow> bool" where
  "kafka_running imp = (case imp of None \<Rightarrow> False | Some c \<Rightarrow> start_flag c)"

definition kafka_control :: "bool \<Rightarrow> rk_lib \<Rightarrow> kafka_consumer control_ops" where
  "kafka_control cb lib = \<lparr>op_start = KConsumer_start cb lib, op_stop = KConsumer_stop cb lib,
     op_pause = KConsumer_pause lib, op_resume = KConsumer_resume lib\<rparr>"

lemma control_flags:
  "start_flag (snd (pause lib ts c)) = start_flag c" "fst (pause lib ts c) \<Longrightarrow> start_flag c"
  "start_flag (snd (resume lib ts c)) = start_flag c" "fst (resume lib ts c) \<Longrightarrow> start_flag c"
  "\<not> fst (start cb lib c) \<Longrightarrow> start_flag (snd (start cb lib c)) = start_flag c"
  by (auto simp: pause_def resume_def start_def Let_def emit_def split: if_splits)

interpretation kafka_consumer_imp: consumer_interface "\<lambda>imp. True" kafka_running "kafka_control cb lib"
  for cb and lib :: rk_lib
  by unfold_locales
    (auto simp: kafka_control_def kafka_running_def KConsumer_start_def KConsumer_stop_def
      KConsumer_pause_def KConsumer_resume_def stop_flags control_flags case_prod_unfold Let_def
      split: option.splits)

end
