(* ===== verification/Lock_Machine.thy ===== *)
theory Lock_Machine
  imports Qbus_Prelude
begin

text \<open>
  Threads that share a state and guard it with one mutex, at the granularity of single statements.
  The code of a thread is a list of statements outside the mutex (\<open>Plain\<close>) and of sections inside
  it (\<open>Guarded\<close>); a section is a small machine with local variables \<open>'l\<close>, which ends when its
  transition has no successor. A section begins only when no thread owns the mutex, as
  \<open>pthread_mutex_lock\<close> promises, and any thread may take the next step.

  The locale \<open>critical_sections\<close> states what makes sections atomic: the statements outside leave the
  guarded part of the state (\<open>view\<close>) alone, and \<open>whole\<close> says what the rest of a section does, to the
  guarded part as a function of that part alone. From these laws every execution is, on the guarded
  part, an execution in which each section runs in one piece, in the order in which the mutex was
  taken (\<open>serialised\<close>), and every such order is possible (\<open>serial_run\<close>).
\<close>

datatype ('f, 'op) item = Plain 'f | Guarded 'op

record ('s, 'l, 'f, 'op) machine =
  shared :: 's
  owner :: "nat option"
  inside :: "nat \<Rightarrow> 'l option"
  code :: "nat \<Rightarrow> ('f, 'op) item list"

text \<open>A step with the items that it begins, by thread.\<close>

inductive machine_step ::
  "('f \<Rightarrow> 's \<Rightarrow> 's) \<Rightarrow> ('op \<Rightarrow> 'l) \<Rightarrow> ('l \<Rightarrow> 's \<Rightarrow> ('l \<times> 's) option) \<Rightarrow>
   ('s, 'l, 'f, 'op) machine \<Rightarrow> (nat \<times> ('f, 'op) item) list \<Rightarrow> ('s, 'l, 'f, 'op) machine \<Rightarrow> bool"
  for plain enter transit where
  plain_step: "inside m i = None \<Longrightarrow> code m i = Plain f # rest \<Longrightarrow>
    machine_step plain enter transit m [(i, Plain f)]
      (m\<lparr>shared := plain f (shared m), code := (code m)(i := rest)\<rparr>)"
| acquire_step: "owner m = None \<Longrightarrow> inside m i = None \<Longrightarrow> code m i = Guarded op # rest \<Longrightarrow>
    machine_step plain enter transit m [(i, Guarded op)]
      (m\<lparr>owner := Some i, inside := (inside m)(i \<mapsto> enter op), code := (code m)(i := rest)\<rparr>)"
| work_step: "inside m i = Some l \<Longrightarrow> transit l (shared m) = Some (l', s') \<Longrightarrow>
    machine_step plain enter transit m [] (m\<lparr>shared := s', inside := (inside m)(i \<mapsto> l')\<rparr>)"
| release_step: "inside m i = Some l \<Longrightarrow> transit l (shared m) = None \<Longrightarrow>
    machine_step plain enter transit m [] (m\<lparr>owner := None, inside := (inside m)(i := None)\<rparr>)"

inductive machine_run ::
  "('f \<Rightarrow> 's \<Rightarrow> 's) \<Rightarrow> ('op \<Rightarrow> 'l) \<Rightarrow> ('l \<Rightarrow> 's \<Rightarrow> ('l \<times> 's) option) \<Rightarrow>
   ('s, 'l, 'f, 'op) machine \<Rightarrow> (nat \<times> ('f, 'op) item) list \<Rightarrow> ('s, 'l, 'f, 'op) machine \<Rightarrow> bool"
  for plain enter transit where
  run_refl: "machine_run plain enter transit m [] m"
| run_step: "machine_run plain enter transit m tr m1 \<Longrightarrow> machine_step plain enter transit m1 ev m2 \<Longrightarrow>
    machine_run plain enter transit m (tr @ ev) m2"

lemma run_single: "machine_step plain enter transit m ev m' \<Longrightarrow> machine_run plain enter transit m ev m'"
  using run_step [OF run_refl] by fastforce

lemma run_trans:
  assumes "machine_run plain enter transit m1 tr1 m2" and "machine_run plain enter transit m2 tr2 m3"
  shows "machine_run plain enter transit m1 (tr1 @ tr2) m3"
  using assms(2,1)
proof (induction rule: machine_run.induct)
  case run_step
  then show ?case by (metis append.assoc machine_run.run_step)
qed simp

definition at_rest :: "('s, 'l, 'f, 'op) machine \<Rightarrow> bool" where
  "at_rest m \<longleftrightarrow> owner m = None \<and> (\<forall>i. inside m i = None)"

text \<open>The mutex has an owner exactly when a thread is in a section, and that thread is it.\<close>

definition exclusive :: "('s, 'l, 'f, 'op) machine \<Rightarrow> bool" where
  "exclusive m \<longleftrightarrow> (\<forall>i. inside m i \<noteq> None \<longleftrightarrow> owner m = Some i)"

lemma exclusive_at_rest: "exclusive m \<Longrightarrow> owner m = None \<longleftrightarrow> at_rest m"
  unfolding exclusive_def at_rest_def by (metis not_None_eq)

lemma exclusive_step: "machine_step plain enter transit m ev m' \<Longrightarrow> exclusive m \<Longrightarrow> exclusive m'"
proof (induction rule: machine_step.induct)
  case (release_step m i l)
  then have "owner m = Some i" by (metis exclusive_def option.distinct(1))
  with release_step.prems show ?case by (auto simp: exclusive_def)
qed (auto simp: exclusive_def split: if_splits)

lemma exclusive_run: "machine_run plain enter transit m tr m' \<Longrightarrow> exclusive m \<Longrightarrow> exclusive m'"
  by (induction rule: machine_run.induct) (auto intro: exclusive_step)

text \<open>Every thread begins its items in the order of its code.\<close>

definition items_of :: "nat \<Rightarrow> (nat \<times> 'a) list \<Rightarrow> 'a list" where
  "items_of i tr = map snd (filter (\<lambda>x. fst x = i) tr)"

lemma items_of_simps [simp]:
  "items_of i [] = []"
  "items_of i ((j, x) # tr) = (if j = i then x # items_of i tr else items_of i tr)"
  "items_of i (tr @ tr') = items_of i tr @ items_of i tr'"
  by (simp_all add: items_of_def)

lemma code_step:
  "machine_step plain enter transit m ev m' \<Longrightarrow> code m i = items_of i ev @ code m' i"
  by (induction rule: machine_step.induct) auto

lemma code_run:
  "machine_run plain enter transit m tr m' \<Longrightarrow> code m i = items_of i tr @ code m' i"
  by (induction rule: machine_run.induct) (auto dest: code_step)

locale critical_sections =
  fixes plain :: "'f \<Rightarrow> 's \<Rightarrow> 's"
    and enter :: "'op \<Rightarrow> 'l"
    and transit :: "'l \<Rightarrow> 's \<Rightarrow> ('l \<times> 's) option"
    and view :: "'s \<Rightarrow> 'v"
    and whole :: "'l \<Rightarrow> 's \<Rightarrow> 's"
    and rank :: "'l \<Rightarrow> 's \<Rightarrow> nat"
  assumes plain_view: "view (plain f s) = view s"
    and whole_view: "view s = view t \<Longrightarrow> view (whole l s) = view (whole l t)"
    and whole_end: "transit l s = None \<Longrightarrow> whole l s = s"
    and whole_step: "transit l s = Some (l', s') \<Longrightarrow> whole l' s' = whole l s"
    and rank_step: "transit l s = Some (l', s') \<Longrightarrow> rank l' s' < rank l s"
begin

text \<open>An item in one piece.\<close>

definition item_run :: "(nat \<times> ('f, 'op) item) \<Rightarrow> 's \<Rightarrow> 's" where
  "item_run x s = (case snd x of Plain f \<Rightarrow> plain f s | Guarded op \<Rightarrow> whole (enter op) s)"

lemma view_item_run: "view s = view t \<Longrightarrow> view (item_run x s) = view (item_run x t)"
  by (cases "snd x") (simp_all add: item_run_def plain_view whole_view [of s t])

text \<open>The guarded state once the section that is running has ended.\<close>

definition settled :: "('s, 'l, 'f, 'op) machine \<Rightarrow> 'v" where
  "settled m = (case owner m of None \<Rightarrow> view (shared m)
     | Some i \<Rightarrow> (case inside m i of None \<Rightarrow> view (shared m)
                  | Some l \<Rightarrow> view (whole l (shared m))))"

lemma settled_step:
  assumes "machine_step plain enter transit m ev m'" and "exclusive m" and "settled m = view s"
  shows "settled m' = view (fold item_run ev s)"
  using assms
proof (cases rule: machine_step.cases)
  case (plain_step i f rest)
  have "settled m' = settled m"
    using plain_step
    by (auto simp: settled_def plain_view whole_view [OF plain_view] split: option.split)
  with plain_step assms(3) show ?thesis by (simp add: item_run_def plain_view)
next
  case (acquire_step i op rest)
  with assms(3) whole_view [of "shared m" s] show ?thesis by (simp add: settled_def item_run_def)
next
  case (work_step i l l' s')
  with assms(2) have "owner m = Some i" by (metis exclusive_def option.distinct(1))
  with work_step assms(3) show ?thesis by (simp add: settled_def whole_step)
next
  case (release_step i l)
  with assms(2) have "owner m = Some i" by (metis exclusive_def option.distinct(1))
  with release_step assms(3) show ?thesis by (simp add: settled_def whole_end)
qed

lemma settled_run:
  "machine_run plain enter transit m tr m' \<Longrightarrow> exclusive m \<Longrightarrow> settled m = view s \<Longrightarrow>
     settled m' = view (fold item_run tr s)"
  by (induction rule: machine_run.induct) (auto simp: settled_step exclusive_run)

text \<open>The executions with the mutex free at both ends are those of whole items.\<close>

lemma serialised:
  assumes "machine_run plain enter transit m tr m'" and "at_rest m" and "owner m' = None"
  shows "view (shared m') = view (fold item_run tr (shared m))" "at_rest m'"
proof -
  have e: "exclusive m" using assms(2) by (simp add: exclusive_def at_rest_def)
  with assms(1) have e': "exclusive m'" by (rule exclusive_run)
  from settled_run [OF assms(1) e, of "shared m"] assms(2,3)
  show "view (shared m') = view (fold item_run tr (shared m))"
    by (simp add: settled_def at_rest_def)
  from e' assms(3) show "at_rest m'" by (simp add: exclusive_at_rest)
qed

text \<open>No deadlock: as long as a thread has something left to do, some thread can take a step.\<close>

lemma not_stuck:
  assumes "exclusive m" and "inside m i \<noteq> None \<or> code m i \<noteq> []"
  shows "\<exists>ev m'. machine_step plain enter transit m ev m'"
proof (cases "owner m")
  case None
  with assms have ins: "inside m i = None" "code m i \<noteq> []" by (auto simp: exclusive_def)
  then obtain x rest where c: "code m i = x # rest" by (cases "code m i") auto
  show ?thesis
  proof (cases x)
    case (Plain f)
    with ins c plain_step show ?thesis by metis
  next
    case (Guarded op)
    with None ins c acquire_step show ?thesis by metis
  qed
next
  case (Some j)
  with assms(1) obtain l where l: "inside m j = Some l" unfolding exclusive_def by blast
  show ?thesis
  proof (cases "transit l (shared m)")
    case None
    with l release_step show ?thesis by metis
  next
    case (Some x)
    with l work_step show ?thesis by (metis prod.exhaust)
  qed
qed

text \<open>A section that runs alone ends, in the state of the whole.\<close>

lemma section_ends:
  "inside m i = Some l \<Longrightarrow> owner m = Some i \<Longrightarrow>
     machine_run plain enter transit m []
       (m\<lparr>shared := whole l (shared m), owner := None, inside := (inside m)(i := None)\<rparr>)"
proof (induction "rank l (shared m)" arbitrary: l m rule: less_induct)
  case less
  show ?case
  proof (cases "transit l (shared m)")
    case None
    then show ?thesis
      using run_single [OF machine_step.release_step [where transit = transit, OF less.prems(1) None]]
      by (simp add: whole_end)
  next
    case (Some x)
    obtain l' s' where x: "x = (l', s')" by force
    let ?m = "m\<lparr>shared := s', inside := (inside m)(i \<mapsto> l')\<rparr>"
    have s: "machine_run plain enter transit m [] ?m"
      using run_single [OF machine_step.work_step [where transit = transit, OF less.prems(1) Some [unfolded x]]] .
    have "rank l' s' < rank l (shared m)" using rank_step Some x by simp
    then have "machine_run plain enter transit ?m []
        (?m\<lparr>shared := whole l' s', owner := None, inside := (inside ?m)(i := None)\<rparr>)"
      using less.hyps [of l' ?m] less.prems by simp
    with run_trans [OF s] Some x show ?thesis by (fastforce simp: whole_step)
  qed
qed

text \<open>Conversely, every order of whole items that respects the codes of the threads is possible.\<close>

lemma item_alone:
  assumes "at_rest m" and "code m i = x # rest"
  shows "machine_run plain enter transit m [(i, x)]
     (m\<lparr>shared := item_run (i, x) (shared m), code := (code m)(i := rest)\<rparr>)"
proof (cases x)
  case (Plain f)
  with assms run_single [OF plain_step [of m i f rest]] show ?thesis
    by (simp add: at_rest_def item_run_def)
next
  case (Guarded op)
  let ?m = "m\<lparr>owner := Some i, inside := (inside m)(i \<mapsto> enter op), code := (code m)(i := rest)\<rparr>"
  have r: "owner m = None" "inside m = (\<lambda>_. None)" using assms(1) by (auto simp: at_rest_def)
  then have "machine_run plain enter transit m [(i, Guarded op)] ?m"
    using run_single [OF acquire_step [of m i op rest]] assms(2) Guarded by (simp add: at_rest_def)
  from run_trans [OF this section_ends [of ?m i "enter op"]]
  have "machine_run plain enter transit m [(i, Guarded op)] (?m\<lparr>shared := whole (enter op) (shared m),
      owner := None, inside := (inside ?m)(i := None)\<rparr>)" by simp
  moreover have "?m\<lparr>shared := whole (enter op) (shared m), owner := None,
      inside := (inside ?m)(i := None)\<rparr> =
    m\<lparr>shared := item_run (i, x) (shared m), code := (code m)(i := rest)\<rparr>"
    using r Guarded by (cases m) (auto simp: item_run_def)
  ultimately show ?thesis using Guarded by simp
qed

lemma serial_run:
  assumes "at_rest m" and "\<forall>i. \<exists>rest. code m i = items_of i tr @ rest"
  shows "\<exists>m'. machine_run plain enter transit m tr m' \<and> at_rest m' \<and>
     shared m' = fold item_run tr (shared m)"
  using assms
proof (induction tr arbitrary: m)
  case Nil
  then show ?case using run_refl by fastforce
next
  case (Cons x tr)
  obtain i y where x: "x = (i, y)" by force
  obtain rest where c: "code m i = y # items_of i tr @ rest"
    using spec [OF Cons.prems(2), of i] x by auto
  let ?m = "m\<lparr>shared := item_run (i, y) (shared m), code := (code m)(i := items_of i tr @ rest)\<rparr>"
  have a: "machine_run plain enter transit m [(i, y)] ?m" by (rule item_alone [OF Cons.prems(1) c])
  have "\<exists>r. code ?m j = items_of j tr @ r" for j
    using spec [OF Cons.prems(2), of j] x by (cases "j = i") simp_all
  then obtain m' where "machine_run plain enter transit ?m tr m'" "at_rest m'"
    "shared m' = fold item_run tr (shared ?m)"
    using Cons.IH [of ?m] Cons.prems(1) by (force simp: at_rest_def)
  moreover from this(1) have "machine_run plain enter transit m (x # tr) m'"
    using run_trans [OF a] x by fastforce
  ultimately show ?case using x by auto
qed

end

end
