(* ===== verification/Kafka_Locking.thy ===== *)
theory Kafka_Locking
  imports Kafka_Consumer_Props Kafka_Thread Lock_Machine
begin

text \<open>
  The offset tables of the Kafka consumer under \<open>wait_commit_msgs_mutex_\<close> (kafka/qbus_consumer.cc). The
  functions of Kafka_Offsets are split into what they do before they lock, reading the message for
  its key, and the statements inside the lock, one transition of \<open>section_step\<close> each; a program
  point carries the local variables that are live there. Lock_Machine interleaves the statements of
  any number of threads.
\<close>

section \<open>Program points\<close>

datatype table_op = AddCommit rk_message | AddDestroy rk_message | RemoveWaiting rk_message | Flush | Clear

datatype section_pc =
    FindCommit rk_message
  | FreeReplaced rk_message rk_message                 \<comment> \<open>and the message found in the table\<close>
  | StoreCommit rk_message
  | FindDestroy rk_message
  | PushBack rk_message "rk_message list"              \<comment> \<open>and the vector found\<close>
  | InsertNew rk_message
  | FindRemove rk_message
  | FreeBefore string "rk_message list" "rk_message list"
    \<comment> \<open>the key, what is left before the one found, and what follows it\<close>
  | FlushBegin
  | FlushNext "(string \<times> rk_message) list"
  | FlushFree rk_message "(string \<times> rk_message) list"
  | ClearBegin
  | ClearNext "rk_message list"
  | SectionEnd

definition section_enter :: "table_op \<Rightarrow> section_pc" where
  "section_enter op = (case op of AddCommit m \<Rightarrow> FindCommit m | AddDestroy m \<Rightarrow> FindDestroy m
     | RemoveWaiting m \<Rightarrow> FindRemove m | Flush \<Rightarrow> FlushBegin | Clear \<Rightarrow> ClearBegin)"

fun section_step ::
  "section_pc \<Rightarrow> 'a offset_tables_scheme \<Rightarrow> (section_pc \<times> 'a offset_tables_scheme) option" where
  "section_step (FindCommit m) c =
     Some (case map_of (wait_commit_msgs c) (getWaitOffsetKey m) of
             Some old \<Rightarrow> FreeReplaced m old | None \<Rightarrow> StoreCommit m, c)"
| "section_step (FreeReplaced m old) c = Some (StoreCommit m, emit (MessageDestroy (m_ptr old)) c)"
| "section_step (StoreCommit m) c =
     Some (SectionEnd, c\<lparr>wait_commit_msgs := smap_assign (getWaitOffsetKey m) m (wait_commit_msgs c)\<rparr>)"
| "section_step (FindDestroy m) c =
     Some (case map_of (wait_destroy_msgs_for_uncommit c) (getWaitOffsetKey m) of
             Some msgs \<Rightarrow> PushBack m msgs | None \<Rightarrow> InsertNew m, c)"
| "section_step (PushBack m msgs) c =
     Some (SectionEnd, c\<lparr>wait_destroy_msgs_for_uncommit :=
       smap_assign (getWaitOffsetKey m) (msgs @ [m]) (wait_destroy_msgs_for_uncommit c)\<rparr>)"
| "section_step (InsertNew m) c =
     Some (SectionEnd, c\<lparr>wait_destroy_msgs_for_uncommit :=
       smap_insert (getWaitOffsetKey m) [m] (wait_destroy_msgs_for_uncommit c)\<rparr>)"
| "section_step (FindRemove m) c =
     Some (case map_of (wait_destroy_msgs_for_uncommit c) (getWaitOffsetKey m) of
             None \<Rightarrow> SectionEnd
           | Some msgs \<Rightarrow>
               (case dropWhile (\<lambda>x. m_ptr x \<noteq> m_ptr m) msgs of
                  [] \<Rightarrow> SectionEnd
                | f # rest \<Rightarrow> FreeBefore (getWaitOffsetKey m)
                    (takeWhile (\<lambda>x. m_ptr x \<noteq> m_ptr m) msgs) rest), c)"
| "section_step (FreeBefore k (x # xs) rest) c =
     Some (FreeBefore k xs rest, emit (MessageDestroy (m_ptr x)) c)"
| "section_step (FreeBefore k [] rest) c =
     Some (SectionEnd, c\<lparr>wait_destroy_msgs_for_uncommit :=
       smap_assign k rest (wait_destroy_msgs_for_uncommit c)\<rparr>)"
| "section_step FlushBegin c = Some (FlushNext (wait_commit_msgs c), c)"
| "section_step (FlushNext ((k, m) # xs)) c = Some (FlushFree m xs, manualCommitOffset m c)"
| "section_step (FlushFree m xs) c = Some (FlushNext xs, emit (MessageDestroy (m_ptr m)) c)"
| "section_step (FlushNext []) c = Some (SectionEnd, c\<lparr>wait_commit_msgs := []\<rparr>)"
| "section_step ClearBegin c =
     Some (ClearNext (concat (map snd (wait_destroy_msgs_for_uncommit c))), c)"
| "section_step (ClearNext (m # ms)) c = Some (ClearNext ms, emit (MessageDestroy (m_ptr m)) c)"
| "section_step (ClearNext []) c = Some (SectionEnd, c)"
| "section_step SectionEnd c = None"

text \<open>What a thread does to messages without the mutex: it reads one for its key, receives one from a
  poll, or hands one to the user.\<close>

datatype outside = ReadsKey rk_message | Receives rk_message | Delivers rk_message

definition outside_run :: "outside \<Rightarrow> 'a offset_tables_scheme \<Rightarrow> 'a offset_tables_scheme" where
  "outside_run f c = (case f of ReadsKey m \<Rightarrow> emit (MessageRead (m_ptr m)) c
     | Receives m \<Rightarrow> emit (PollReturned (Some m)) c
     | Delivers m \<Rightarrow>
         emit (DeliveryMsgForCommitOffset m (topic_of m) (payload_of m) (length (payload_of m))) c)"

section \<open>The rest of a section\<close>

definition flush_rest :: "(string \<times> rk_message) list \<Rightarrow> 'a offset_tables_scheme \<Rightarrow> 'a offset_tables_scheme" where
  "flush_rest xs c =
     (foldl (\<lambda>c (k, m). emit (MessageDestroy (m_ptr m)) (manualCommitOffset m c)) c xs)
       \<lparr>wait_commit_msgs := []\<rparr>"

fun section_whole :: "section_pc \<Rightarrow> 'a offset_tables_scheme \<Rightarrow> 'a offset_tables_scheme" where
  "section_whole (FindCommit m) c =
     (case map_of (wait_commit_msgs c) (getWaitOffsetKey m) of
        Some old \<Rightarrow> emit (MessageDestroy (m_ptr old)) c | None \<Rightarrow> c)
       \<lparr>wait_commit_msgs := smap_assign (getWaitOffsetKey m) m (wait_commit_msgs c)\<rparr>"
| "section_whole (FreeReplaced m old) c = (emit (MessageDestroy (m_ptr old)) c)
       \<lparr>wait_commit_msgs := smap_assign (getWaitOffsetKey m) m (wait_commit_msgs c)\<rparr>"
| "section_whole (StoreCommit m) c =
     c\<lparr>wait_commit_msgs := smap_assign (getWaitOffsetKey m) m (wait_commit_msgs c)\<rparr>"
| "section_whole (FindDestroy m) c = c\<lparr>wait_destroy_msgs_for_uncommit :=
     (case map_of (wait_destroy_msgs_for_uncommit c) (getWaitOffsetKey m) of
        Some msgs \<Rightarrow> smap_assign (getWaitOffsetKey m) (msgs @ [m]) (wait_destroy_msgs_for_uncommit c)
      | None \<Rightarrow> smap_insert (getWaitOffsetKey m) [m] (wait_destroy_msgs_for_uncommit c))\<rparr>"
| "section_whole (PushBack m msgs) c = c\<lparr>wait_destroy_msgs_for_uncommit :=
     smap_assign (getWaitOffsetKey m) (msgs @ [m]) (wait_destroy_msgs_for_uncommit c)\<rparr>"
| "section_whole (InsertNew m) c = c\<lparr>wait_destroy_msgs_for_uncommit :=
     smap_insert (getWaitOffsetKey m) [m] (wait_destroy_msgs_for_uncommit c)\<rparr>"
| "section_whole (FindRemove m) c =
     (case map_of (wait_destroy_msgs_for_uncommit c) (getWaitOffsetKey m) of
        None \<Rightarrow> c
      | Some msgs \<Rightarrow>
          (case dropWhile (\<lambda>x. m_ptr x \<noteq> m_ptr m) msgs of
             [] \<Rightarrow> c
           | f # rest \<Rightarrow> (destroy_all (takeWhile (\<lambda>x. m_ptr x \<noteq> m_ptr m) msgs) c)
               \<lparr>wait_destroy_msgs_for_uncommit :=
                  smap_assign (getWaitOffsetKey m) rest (wait_destroy_msgs_for_uncommit c)\<rparr>))"
| "section_whole (FreeBefore k xs rest) c = (destroy_all xs c)
     \<lparr>wait_destroy_msgs_for_uncommit := smap_assign k rest (wait_destroy_msgs_for_uncommit c)\<rparr>"
| "section_whole FlushBegin c = flush_rest (wait_commit_msgs c) c"
| "section_whole (FlushNext xs) c = flush_rest xs c"
| "section_whole (FlushFree m xs) c = flush_rest xs (emit (MessageDestroy (m_ptr m)) c)"
| "section_whole ClearBegin c = destroy_all (concat (map snd (wait_destroy_msgs_for_uncommit c))) c"
| "section_whole (ClearNext ms) c = destroy_all ms c"
| "section_whole SectionEnd c = c"

fun section_rank :: "section_pc \<Rightarrow> 'a offset_tables_scheme \<Rightarrow> nat" where
  "section_rank (FindCommit m) c = 3"
| "section_rank (FreeReplaced m old) c = 2"
| "section_rank (StoreCommit m) c = 1"
| "section_rank (FindDestroy m) c = 2"
| "section_rank (PushBack m msgs) c = 1"
| "section_rank (InsertNew m) c = 1"
| "section_rank (FindRemove m) c =
     (case map_of (wait_destroy_msgs_for_uncommit c) (getWaitOffsetKey m) of
        None \<Rightarrow> 2 | Some msgs \<Rightarrow> length msgs + 2)"
| "section_rank (FreeBefore k xs rest) c = length xs + 1"
| "section_rank FlushBegin c = 2 * length (wait_commit_msgs c) + 2"
| "section_rank (FlushNext xs) c = 2 * length xs + 1"
| "section_rank (FlushFree m xs) c = 2 * length xs + 2"
| "section_rank ClearBegin c = length (concat (map snd (wait_destroy_msgs_for_uncommit c))) + 2"
| "section_rank (ClearNext ms) c = length ms + 1"
| "section_rank SectionEnd c = 0"

text \<open>What the mutex guards: the two tables, and the commits and frees, in their order.\<close>

fun table_call :: "rk_call \<Rightarrow> bool" where
  "table_call (CommitMessage _) = True"
| "table_call (MessageDestroy _) = True"
| "table_call _ = False"

definition guarded :: "'a offset_tables_scheme \<Rightarrow>
    (string \<times> rk_message) list \<times> (string \<times> rk_message list) list \<times> rk_call list" where
  "guarded c = (wait_commit_msgs c, wait_destroy_msgs_for_uncommit c, filter table_call (calls c))"

lemma guarded_emit: "guarded (emit x c) = (wait_commit_msgs c, wait_destroy_msgs_for_uncommit c,
    filter table_call (calls c) @ (if table_call x then [x] else []))"
  by (simp add: guarded_def)

lemma filter_destroys [simp]:
  "filter table_call (map (MessageDestroy \<circ> m_ptr) ms) = map (MessageDestroy \<circ> m_ptr) ms"
  by (induction ms) auto

lemma filter_commits [simp]:
  "filter table_call (concat (map (\<lambda>(k, m). [CommitMessage m, MessageDestroy (m_ptr m)]) xs)) =
     concat (map (\<lambda>(k, m). [CommitMessage m, MessageDestroy (m_ptr m)]) xs)"
  by (induction xs) auto

lemma calls_flush_rest [simp]:
  "calls (flush_rest xs c) = calls c @ concat (map (\<lambda>(k, m). [CommitMessage m, MessageDestroy (m_ptr m)]) xs)"
  by (simp add: flush_rest_def calls_commit_loop)

lemma tables_flush_rest [simp]:
  "wait_commit_msgs (flush_rest xs c) = []"
  "wait_destroy_msgs_for_uncommit (flush_rest xs c) = wait_destroy_msgs_for_uncommit c"
  by (simp_all add: flush_rest_def)

interpretation tables: critical_sections outside_run section_enter section_step guarded section_whole
  section_rank
proof unfold_locales
  fix f and c :: "'a offset_tables_scheme"
  show "guarded (outside_run f c) = guarded c"
    by (cases f) (simp_all add: outside_run_def guarded_def)
next
  fix l and c d :: "'a offset_tables_scheme"
  assume "guarded c = guarded d"
  then show "guarded (section_whole l c) = guarded (section_whole l d)"
    by (cases l) (simp_all add: guarded_def del: dropWhile_eq_Nil_conv split: option.split list.split)
next
  fix l and c :: "'a offset_tables_scheme"
  assume "section_step l c = None"
  then show "section_whole l c = c" by (cases "(l, c)" rule: section_step.cases) simp_all
next
  fix l l' and c c' :: "'a offset_tables_scheme"
  assume s: "section_step l c = Some (l', c')"
  then show "section_whole l' c' = section_whole l c"
    by (cases "(l, c)" rule: section_step.cases)
       (auto simp: flush_rest_def simp del: dropWhile_eq_Nil_conv split: option.splits list.splits)
  show "section_rank l' c' < section_rank l c"
    using s by (cases "(l, c)" rule: section_step.cases)
      (auto split: option.splits list.splits simp: less_Suc_eq_le length_takeWhile_le
        simp del: dropWhile_eq_Nil_conv)
qed

section \<open>The functions of the source\<close>

definition table_op_code :: "rk_lib \<Rightarrow> table_op \<Rightarrow> 'a offset_tables_scheme \<Rightarrow> 'a offset_tables_scheme" where
  "table_op_code lib op c = (case op of
      AddCommit m \<Rightarrow> addWaitCommitOffset m c
    | AddDestroy m \<Rightarrow> addWaitDestroyMsgs m c
    | RemoveWaiting m \<Rightarrow> removeWaitDestroyMsgs m c
    | Flush \<Rightarrow> manualCommitWaitOffset lib True c
    | Clear \<Rightarrow> clearWaitDestroyMsgs c)"

definition locked_item ::
  "rk_lib \<Rightarrow> nat \<times> (outside, table_op) item \<Rightarrow> 'a offset_tables_scheme \<Rightarrow> 'a offset_tables_scheme" where
  "locked_item lib x c = (case snd x of Plain f \<Rightarrow> outside_run f c | Guarded op \<Rightarrow> table_op_code lib op c)"

lemma section_addWaitCommitOffset:
  "addWaitCommitOffset m c = section_whole (FindCommit m) (outside_run (ReadsKey m) c)"
  by (simp add: addWaitCommitOffset_def Let_def outside_run_def split: option.split)

lemma section_addWaitDestroyMsgs:
  "addWaitDestroyMsgs m c = section_whole (FindDestroy m) (outside_run (ReadsKey m) c)"
  by (simp add: addWaitDestroyMsgs_def Let_def outside_run_def split: option.split)

lemma section_removeWaitDestroyMsgs:
  "removeWaitDestroyMsgs m c = section_whole (FindRemove m) (outside_run (ReadsKey m) c)"
  by (simp add: removeWaitDestroyMsgs_def Let_def outside_run_def split: option.split list.split)

lemma section_manualCommitWaitOffset:
  "manualCommitWaitOffset lib True c =
     (section_whole FlushBegin (emit GetTimeOfDay c))\<lparr>last_commit_ms := now_ms lib c\<rparr>"
  by (simp add: manualCommitWaitOffset_def getCurrentTimeMs_eq Let_def flush_rest_def)

lemma section_clearWaitDestroyMsgs: "clearWaitDestroyMsgs c = section_whole ClearBegin c"
proof -
  have "foldl (\<lambda>c (k, ms). destroy_all ms c) c xs = destroy_all (concat (map snd xs)) c" for xs
    by (induction xs arbitrary: c) (auto simp: destroy_all_def)
  then show ?thesis by (simp add: clearWaitDestroyMsgs_def)
qed

lemma guarded_table_op:
  "guarded (table_op_code lib op c) = guarded (section_whole (section_enter op) c)"
proof (cases op)
  case Flush
  have "guarded (emit GetTimeOfDay c) = guarded c" by (simp add: guarded_def)
  from tables.whole_view [OF this, of FlushBegin] Flush show ?thesis
    by (simp add: table_op_code_def section_enter_def section_manualCommitWaitOffset guarded_def)
qed (simp_all only: table_op_code_def section_enter_def section_addWaitCommitOffset
  section_addWaitDestroyMsgs section_removeWaitDestroyMsgs section_clearWaitDestroyMsgs table_op.case
  tables.whole_view [OF tables.plain_view])

lemma guarded_items:
  fixes c d :: "'a offset_tables_scheme"
  shows "guarded c = guarded d \<Longrightarrow>
     guarded (fold (locked_item lib) tr c) = guarded (fold tables.item_run tr d)"
proof (induction tr arbitrary: c d)
  case (Cons x tr)
  have "guarded (locked_item lib x c) = guarded (tables.item_run x c)"
    by (cases "snd x") (simp_all add: locked_item_def tables.item_run_def guarded_table_op)
  then show ?case using tables.view_item_run [OF Cons.prems, of x] by (simp add: Cons.IH)
qed simp

text \<open>\<open>commitOffset\<close> of the user-commit mode, as the code of a thread.\<close>

definition commit_code :: "rk_message \<Rightarrow> (outside, table_op) item list" where
  "commit_code m = [Plain (ReadsKey m), Guarded (AddCommit m), Plain (ReadsKey m), Guarded (RemoveWaiting m)]"

lemma commit_code_sequential:
  assumes "is_user_manual_commit_offset c"
  shows "fold tables.item_run (map (Pair i) (commit_code m)) c = commitOffset (Some m) c"
  using assms
  by (simp add: commit_code_def tables.item_run_def section_enter_def commitOffset_def
      section_addWaitCommitOffset section_removeWaitDestroyMsgs)

definition two_threads ::
  "'s \<Rightarrow> ('f, 'op) item list \<Rightarrow> ('f, 'op) item list \<Rightarrow> ('s, 'l, 'f, 'op) machine" where
  "two_threads s a b = \<lparr>shared = s, owner = None, inside = (\<lambda>_. None),
     code = (\<lambda>i. if i = 0 then a else if i = 1 then b else [])\<rparr>"

lemma two_threads_simps [simp]:
  "at_rest (two_threads s a b)" "shared (two_threads s a b) = s"
  "code (two_threads s a b) i = (if i = 0 then a else if i = 1 then b else [])"
  by (simp_all add: two_threads_def at_rest_def)

section \<open>The flag of the assignment\<close>

text \<open>\<open>has_assigned_\<close> has a mutex of its own; \<open>pause\<close> and \<open>resume\<close> read it, the rebalance callback sets it.\<close>

definition has_assigned_guarded ::
  "pthread_lib \<Rightarrow> nat \<Rightarrow> consumer \<Rightarrow> pthread_call list \<Rightarrow> bool run" where
  "has_assigned_guarded lib mtx c = with_guard lib mtx (\<lambda>log. Returns (has_assigned c) log)"

definition setHasAssigned ::
  "pthread_lib \<Rightarrow> nat \<Rightarrow> bool \<Rightarrow> consumer \<Rightarrow> pthread_call list \<Rightarrow> consumer run" where
  "setHasAssigned lib mtx b c = with_guard lib mtx (\<lambda>log. Returns (c\<lparr>has_assigned := b\<rparr>) log)"

lemma guarded_flag:
  assumes "setHasAssigned lib mtx b c log = Returns c' log'"
    and "has_assigned_guarded lib mtx c' log' = Returns b' log''" and "lock_state log = Some hs"
  shows "b' = b" "c' = c\<lparr>has_assigned := b\<rparr>" "lock_state log'' = Some hs"
proof -
  show "b' = b" "c' = c\<lparr>has_assigned := b\<rparr>"
    using assms(1,2)
    by (auto simp: setHasAssigned_def has_assigned_guarded_def with_guard_def run_then_def split: run.splits)
  have "balanced (setHasAssigned lib mtx b c)" "balanced (has_assigned_guarded lib mtx c')"
    unfolding setHasAssigned_def has_assigned_guarded_def by (rule balanced_intros)+
  with assms show "lock_state log'' = Some hs" unfolding balanced_def by metis
qed

section \<open>Properties\<close>

text \<open>C16: Under the mutex the functions on the offset tables are atomic. However the
  statements of any number of threads interleave, whenever the mutex is free the tables, the commits
  and the frees are those of running the functions one after the other in the order in which they
  took the mutex, and each thread has run its code in order.\<close>

theorem table_operations_serialise:
  assumes "machine_run outside_run section_enter section_step m tr m'" and "at_rest m"
    and "owner m' = None"
  shows "guarded (shared m') = guarded (fold (locked_item lib) tr (shared m)) \<and>
     (\<forall>i. code m i = items_of i tr @ code m' i)"
  using tables.serialised(1) [OF assms] guarded_items [OF refl, of lib tr "shared m"]
    code_run [OF assms(1)] by simp

theorem table_operations_serialise_witness:
  "\<exists>tr m'. machine_run outside_run section_enter section_step
       (two_threads (consumer_new ''c'' logger_start) [Guarded (AddCommit (demo_msg 1 ''t'' 0 7))]
          [Guarded (AddCommit (demo_msg 2 ''t'' 0 8))]) tr m' \<and>
     guarded (shared m') = guarded (addWaitCommitOffset (demo_msg 1 ''t'' 0 7)
       (addWaitCommitOffset (demo_msg 2 ''t'' 0 8) (consumer_new ''c'' logger_start)))"
proof -
  let ?a = "AddCommit (demo_msg 1 ''t'' 0 7)" and ?b = "AddCommit (demo_msg 2 ''t'' 0 8)"
  let ?tr = "[(1, Guarded ?b), (0, Guarded ?a)]"
    and ?m = "two_threads (consumer_new ''c'' logger_start) [Guarded ?a] [Guarded ?b]"
  have "\<forall>i. \<exists>rest. code ?m i = items_of i ?tr @ rest" by auto
  from tables.serial_run [OF _ this] obtain m' where
    m': "machine_run outside_run section_enter section_step ?m ?tr m'" "at_rest m'" by auto
  then have o: "owner m' = None" by (simp add: at_rest_def)
  from table_operations_serialise [OF m'(1) _ o, of quiet_lib]
  have "guarded (shared m') = guarded (addWaitCommitOffset (demo_msg 1 ''t'' 0 7)
      (addWaitCommitOffset (demo_msg 2 ''t'' 0 8) (consumer_new ''c'' logger_start)))"
    by (simp add: locked_item_def table_op_code_def)
  with m'(1) show ?thesis by blast
qed

text \<open>The threads never block each other for good: in every state that they can
  reach, one of them can take a step as long as one of them has something left to do.\<close>

theorem locked_threads_not_stuck:
  assumes "machine_run outside_run section_enter section_step m tr m'" and "at_rest m"
    and "inside m' i \<noteq> None \<or> code m' i \<noteq> []"
  shows "\<exists>ev m''. machine_step outside_run section_enter section_step m' ev m''"
proof (rule tables.not_stuck [OF exclusive_run [OF assms(1)] assms(3)])
  show "exclusive m" using assms(2) by (simp add: exclusive_def at_rest_def)
qed

theorem locked_threads_not_stuck_witness:
  "\<exists>ev m'. machine_step outside_run section_enter section_step
     (two_threads (consumer_new ''c'' logger_start) [Guarded Flush] [Guarded Clear]) ev m'"
  by (rule locked_threads_not_stuck [OF run_refl, of _ 0]) simp_all

text \<open>C31: \<open>commitOffset\<close> as a whole is not atomic: it reads the message again after it has
  stored it in the commit table. Called in a thread of the user's own, while the poll thread flushes
  that table in between, it reads freed memory.\<close>

theorem commitOffset_races_with_flush:
  assumes "owned {#} c" and "is_user_manual_commit_offset c" and "waiting m c"
    and "count (held c) (m_ptr m) = 1"
  shows "\<exists>tr m'. machine_run outside_run section_enter section_step
       (two_threads c (commit_code m) [Guarded Flush]) tr m' \<and> at_rest m' \<and> (\<forall>i. code m' i = []) \<and>
     lifetime (calls (shared m')) = None"
proof -
  let ?tr = "[(0, Plain (ReadsKey m)), (0, Guarded (AddCommit m)), (1, Guarded Flush),
    (0, Plain (ReadsKey m)), (0, Guarded (RemoveWaiting m))]"
  let ?m = "two_threads c (commit_code m) [Guarded Flush]"
  have "\<forall>i. \<exists>rest. code ?m i = items_of i ?tr @ rest" by (auto simp: commit_code_def)
  from tables.serial_run [OF _ this] obtain m' where
    m': "machine_run outside_run section_enter section_step ?m ?tr m'" "at_rest m'"
      "shared m' = fold tables.item_run ?tr c" by auto
  have "code m' i = []" for i
    using code_run [OF m'(1), of i] by (auto simp: commit_code_def split: if_splits)
  moreover have "lifetime (calls (shared m')) = None"
  proof -
    define a where "a = addWaitCommitOffset m c"
    have l: "tables_ok c" "lifetime (calls c) = Some (held_commit c + held_destroy c)"
      using assms(1) by (simp_all add: owned_def held_def)
    have w: "m_ptr m \<in># held_destroy c" using assms(3) by (rule waiting_held)
    from live_addWaitCommitOffset [OF l w]
    have "lifetime (calls a) = Some (held_commit a + (held_destroy c - {#m_ptr m#}))"
      by (simp add: a_def)
    then have "lifetime (calls (flush_rest (wait_commit_msgs a) a)) = Some (held_destroy c - {#m_ptr m#})"
      unfolding held_commit_def flush_rest_def by (simp add: live_commit_loop del: calls_commit_loop)
    moreover have "m_ptr m \<notin># held_destroy c - {#m_ptr m#}"
      using assms(4) w by (simp add: held_def not_in_iff count_greater_zero_iff [symmetric] del: count_greater_zero_iff)
    ultimately have "lifetime (calls (emit (MessageRead (m_ptr m)) (flush_rest (wait_commit_msgs a) a))) = None"
      by simp
    then have "lifetime (calls (removeWaitDestroyMsgs m (flush_rest (wait_commit_msgs a) a))) = None"
      using calls_removeWaitDestroyMsgs [of m "flush_rest (wait_commit_msgs a) a"]
      by (auto simp: live_step_None simp del: calls_flush_rest)
    moreover have "shared m' = removeWaitDestroyMsgs m (flush_rest (wait_commit_msgs a) a)"
      using m'(3) by (simp add: tables.item_run_def section_enter_def a_def
          section_addWaitCommitOffset section_removeWaitDestroyMsgs)
    ultimately show ?thesis by simp
  qed
  ultimately show ?thesis using m' by blast
qed

theorem commitOffset_races_with_flush_witness:
  "\<exists>tr m'. machine_run outside_run section_enter section_step
       (two_threads (demo_waiting [demo_msg 1 ''t'' 0 0]) (commit_code (demo_msg 1 ''t'' 0 0))
          [Guarded Flush]) tr m' \<and> lifetime (calls (shared m')) = None"
  using commitOffset_races_with_flush [OF demo_one_waiting] by blast

end
