(* ===== verification/Kafka_Consumer_Setup.thy ===== *)
theory Kafka_Consumer_Setup
  imports Kafka_Consumer_Props
begin

text \<open>
  What the set-up of the Kafka consumer leaves in librdkafka's configuration: which of the
  settings of the file survive, what is set by default and what the code overrides. The lemmas
  follow \<open>last_conf\<close> and \<open>last_topic_conf\<close>, the values last given to a property, through each part
  of \<open>initRdKafkaConfig\<close>.
\<close>

section \<open>Parts of the initialisation\<close>

lemma emit_consumer [simp]:
  "config (emit x c) = config c" "rd_kafka_conf (emit x c) = rd_kafka_conf c"
  "rd_kafka_topic_conf (emit x c) = rd_kafka_topic_conf c"
  "is_auto_commit_offset (emit x c) = is_auto_commit_offset c"
  by (simp_all add: emit_def)

lemma setRdKafkaConfig_consumer [simp]:
  "config (snd (setRdKafkaConfig lib b i v c)) = config c"
  "rd_kafka_conf (snd (setRdKafkaConfig lib b i v c)) = rd_kafka_conf c"
  "rd_kafka_topic_conf (snd (setRdKafkaConfig lib b i v c)) = rd_kafka_topic_conf c"
  "config (snd (setRdKafkaTopicConfig lib b i v c)) = config c"
  "rd_kafka_conf (snd (setRdKafkaTopicConfig lib b i v c)) = rd_kafka_conf c"
  "rd_kafka_topic_conf (snd (setRdKafkaTopicConfig lib b i v c)) = rd_kafka_topic_conf c"
  by (simp_all add: setRdKafkaConfig_def setRdKafkaTopicConfig_def)

lemma loadRdkafkaConfig_consumer [simp]:
  "config (loadRdkafkaConfig lib cfg b d c) = config c"
  "rd_kafka_conf (loadRdkafkaConfig lib cfg b d c) = rd_kafka_conf c"
  "rd_kafka_topic_conf (loadRdkafkaConfig lib cfg b d c) = rd_kafka_topic_conf c"
  unfolding loadRdkafkaConfig_def by (simp_all add: foldl_frame split: prod.split)

lemma setClientId_consumer [simp]:
  "config (setClientId lib b d c) = config c"
  "rd_kafka_conf (setClientId lib b d c) = rd_kafka_conf c"
  "rd_kafka_topic_conf (setClientId lib b d c) = rd_kafka_topic_conf c"
  by (simp_all add: setClientId_def)

lemma last_conf_setClientId [conf_simps]:
  "last_conf (calls (setClientId lib b d c)) item =
     (if b \<and> item = RD_KAFKA_CONFIG_CLIENT_ID
      then Some (if d then client_id_text (rk_gettid lib (calls c)) (rk_localtime lib (calls c))
                 else RD_KAFKA_CONFIG_CLIENT_ID_VALUE)
      else last_conf (calls c) item)"
  "last_topic_conf (calls (setClientId lib b d c)) item = last_topic_conf (calls c) item"
  by (auto simp: setClientId_def conf_simps RD_KAFKA_CONFIG_CLIENT_ID_def simp del: calls_emit)

lemma last_conf_init_offset_policy [conf_simps]:
  "last_conf (calls (snd (init_offset_policy lib c))) item = last_conf (calls c) item"
  "last_topic_conf (calls (snd (init_offset_policy lib c))) item =
     (if rd_kafka_topic_conf c \<and> item = RD_KAFKA_TOPIC_CONFIG_OFFSET_STORED_METHOD \<and>
         \<not> isSetConfig (config c) item True
      then Some RD_KAFKA_TOPIC_CONFIG_OFFSET_STORED_METHOD_BROKER
      else if rd_kafka_topic_conf c \<and> item = RD_KAFKA_TOPIC_CONFIG_AUTO_OFFSET_RESET \<and>
         \<not> isSetConfig (config c) item True
      then Some RD_KAFKA_TOPIC_CONFIG_AUTO_OFFSET_RESET_EARLIEST
      else last_topic_conf (calls c) item)"
  by (auto simp: init_offset_policy_def Let_def case_prod_unfold conf_simps conf_item_defs
      simp del: calls_emit)

lemma init_offset_policy_consumer [simp]:
  "config (snd (init_offset_policy lib c)) = config c"
  "rd_kafka_conf (snd (init_offset_policy lib c)) = rd_kafka_conf c"
  by (auto simp: init_offset_policy_def Let_def case_prod_unfold)

text \<open>The override of \<open>enable.auto.commit\<close> in the user-commit mode.\<close>

definition user_commit_setting :: "consumer \<Rightarrow> bool" where
  "user_commit_setting c \<longleftrightarrow>
     \<not> value_matches (getSdkConfig (config c) RD_KAFKA_SDK_USER_MANUAL_COMMIT_OFFSET DEFAULT_FALSE)
         DEFAULT_FALSE"

lemma last_conf_init_commit_mode [conf_simps]:
  "item \<noteq> RD_KAFKA_CONFIG_ENABLE_AUTO_COMMIT \<Longrightarrow>
     last_conf (calls (init_commit_mode lib c)) item = last_conf (calls c) item"
  "last_topic_conf (calls (init_commit_mode lib c)) item = last_topic_conf (calls c) item"
  by (auto simp: init_commit_mode_def Let_def conf_simps split: option.split simp del: calls_emit)

lemma init_commit_mode_consumer [simp]:
  "config (init_commit_mode lib c) = config c"
  "rd_kafka_conf (init_commit_mode lib c) = rd_kafka_conf c"
  by (auto simp: init_commit_mode_def Let_def split: option.split)

lemma last_conf_init_api_version [conf_simps]:
  "last_conf (calls (init_api_version lib c)) item =
     (if rd_kafka_conf c \<and> \<not> isSetConfig (config c) RD_KAFKA_CONFIG_API_VERSION_REQUEST False
      then if item = RD_KAFKA_CONFIG_BROKER_VERSION_FALLBACK
           then Some RD_KAFKA_CONFIG_BROKER_VERSION_FALLBACK_FOR_OLDER
           else if item = RD_KAFKA_CONFIG_API_VERSION_REQUEST
           then Some RD_KAFKA_CONFIG_API_VERSION_REQUEST_FOR_OLDER
           else last_conf (calls c) item
      else last_conf (calls c) item)"
  "last_topic_conf (calls (init_api_version lib c)) item = last_topic_conf (calls c) item"
  by (auto simp: init_api_version_def Let_def conf_simps conf_item_defs simp del: calls_emit)

lemma last_conf_init_topic_conf [conf_simps]:
  assumes "config_ok (config c)" and "rd_kafka_conf c" and "rd_kafka_topic_conf c"
    and "item \<noteq> ''''"
  shows "item \<noteq> RD_KAFKA_CONFIG_ENABLE_AUTO_COMMIT \<Longrightarrow> item \<noteq> RD_KAFKA_CONFIG_CLIENT_ID \<Longrightarrow>
      last_conf (calls (snd (init_topic_conf lib c))) item =
      (case map_of (set_global_config_items (config c)) item of
         Some v \<Rightarrow> Some v | None \<Rightarrow> last_conf (calls c) item)"
    and "last_topic_conf (calls (snd (init_topic_conf lib c))) item =
      (case map_of (set_topic_config_items (config c)) item of
         Some v \<Rightarrow> Some v
       | None \<Rightarrow> if item = RD_KAFKA_TOPIC_CONFIG_OFFSET_STORED_METHOD
                 then Some RD_KAFKA_TOPIC_CONFIG_OFFSET_STORED_METHOD_BROKER
                 else if item = RD_KAFKA_TOPIC_CONFIG_AUTO_OFFSET_RESET
                 then Some RD_KAFKA_TOPIC_CONFIG_AUTO_OFFSET_RESET_EARLIEST
                 else last_topic_conf (calls c) item)"
  using assms
  by (auto simp: init_topic_conf_def Let_def case_prod_unfold conf_simps isSetConfig_def
      split: option.split simp del: calls_emit)

lemma init_topic_conf_consumer [simp]:
  "config (snd (init_topic_conf lib c)) = config c"
  "rd_kafka_conf (snd (init_topic_conf lib c)) = rd_kafka_conf c"
  by (auto simp: init_topic_conf_def Let_def case_prod_unfold)

text \<open>The state with which \<open>init_topic_conf\<close> runs, when both configuration objects exist.\<close>

definition conf_created :: "rk_lib \<Rightarrow> consumer \<Rightarrow> consumer" where
  "conf_created lib c =
     (let c = (emit ConfNew c)\<lparr>rd_kafka_conf := True\<rparr>;
          c = snd (setRdKafkaConfig lib True RD_KAFKA_CONFIG_INTERNAL_TERMINATION_SIGNAL
                     (take 15 (show_int SIGIO)) c);
          c = emit ConfSetRebalanceCb (emit ConfSetOpaque c)
      in (emit TopicConfNew c)\<lparr>rd_kafka_topic_conf := True\<rparr>)"

lemma conf_created_consumer [simp]:
  "config (conf_created lib c) = config c" "rd_kafka_conf (conf_created lib c)"
  "rd_kafka_topic_conf (conf_created lib c)"
  by (simp_all add: conf_created_def Let_def)

lemma last_conf_conf_created:
  "last_conf (calls (conf_created lib c)) item =
     (if item = RD_KAFKA_CONFIG_INTERNAL_TERMINATION_SIGNAL then Some (take 15 (show_int SIGIO))
      else last_conf (calls c) item)"
  "last_topic_conf (calls (conf_created lib c)) item = last_topic_conf (calls c) item"
  by (auto simp: conf_created_def Let_def conf_simps conf_item_defs simp del: calls_emit)

lemma initRdKafkaConfig_created:
  assumes "\<forall>log. rk_conf_new lib log \<and> rk_topic_conf_new lib log"
  shows "initRdKafkaConfig lib c =
     (fst (init_topic_conf lib (conf_created lib c)),
      init_api_version lib (snd (init_topic_conf lib (conf_created lib c))))"
  using assms by (simp add: initRdKafkaConfig_def conf_created_def Let_def case_prod_unfold)

lemma consumer_init_created:
  assumes "\<forall>log. rk_conf_new lib log \<and> rk_topic_conf_new lib log"
    and "consumer_init pt lib lp cp c = (True, c')"
    and "loadConfig pt cp '''' (config c) = (ok, e, cfg)"
  shows "\<exists>c0. config c0 = cfg \<and> calls c0 = calls c \<and>
    c' = init_api_version lib (snd (init_topic_conf lib (conf_created lib c0)))"
proof -
  let ?l = "c\<lparr>config := cfg, logger := initLog (getSdkConfig cfg RD_KAFKA_SDK_CONFIG_LOG_LEVEL
    RD_KAFKA_SDK_CONFIG_LOG_LEVEL_DEFAULT) lp (logger c)\<rparr>"
  have "\<exists>b. c' = init_api_version lib (snd (init_topic_conf lib (conf_created lib (?l\<lparr>broker_list := b\<rparr>))))"
    using assms(2,3)
    by (auto simp: consumer_init_def Let_def initRdKafka_def initRdKafkaConfig_created [OF assms(1)]
        split: if_splits prod.splits)
  then obtain b where
    "c' = init_api_version lib (snd (init_topic_conf lib (conf_created lib (?l\<lparr>broker_list := b\<rparr>))))"
    by blast
  then show ?thesis by (intro exI [of _ "?l\<lparr>broker_list := b\<rparr>"]) simp
qed

section \<open>Values in force\<close>

text \<open>The value of a property after the calls \<open>log\<close>: the last one that librdkafka accepted.\<close>

fun conf_in_force_from ::
  "rk_lib \<Rightarrow> string \<Rightarrow> rk_call list \<Rightarrow> rk_call list \<Rightarrow> string option \<Rightarrow> string option" where
  "conf_in_force_from lib item pre [] v = v"
| "conf_in_force_from lib item pre (x # xs) v = conf_in_force_from lib item (pre @ [x]) xs
     (case x of ConfSet i w \<Rightarrow> if i = item \<and> rk_conf_set lib pre i w then Some w else v | _ \<Rightarrow> v)"

definition conf_in_force :: "rk_lib \<Rightarrow> rk_call list \<Rightarrow> string \<Rightarrow> string option" where
  "conf_in_force lib log item = conf_in_force_from lib item [] log None"

fun topic_conf_in_force_from ::
  "rk_lib \<Rightarrow> string \<Rightarrow> rk_call list \<Rightarrow> rk_call list \<Rightarrow> string option \<Rightarrow> string option" where
  "topic_conf_in_force_from lib item pre [] v = v"
| "topic_conf_in_force_from lib item pre (x # xs) v = topic_conf_in_force_from lib item (pre @ [x]) xs
     (case x of TopicConfSet i w \<Rightarrow> if i = item \<and> rk_topic_conf_set lib pre i w then Some w else v | _ \<Rightarrow> v)"

definition topic_conf_in_force :: "rk_lib \<Rightarrow> rk_call list \<Rightarrow> string \<Rightarrow> string option" where
  "topic_conf_in_force lib log item = topic_conf_in_force_from lib item [] log None"

lemma conf_in_force_from_append:
  "conf_in_force_from lib item pre (xs @ ys) v =
     conf_in_force_from lib item (pre @ xs) ys (conf_in_force_from lib item pre xs v)"
  "topic_conf_in_force_from lib item pre (xs @ ys) v =
     topic_conf_in_force_from lib item (pre @ xs) ys (topic_conf_in_force_from lib item pre xs v)"
  by (induction xs arbitrary: pre v) simp_all

lemma last_accepted_in_force:
  "(\<forall>log. rk_conf_set lib log item v) \<Longrightarrow> last_conf log item = Some v \<Longrightarrow>
     conf_in_force lib log item = Some v"
  "(\<forall>log. rk_topic_conf_set lib log item v) \<Longrightarrow> last_topic_conf log item = Some v \<Longrightarrow>
     topic_conf_in_force lib log item = Some v"
  unfolding conf_in_force_def topic_conf_in_force_def
  by (induction log rule: rev_induct)
     (auto simp: last_conf_def last_topic_conf_def conf_in_force_from_append split: rk_call.splits if_splits)

section \<open>Properties\<close>

text \<open>C25: Precedence of the consumer's settings. In a successful \<open>init\<close> the last value that librdkafka is given
  for each property of the [global] section of the file is the file's, except for \<open>client.id\<close>,
  \<open>enable.auto.commit\<close> and \<open>broker.version.fallback\<close>; the last is overridden whenever the file does
  not also set \<open>api.version.request\<close>. The same holds for every property of the [topic] section, and
  offsets are stored by the broker and reset to the earliest when the section does not say. Each such value is
  in force in librdkafka's configuration if librdkafka accepts it; \<open>init\<close> succeeds also when it refuses.
  This covers \<open>bootstrap.servers\<close> when a broker list is set as well.\<close>

theorem consumer_settings_precedence:
  assumes "\<forall>log. rk_conf_new lib log \<and> rk_topic_conf_new lib log"
    and "consumer_init pt lib lp cp (consumer_new cl lg) = (True, c')"
    and "loadConfig pt cp '''' config_empty = (ok, e, cfg)"
    and "item \<noteq> ''''"
  shows "(\<forall>v. map_of (set_global_config_items cfg) item = Some v \<and>
            item \<notin> {RD_KAFKA_CONFIG_CLIENT_ID, RD_KAFKA_CONFIG_ENABLE_AUTO_COMMIT,
                    RD_KAFKA_CONFIG_BROKER_VERSION_FALLBACK} \<longrightarrow>
            last_conf (calls c') item = Some v) \<and>
         (map_of (set_global_config_items cfg) RD_KAFKA_CONFIG_API_VERSION_REQUEST = None \<longrightarrow>
            last_conf (calls c') RD_KAFKA_CONFIG_BROKER_VERSION_FALLBACK =
              Some RD_KAFKA_CONFIG_BROKER_VERSION_FALLBACK_FOR_OLDER) \<and>
         (\<forall>k v. last_conf (calls c') k = Some v \<and> (\<forall>log. rk_conf_set lib log k v) \<longrightarrow>
            conf_in_force lib (calls c') k = Some v) \<and>
         (\<forall>k v. last_topic_conf (calls c') k = Some v \<and> (\<forall>log. rk_topic_conf_set lib log k v) \<longrightarrow>
            topic_conf_in_force lib (calls c') k = Some v) \<and>
         last_topic_conf (calls c') item =
           (case map_of (set_topic_config_items cfg) item of
              Some v \<Rightarrow> Some v
            | None \<Rightarrow> if item = RD_KAFKA_TOPIC_CONFIG_OFFSET_STORED_METHOD
                      then Some RD_KAFKA_TOPIC_CONFIG_OFFSET_STORED_METHOD_BROKER
                      else if item = RD_KAFKA_TOPIC_CONFIG_AUTO_OFFSET_RESET
                      then Some RD_KAFKA_TOPIC_CONFIG_AUTO_OFFSET_RESET_EARLIEST else None)"
proof -
  have n: "config (consumer_new cl lg) = config_empty" "calls (consumer_new cl lg) = []"
    by (simp_all add: consumer_new_def)
  obtain c0 where c0: "config c0 = cfg" "calls c0 = []"
    "c' = init_api_version lib (snd (init_topic_conf lib (conf_created lib c0)))"
    using consumer_init_created [OF assms(1,2)] n assms(3) by metis
  have ok: "config_ok cfg" using config_ok_loadConfig [OF config_ok_empty, of pt cp "''''"] assms(3)
    by simp
  let ?t = "snd (init_topic_conf lib (conf_created lib c0))"
  have t: "config ?t = cfg" "rd_kafka_conf ?t" by (simp_all add: c0)
  have conf: "last_conf (calls ?t) item = Some v"
    if "map_of (set_global_config_items cfg) item = Some v"
      "item \<noteq> RD_KAFKA_CONFIG_CLIENT_ID" "item \<noteq> RD_KAFKA_CONFIG_ENABLE_AUTO_COMMIT" for v
    using that ok assms(4) by (simp add: last_conf_init_topic_conf c0)
  have topic: "last_topic_conf (calls ?t) item =
      (case map_of (set_topic_config_items cfg) item of
         Some v \<Rightarrow> Some v
       | None \<Rightarrow> if item = RD_KAFKA_TOPIC_CONFIG_OFFSET_STORED_METHOD
                 then Some RD_KAFKA_TOPIC_CONFIG_OFFSET_STORED_METHOD_BROKER
                 else if item = RD_KAFKA_TOPIC_CONFIG_AUTO_OFFSET_RESET
                 then Some RD_KAFKA_TOPIC_CONFIG_AUTO_OFFSET_RESET_EARLIEST else None)"
    using ok assms(4)
    by (simp add: last_conf_init_topic_conf last_conf_conf_created c0 split: option.split)
       (simp add: last_topic_conf_def)
  have force: "\<forall>k v. last_conf (calls c') k = Some v \<and> (\<forall>log. rk_conf_set lib log k v) \<longrightarrow>
      conf_in_force lib (calls c') k = Some v"
    "\<forall>k v. last_topic_conf (calls c') k = Some v \<and> (\<forall>log. rk_topic_conf_set lib log k v) \<longrightarrow>
      topic_conf_in_force lib (calls c') k = Some v"
    using last_accepted_in_force by blast+
  have last: "last_conf (calls c') k = (if \<not> isSetConfig cfg RD_KAFKA_CONFIG_API_VERSION_REQUEST False
      then if k = RD_KAFKA_CONFIG_BROKER_VERSION_FALLBACK then Some RD_KAFKA_CONFIG_BROKER_VERSION_FALLBACK_FOR_OLDER
        else if k = RD_KAFKA_CONFIG_API_VERSION_REQUEST then Some RD_KAFKA_CONFIG_API_VERSION_REQUEST_FOR_OLDER
        else last_conf (calls ?t) k
      else last_conf (calls ?t) k)" for k
    unfolding c0(3) last_conf_init_api_version using t by simp
  have l: "last_topic_conf (calls c') item = last_topic_conf (calls ?t) item"
    unfolding c0(3) last_conf_init_api_version ..
  show ?thesis
    unfolding l topic by (intro conjI force) (use conf in \<open>auto simp: last isSetConfig_def\<close>)
qed

text \<open>The modes of a successful \<open>init\<close> are those that \<open>init_commit_mode\<close> chose from the file.\<close>

lemma consumer_init_commit_mode:
  assumes "\<forall>log. rk_conf_new lib log \<and> rk_topic_conf_new lib log"
    and "consumer_init pt lib lp cp (consumer_new cl lg) = (True, c')"
    and "loadConfig pt cp '''' config_empty = (ok, e, cfg)"
  obtains c1 where "c' = init_api_version lib (init_commit_mode lib c1)" "rd_kafka_conf c1" "config c1 = cfg"
proof -
  have n: "config (consumer_new cl lg) = config_empty" by (simp add: consumer_new_def)
  obtain c0 where c0: "config c0 = cfg"
    and c': "c' = init_api_version lib (snd (init_topic_conf lib (conf_created lib c0)))"
    using consumer_init_created [OF assms(1,2)] n assms(3) by metis
  obtain c1 where c1: "snd (init_topic_conf lib (conf_created lib c0)) = init_commit_mode lib c1"
    "rd_kafka_conf c1" "config c1 = cfg"
    by (auto simp: init_topic_conf_def Let_def case_prod_unfold c0)
  show ?thesis by (rule that [of c1]) (simp_all add: c' c1)
qed

lemma init_api_version_modes [simp]:
  "is_user_manual_commit_offset (init_api_version lib c) = is_user_manual_commit_offset c"
  "is_auto_commit_offset (init_api_version lib c) = is_auto_commit_offset c"
  using flags_init_api_version [of lib c] by (simp_all add: flags_def)

lemma client_commit_mode:
  assumes "\<forall>log. rk_conf_new lib log \<and> rk_topic_conf_new lib log"
    and "consumer_init pt lib lp cp (consumer_new cl lg) = (True, c')"
    and "loadConfig pt cp '''' config_empty = (ok, e, cfg)"
    and "value_matches (getSdkConfig cfg RD_KAFKA_SDK_USER_MANUAL_COMMIT_OFFSET DEFAULT_FALSE)
           DEFAULT_FALSE"
    and "\<forall>log. rk_conf_get lib log RD_KAFKA_CONFIG_ENABLE_AUTO_COMMIT = Some v"
  shows "\<not> is_user_manual_commit_offset c'"
    and "is_auto_commit_offset c' = strncasecmp_eq v ''true'' (length v + 1)"
proof -
  obtain c1 where c1: "c' = init_api_version lib (init_commit_mode lib c1)" "rd_kafka_conf c1"
    "config c1 = cfg"
    using consumer_init_commit_mode [OF assms(1-3)] by blast
  show "\<not> is_user_manual_commit_offset c'"
    "is_auto_commit_offset c' = strncasecmp_eq v ''true'' (length v + 1)"
    using assms(4,5) c1(3) by (simp_all add: c1(1) init_commit_mode_def Let_def)
qed

text \<open>The user-commit mode, chosen by \<open>user.manual.commit.offset\<close> of the [sdk] section, excludes
  librdkafka's own commits: after a successful \<open>init\<close> the mode is on, the automatic mode is off, and
  when librdkafka reported \<open>enable.auto.commit\<close> as true the last value given to it is false.\<close>

theorem user_commit_mode_excludes_auto_commit:
  assumes "\<forall>log. rk_conf_new lib log \<and> rk_topic_conf_new lib log"
    and "consumer_init pt lib lp cp (consumer_new cl lg) = (True, c')"
    and "loadConfig pt cp '''' config_empty = (ok, e, cfg)"
    and "\<not> value_matches (getSdkConfig cfg RD_KAFKA_SDK_USER_MANUAL_COMMIT_OFFSET DEFAULT_FALSE)
              DEFAULT_FALSE"
    and "\<forall>log. rk_conf_get lib log RD_KAFKA_CONFIG_ENABLE_AUTO_COMMIT = Some ''true''"
  shows "is_user_manual_commit_offset c' \<and> \<not> is_auto_commit_offset c' \<and>
     last_conf (calls c') RD_KAFKA_CONFIG_ENABLE_AUTO_COMMIT = Some ''false''"
proof -
  obtain c1 where c1: "c' = init_api_version lib (init_commit_mode lib c1)"
    and conf: "rd_kafka_conf c1" "config c1 = cfg"
    using consumer_init_commit_mode [OF assms(1-3)] by blast
  have e: "strncasecmp_eq ''true'' ''true'' (length ''true'' + 1)" by code_simp
  have "is_user_manual_commit_offset (init_commit_mode lib c1)"
    using assms(4) conf(2)
    by (auto simp: init_commit_mode_def Let_def setRdKafkaConfig_def split: option.split)
  moreover have "\<not> is_auto_commit_offset (init_commit_mode lib c1)"
    using calculation init_commit_mode_flags(1) [of lib c1] by (simp add: modes_exclusive_def)
  moreover have
    "last_conf (calls (init_commit_mode lib c1)) RD_KAFKA_CONFIG_ENABLE_AUTO_COMMIT = Some ''false''"
    using assms(4,5) conf e
    by (simp add: init_commit_mode_def Let_def conf_simps RD_KAFKA_CONFIG_ENABLE_AUTO_COMMIT_def
        del: calls_emit)
  ultimately show ?thesis
    by (simp add: c1 conf_simps conf conf_item_defs)
qed

theorem consumer_settings_precedence_witness:
  "last_topic_conf (calls (snd (consumer_init demo_pt demo_lib ''log'' ''conf''
     (consumer_new '''' logger_start)))) RD_KAFKA_TOPIC_CONFIG_AUTO_OFFSET_RESET = Some ''earliest'' \<and>
   topic_conf_in_force demo_lib (calls (snd (consumer_init demo_pt demo_lib ''log'' ''conf''
     (consumer_new '''' logger_start)))) RD_KAFKA_TOPIC_CONFIG_AUTO_OFFSET_RESET = Some ''earliest''"
proof -
  have i: "consumer_init demo_pt demo_lib ''log'' ''conf'' (consumer_new '''' logger_start) =
      (True, snd (consumer_init demo_pt demo_lib ''log'' ''conf'' (consumer_new '''' logger_start)))"
    using demo_init by (metis (full_types) prod.collapse)
  have n: "\<forall>log. rk_conf_new demo_lib log \<and> rk_topic_conf_new demo_lib log"
    by (simp add: demo_lib_def quiet_lib_def)
  obtain ok e cfg where l: "loadConfig demo_pt ''conf'' '''' config_empty = (ok, e, cfg)"
    by (cases "loadConfig demo_pt ''conf'' '''' config_empty") auto
  have "set_topic_config_items (snd (snd (loadConfig demo_pt ''conf'' '''' config_empty))) = []"
    by code_simp
  with consumer_settings_precedence [OF n i l, of RD_KAFKA_TOPIC_CONFIG_AUTO_OFFSET_RESET] l
  show ?thesis by (simp add: conf_item_defs conf_value_defs demo_lib_def quiet_lib_def)
qed

definition demo_user_pt :: "ini ptree_lib" where
  "demo_user_pt = ini_lib (\<lambda>_. Inr (Ini ''''
     [(''sdk'', Ini '''' [(''broker.list'', ini_value ''h:1''),
        (''user.manual.commit.offset'', ini_value ''true'')])]))"

theorem user_commit_mode_excludes_auto_commit_witness:
  "is_user_manual_commit_offset (snd (consumer_init demo_user_pt quiet_lib ''log'' ''conf''
     (consumer_new '''' logger_start)))"
proof -
  let ?i = "consumer_init demo_user_pt quiet_lib ''log'' ''conf'' (consumer_new '''' logger_start)"
  have a: "accepting quiet_lib" by (simp add: accepting_def quiet_lib_def)
  have "fst (getQbusBrokerList (snd (snd (loadConfig demo_user_pt ''conf'' '''' config_empty))))"
    by code_simp
  then have "fst ?i"
    using consumer_init_ok [OF a, of demo_user_pt "''conf''" _ "consumer_new '''' logger_start" "''log''"]
    by (simp add: demo_user_pt_def ini_lib_def consumer_new_def)
  then have i: "?i = (True, snd ?i)" by (metis (full_types) prod.collapse)
  have "\<not> value_matches (getSdkConfig (snd (snd (loadConfig demo_user_pt ''conf'' '''' config_empty)))
      RD_KAFKA_SDK_USER_MANUAL_COMMIT_OFFSET DEFAULT_FALSE) DEFAULT_FALSE" by code_simp
  then show ?thesis
    using user_commit_mode_excludes_auto_commit [OF _ i]
    by (cases "loadConfig demo_user_pt ''conf'' '''' config_empty") (simp add: quiet_lib_def)
qed

end
