(* ===== verification/Kafka_Consumer_Types.thy ===== *)
theory Kafka_Consumer_Types
  imports Kafka_Consumer_Setup
begin

text \<open>
  The representation invariant of the Kafka consumer: every \<open>std::map\<close> and \<open>std::set\<close> among its fields
  is strictly ascending in its keys, and no topic is recorded without a partition. Any call of any
  member function keeps it, in whatever order the user makes the calls.
\<close>

definition types_ok :: "consumer \<Rightarrow> bool" where
  "types_ok c \<longleftrightarrow> tables_ok c \<and> tps_ok (topic_partition_set c) \<and> sset_ok (efficacious_topics c) \<and>
     config_ok (config c)"

section \<open>Operations that leave the containers alone\<close>

definition containers where
  "containers c = (wait_commit_msgs c, wait_destroy_msgs_for_uncommit c, topic_partition_set c,
     efficacious_topics c, config (c :: consumer))"

lemma types_ok_containers: "containers c' = containers c \<Longrightarrow> types_ok c' = types_ok c"
  by (simp add: containers_def types_ok_def tables_ok_def)

lemma containers_emit [simp]: "containers (emit x c) = containers c"
  by (simp add: containers_def emit_def)

lemma containers_update [simp]:
  "containers (c\<lparr>manual_commit_time := i\<rparr>) = containers c" "containers (c\<lparr>rd_kafka_conf := b\<rparr>) = containers c"
  "containers (c\<lparr>rd_kafka_topic_conf := b\<rparr>) = containers c" "containers (c\<lparr>rd_kafka_handle := b\<rparr>) = containers c"
  "containers (c\<lparr>broker_list := s\<rparr>) = containers c" "containers (c\<lparr>is_force_destroy := b\<rparr>) = containers c"
  "containers (c\<lparr>is_user_manual_commit_offset := b\<rparr>) = containers c"
  "containers (c\<lparr>is_auto_commit_offset := b\<rparr>) = containers c"
  "containers (c\<lparr>consumer_poll_time := i\<rparr>) = containers c" "containers (c\<lparr>kgroup := s\<rparr>) = containers c"
  "containers (c\<lparr>ktopics := ts\<rparr>) = containers c" "containers (c\<lparr>logger := lg\<rparr>) = containers c"
  "containers (c\<lparr>start_flag := b\<rparr>) = containers c" "containers (c\<lparr>has_assigned := b\<rparr>) = containers c"
  by (simp_all add: containers_def)

lemma containers_set [simp]:
  "containers (snd (setRdKafkaConfig lib b i v c)) = containers c"
  "containers (snd (setRdKafkaTopicConfig lib b i v c)) = containers c"
  by (simp_all add: setRdKafkaConfig_def setRdKafkaTopicConfig_def)

lemma containers_init_steps [simp]:
  "containers (loadRdkafkaConfig lib cfg b d c) = containers c"
  "containers (setClientId lib b d c) = containers c"
  "containers (init_api_version lib c) = containers c"
  "containers (init_commit_mode lib c) = containers c"
  "containers (snd (init_offset_policy lib c)) = containers c"
  "containers (snd (init_topic_conf lib c)) = containers c"
  "containers (snd (initRdKafkaConfig lib c)) = containers c"
proof -
  show l: "containers (loadRdkafkaConfig lib cfg b d c) = containers c" for cfg b d c
    unfolding loadRdkafkaConfig_def by (simp add: foldl_frame split: prod.split)
  show s: "containers (setClientId lib b d c) = containers c"
    and a: "containers (init_api_version lib c) = containers c"
    and m: "containers (init_commit_mode lib c) = containers c"
    and o: "containers (snd (init_offset_policy lib c)) = containers c" for b d c
    by (simp_all add: setClientId_def init_api_version_def init_commit_mode_def init_offset_policy_def
        Let_def case_prod_unfold split: option.split)
  show t: "containers (snd (init_topic_conf lib c)) = containers c" for c
    by (simp add: init_topic_conf_def Let_def case_prod_unfold l s m o)
  show "containers (snd (initRdKafkaConfig lib c)) = containers c"
    by (simp add: initRdKafkaConfig_def Let_def case_prod_unfold a t)
qed

lemma containers_add_topics [simp]: "containers (snd (add_topics lib ts added c)) = containers c"
  by (induction lib ts added c rule: add_topics.induct) (simp_all add: Let_def)

lemma containers_handle [simp]:
  "containers (snd (initRdKafkaHandle lib c)) = containers c"
  "containers (snd (start cb lib c)) = containers c"
  "containers (snd (pause lib topics c)) = containers c"
  "containers (snd (resume lib topics c)) = containers c"
  by (simp_all add: initRdKafkaHandle_def start_def pause_def resume_def Let_def)

section \<open>Operations that change a container\<close>

lemma types_ok_emit [simp]: "types_ok (emit x c) = types_ok c"
  by (rule types_ok_containers) simp

lemma types_ok_set [simp]:
  "types_ok (c\<lparr>start_flag := b\<rparr>) = types_ok c" "types_ok (c\<lparr>has_assigned := b\<rparr>) = types_ok c"
  "types_ok (c\<lparr>rd_kafka_handle := b\<rparr>) = types_ok c"
  by (rule types_ok_containers, simp)+

lemma types_ok_init: "types_ok c \<Longrightarrow> types_ok (snd (consumer_init pt lib lp cp c))"
proof -
  assume ok: "types_ok c"
  have k: "types_ok (c\<lparr>config := snd (snd (loadConfig pt cp '''' (config c))), logger := lg\<rparr>)" for lg
    using ok config_ok_loadConfig [of "config c" pt cp "''''"] by (simp add: types_ok_def tables_ok_def)
  have b: "types_ok (d\<lparr>broker_list := s\<rparr>) = types_ok d"
    "types_ok (snd (initRdKafkaConfig lib d)) = types_ok d" for d s
    by (rule types_ok_containers, simp)+
  show ?thesis
    using k by (simp add: consumer_init_def Let_def initRdKafka_def case_prod_unfold b)
qed

lemma types_ok_subscribe: "types_ok c \<Longrightarrow> types_ok (snd (subscribe lib grp ts c))"
proof -
  have e: "types_ok (d\<lparr>efficacious_topics := foldl (\<lambda>s t. insort_insert t s) (efficacious_topics f) ts\<rparr>)"
    if "types_ok d" "types_ok f" for d f ts
  proof -
    have "sset_ok (foldl (\<lambda>s t. insort_insert t s) (efficacious_topics f) ts)"
      using that by (intro foldl_invariant [where I = sset_ok]) (simp_all add: types_ok_def sset_ok_insort)
    with that show ?thesis by (simp add: types_ok_def tables_ok_def)
  qed
  have a: "types_ok (snd (add_topics lib ts added d)) = types_ok d"
    "types_ok (snd (initRdKafkaHandle lib d)) = types_ok d"
    "types_ok (snd (setRdKafkaConfig lib b i v d)) = types_ok d"
    "types_ok (d\<lparr>kgroup := s\<rparr>) = types_ok d" "types_ok (d\<lparr>ktopics := us\<rparr>) = types_ok d"
    "types_ok (d\<lparr>kgroup := s, ktopics := us\<rparr>) = types_ok d"
    for ts added d b i v s us
    by (rule types_ok_containers, simp)+
  have s: "types_ok d \<Longrightarrow> types_ok (snd (subscribe_topics lib ts d))" for d
    by (auto simp: subscribe_topics_def Let_def case_prod_unfold a intro!: e)
  assume "types_ok c"
  then show ?thesis
    by (auto simp: subscribe_def Let_def case_prod_unfold a intro!: s)
qed

lemma types_ok_table_ops:
  assumes "types_ok c"
  shows "types_ok (addWaitCommitOffset m c)" "types_ok (addWaitDestroyMsgs m c)"
    "types_ok (commitOffset mo c)" "types_ok (manualCommitWaitOffset lib f c)"
    "types_ok (clearWaitDestroyMsgs c)"
  using assms by (simp_all add: types_ok_def map_invariants)
    (simp add: tables_ok_def)

lemma types_ok_rebalance: "types_ok c \<Longrightarrow> types_ok (rdkafka_rebalance_cb lib ev c)"
proof (cases ev)
  case (AssignPartitions ps)
  assume "types_ok c"
  with AssignPartitions show ?thesis
    by (simp add: rdkafka_rebalance_cb_def Let_def types_ok_def tables_ok_def tps_ok_init)
qed (simp_all add: rdkafka_rebalance_cb_def Let_def types_ok_table_ops)

lemma types_ok_rebalances:
  "types_ok c \<Longrightarrow> types_ok (foldl (\<lambda>c ev. rdkafka_rebalance_cb lib ev c) c evs)"
  by (rule foldl_invariant [where I = types_ok]) (simp_all add: types_ok_rebalance)

lemma types_ok_poll: "types_ok c \<Longrightarrow> types_ok (snd (consumer_poll lib c))"
  by (simp add: consumer_poll_def Let_def case_prod_unfold types_ok_rebalances)

lemma types_ok_receive: "types_ok c \<Longrightarrow> types_ok (receivedConsumeMsg user m c)"
  unfolding receivedConsumeMsg_def Let_def run_commits_def
  by (rule foldl_invariant [where I = types_ok]) (simp_all add: types_ok_table_ops)

lemma types_ok_poll_body:
  assumes "types_ok c"
  shows "types_ok (poll_body lib user c)"
  using types_ok_poll [OF assms, of lib]
  by (simp add: poll_body_def Let_def case_prod_unfold types_ok_table_ops types_ok_receive
      split: option.split)

lemma types_ok_consume:
  assumes "types_ok c"
  shows "types_ok (snd (snd (consume lib c)))"
  using types_ok_poll [OF assms, of lib] assms
  by (simp add: consume_def Let_def case_prod_unfold types_ok_table_ops split: option.split)

lemma types_ok_wait: "types_ok (wait_destroyed_loop n lib c) = types_ok c"
  by (induction n arbitrary: c) (simp_all add: Let_def)

lemma types_ok_stop:
  assumes "types_ok c"
  shows "types_ok (stop cb lib c)"
proof -
  have t: "types_ok (c\<lparr>start_flag := False, topic_partition_set := tps_init None d\<rparr>)" for d
    using assms by (simp add: types_ok_def tables_ok_def tps_init_def)
  have "types_ok (stop_thread cb lib c)"
    using t by (simp add: stop_thread_def Let_def poll_thread_exit_def types_ok_table_ops)
  moreover have "types_ok (close_consumer lib d)" if "types_ok d" for d
    using that by (simp add: close_consumer_def Let_def case_prod_unfold types_ok_rebalances)
  ultimately show ?thesis using assms by (simp add: stop_def Let_def types_ok_wait)
qed

section \<open>Any use of an object\<close>

inductive consumer_call ::
  "'t ptree_lib \<Rightarrow> rk_lib \<Rightarrow> consumer \<Rightarrow> consumer \<Rightarrow> bool" for pt lib where
  call_init: "consumer_call pt lib c (snd (consumer_init pt lib lp cp c))"
| call_subscribe: "consumer_call pt lib c (snd (subscribe lib grp ts c))"
| call_start: "consumer_call pt lib c (snd (start cb lib c))"
| call_poll: "consumer_call pt lib c (poll_body lib user c)"
| call_consume: "consumer_call pt lib c (snd (snd (consume lib c)))"
| call_commit: "consumer_call pt lib c (commitOffset mo c)"
| call_pause: "consumer_call pt lib c (snd (pause lib topics c))"
| call_resume: "consumer_call pt lib c (snd (resume lib topics c))"
| call_stop: "consumer_call pt lib c (stop cb lib c)"

lemma types_ok_call: "consumer_call pt lib c c' \<Longrightarrow> types_ok c \<Longrightarrow> types_ok c'"
proof (induction rule: consumer_call.induct)
  case (call_start c cb)
  then show ?case using types_ok_containers [OF containers_handle(2)] by blast
next
  case (call_pause c topics)
  then show ?case using types_ok_containers [OF containers_handle(3)] by blast
next
  case (call_resume c topics)
  then show ?case using types_ok_containers [OF containers_handle(4)] by blast
qed (simp_all add: types_ok_init types_ok_subscribe types_ok_poll_body types_ok_consume
  types_ok_table_ops types_ok_stop)

section \<open>From a new object on\<close>

text \<open>The containers of a Kafka consumer stay well typed: from a new object on, whatever
  member functions are called in whatever order and whatever the library answers, its maps are
  strictly ascending in their keys, its sets strictly ascending, and no topic stands in the set of
  assigned partitions without one.\<close>

theorem containers_stay_ordered:
  assumes "(consumer_call pt lib)\<^sup>*\<^sup>* (consumer_new cl lg) c"
  shows "sorted_wrt (<) (map fst (wait_commit_msgs c)) \<and>
     sorted_wrt (<) (map fst (wait_destroy_msgs_for_uncommit c)) \<and>
     sorted_wrt (<) (map fst (topic_partition_set c)) \<and>
     list_all (\<lambda>(t, s). s \<noteq> [] \<and> sorted_wrt (<) s) (topic_partition_set c) \<and>
     sorted_wrt (<) (efficacious_topics c) \<and> config_ok (config c)"
proof -
  have "types_ok (consumer_new cl lg)"
    by (simp add: types_ok_def consumer_new_def tables_ok_def)
  with assms have "types_ok c" by (induction rule: rtranclp_induct) (auto intro: types_ok_call)
  then have t: "tables_ok c" "tps_ok (topic_partition_set c)" "sset_ok (efficacious_topics c)"
    "config_ok (config c)" by (simp_all add: types_ok_def)
  have "s \<noteq> [] \<and> sorted_wrt (<) s" if "(u, s) \<in> set (topic_partition_set c)" for u s
  proof -
    have "map_of (topic_partition_set c) u = Some s"
      using t(2) that smap_ok_distinct [of "topic_partition_set c"]
      by (intro map_of_is_SomeI) (simp_all add: tps_ok_def)
    with t(2) show ?thesis by (simp add: tps_ok_def sset_ok_def)
  qed
  then have "list_all (\<lambda>(t, s). s \<noteq> [] \<and> sorted_wrt (<) s) (topic_partition_set c)"
    by (auto simp: list_all_iff)
  with t show ?thesis by (simp add: tables_ok_def tps_ok_def sset_ok_def smap_ok_def)
qed

theorem containers_stay_ordered_witness:
  "config_ok (config (poll_body demo_lib (\<lambda>_. []) (snd (consumer_init demo_pt demo_lib ''log'' ''conf''
     (consumer_new ''c'' logger_start)))))"
proof -
  let ?n = "consumer_new ''c'' logger_start"
  have "(consumer_call demo_pt demo_lib)\<^sup>*\<^sup>* ?n (poll_body demo_lib (\<lambda>_. [])
      (snd (consumer_init demo_pt demo_lib ''log'' ''conf'' ?n)))"
    by (rule rtranclp.rtrancl_into_rtrancl [OF r_into_rtranclp]) (rule consumer_call.intros)+
  from containers_stay_ordered [OF this] show ?thesis by simp
qed

end
