(* ===== verification/Kafka_Producer.thy ===== *)
theory Kafka_Producer
  imports Kafka_Config Std_Map "HOL-Library.Word"
begin

text \<open>
  The Kafka producer (kafka/qbus_producer.cc): \<open>QbusProducerImp\<close> with its configuration, the
  synchronous and asynchronous send, the delivery report callback and the partitioner, and the
  outer class \<open>QbusProducer\<close> in its two build variants. In the variant without callbacks (PHP) the
  implementations live in the process-wide map of kafka/qbus_producer_imp_map.cc and the object
  holds a pointer into it; \<open>producer_world\<close> is the map with the heap of implementations, so that a
  pointer to a deleted one is visible.

  A delivery report is an \<open>rk_message\<close> that \<open>rd_kafka_poll\<close> or \<open>rd_kafka_flush\<close> hands to the
  callback before it returns.
\<close>

record producer = rk_client +
  producer_conf :: bool
  producer_topic_conf :: bool
  producer_topic :: bool
  producer_handle :: bool
  sync_send_err :: int
  producer_broker_list :: string
  producer_config :: config_loader
  is_sync_send :: bool
  is_init :: bool
  is_record_msg_for_send_failed :: bool
  is_speedup_terminate :: bool
  fast_exit :: bool
  flush_timeout_ms :: int

definition producer_new :: "logger_state \<Rightarrow> producer" where
  "producer_new lg = \<lparr>
     calls = [], logger = lg,
     producer_conf = False, producer_topic_conf = False, producer_topic = False,
     producer_handle = False, sync_send_err = 0, producer_broker_list = '''',
     producer_config = config_empty, is_sync_send = False, is_init = False,
     is_record_msg_for_send_failed = False, is_speedup_terminate = False, fast_exit = False,
     flush_timeout_ms = RD_KAFKA_SDK_CONFIG_FLUSH_TIMEOUT_MS_DEFAULT\<rparr>"

section \<open>Configuration\<close>

definition producer_SIGIO :: int where
  "producer_SIGIO = 29"

text \<open>A setting whose value is not a prefix of \<open>false\<close>.\<close>

definition sdk_switched_on :: "config_loader \<Rightarrow> string \<Rightarrow> bool" where
  "sdk_switched_on cfg item = (\<not> value_matches (getSdkConfig cfg item DEFAULT_FALSE) DEFAULT_FALSE)"

text \<open>A property that is set only when the file does not set it.\<close>

definition default_conf :: "rk_lib \<Rightarrow> string \<Rightarrow> string \<Rightarrow> producer \<Rightarrow> producer" where
  "default_conf lib item value c =
     (if \<not> isSetConfig (producer_config c) item False
      then snd (setRdKafkaConfig lib (producer_conf c) item value c) else c)"

definition default_topic_conf :: "rk_lib \<Rightarrow> string \<Rightarrow> string \<Rightarrow> producer \<Rightarrow> producer" where
  "default_topic_conf lib item value c =
     (if \<not> isSetConfig (producer_config c) item True
      then snd (setRdKafkaTopicConfig lib (producer_topic_conf c) item value c) else c)"

definition set_latency_conf :: "rk_lib \<Rightarrow> string \<Rightarrow> producer \<Rightarrow> producer" where
  "set_latency_conf lib buffering c =
     (let c = snd (setRdKafkaConfig lib (producer_conf c) RD_KAFKA_CONFIG_QUEUE_BUFFERING_MAX_MS
                     buffering c)
      in snd (setRdKafkaConfig lib (producer_conf c) RD_KAFKA_CONFIG_SOCKET_BLOKING_MAX_MX
                RD_KAFKA_SDK_MINIMIZE_PRODUCER_LATENCY_VALUE c))"

text \<open>The send mode: lines 315-345 of the source.\<close>

definition init_send_mode :: "rk_lib \<Rightarrow> producer \<Rightarrow> producer" where
  "init_send_mode lib c =
     (let sync_send = getSdkConfig (producer_config c) RD_KAFKA_SDK_CONFIG_SYNC_SEND DEFAULT_FALSE;
          c = (if value_matches sync_send RD_KAFKA_SDK_CONFIG_VALUE_SYNC_SEND
               then default_conf lib RD_KAFKA_CONFIG_TOPIC_METADATA_REFRESH_INTERVAL
                      RD_KAFKA_CONFIG_TOPIC_METADATA_REFRESH_INTERVAL_WHEN_SYNC_SEND_MS
                      (c\<lparr>is_sync_send := True\<rparr>)
               else c);
          c = (if is_sync_send c
               then set_latency_conf lib RD_KAFKA_CONFIG_QUEUE_BUFFERING_SYNC c else c)
      in if sdk_switched_on (producer_config c) RD_KAFKA_SDK_CONFIG_PRODUCER_ENABLE_MINI_LATENCY
         then set_latency_conf lib RD_KAFKA_SDK_MINIMIZE_PRODUCER_LATENCY_VALUE c else c)"

text \<open>For older brokers: lines 354-359.\<close>

definition producer_api_version :: "rk_lib \<Rightarrow> producer \<Rightarrow> producer" where
  "producer_api_version lib c =
     (if \<not> isSetConfig (producer_config c) RD_KAFKA_CONFIG_API_VERSION_REQUEST False
      then (let c = snd (setRdKafkaConfig lib (producer_conf c) RD_KAFKA_CONFIG_API_VERSION_REQUEST
                          RD_KAFKA_CONFIG_API_VERSION_REQUEST_FOR_OLDER c)
            in snd (setRdKafkaConfig lib (producer_conf c) RD_KAFKA_CONFIG_BROKER_VERSION_FALLBACK
                      RD_KAFKA_CONFIG_BROKER_VERSION_FALLBACK_FOR_OLDER c))
      else c)"

text \<open>The flush timeout: lines 361-368.\<close>

definition flush_timeout_of :: "config_loader \<Rightarrow> int" where
  "flush_timeout_of cfg =
     (let s = getSdkConfig cfg RD_KAFKA_SDK_CONFIG_FLUSH_TIMEOUT_MS
                RD_KAFKA_SDK_CONFIG_FLUSH_TIMEOUT_MS_DEFAULT_STR;
          t = long_to_int (strtol10 s)
      in if t < 0 then 0 else t)"

definition producer_topic_settings :: "rk_lib \<Rightarrow> producer \<Rightarrow> producer" where
  "producer_topic_settings lib c =
     (let c = loadRdkafkaConfig lib (producer_config c) (producer_conf c) (producer_topic_conf c) c;
          c = (if \<not> sdk_switched_on (producer_config c) RD_KAFKA_SDK_CONFIG_ENABLE_RD_KAFKA_LOG
               then emit (ConfSetLogCb False) c else emit (ConfSetLogCb True) c);
          c = emit ConfSetDrMsgCb c;
          c = emit TopicConfSetPartitionerCb c;
          c = default_topic_conf lib RD_KAFKA_TOPIC_MESSAGE_TIMEOUT
                RD_KAFKA_TOPIC_MESSAGE_TIMEOUT_MS c;
          c = default_conf lib RD_KAFKA_CONFIG_TOPIC_METADATA_REFRESH_INTERVAL
                RD_KAFKA_CONFIG_TOPIC_METADATA_REFRESH_INTERVAL_MS c;
          c = (if sdk_switched_on (producer_config c) RD_KAFKA_SDK_CONFIG_PRODUCER_SPEED_UP_TERMINATE
               then c\<lparr>is_speedup_terminate := True\<rparr> else c);
          c = init_send_mode lib c;
          c = (if sdk_switched_on (producer_config c) RD_KAFKA_SDK_PRODUCER_HA_FASET_EXIT
               then c\<lparr>fast_exit := True\<rparr> else c);
          c = producer_api_version lib c
      in c\<lparr>flush_timeout_ms := flush_timeout_of (producer_config c)\<rparr>)"

definition producer_initRdKafkaConfig :: "rk_lib \<Rightarrow> producer \<Rightarrow> bool \<times> producer" where
  "producer_initRdKafkaConfig lib c =
     (let ok = rk_conf_new lib (calls c);
          c = (emit ConfNew c)\<lparr>producer_conf := ok\<rparr>
      in if producer_conf c then
           (let c = snd (setRdKafkaConfig lib True RD_KAFKA_CONFIG_INTERNAL_TERMINATION_SIGNAL
                           (take 15 (show_int producer_SIGIO)) c);
                c = emit ConfSetOpaque c;
                tok = rk_topic_conf_new lib (calls c);
                c = (emit TopicConfNew c)\<lparr>producer_topic_conf := tok\<rparr>
            in if \<not> producer_topic_conf c then (False, c)
               else (True, producer_topic_settings lib c))
         else (False, c))"

definition producer_initRdKafkaHandle :: "rk_lib \<Rightarrow> string \<Rightarrow> producer \<Rightarrow> bool \<times> producer" where
  "producer_initRdKafkaHandle lib topic_name c =
     (let ok = rk_new lib (calls c);
          c = (emit NewHandle c)\<lparr>producer_handle := ok\<rparr>
      in if \<not> producer_handle c then (False, c)
         else
           (let n = rk_brokers_add lib (calls c) (producer_broker_list c);
                c = emit (BrokersAdd (producer_broker_list c)) c
            in if n = 0 then (False, c)
               else
                 (let tok = rk_topic_new lib (calls c) topic_name;
                      c = (emit (TopicNew topic_name) c)\<lparr>producer_topic := tok\<rparr>
                  in if \<not> producer_topic c then (False, c) else (True, c))))"

definition producer_init ::
  "'t ptree_lib \<Rightarrow> rk_lib \<Rightarrow> string \<Rightarrow> string \<Rightarrow> string \<Rightarrow> string \<Rightarrow> producer \<Rightarrow> bool \<times> producer" where
  "producer_init pt lib cluster_name log_path topic_name config_path c =
     (let (load_config_ok, errstr, cfg) = loadConfig pt config_path '''' (producer_config c);
          c = c\<lparr>producer_config := cfg\<rparr>;
          c = c\<lparr>logger := initLog (getSdkConfig (producer_config c) RD_KAFKA_SDK_CONFIG_LOG_LEVEL
                   RD_KAFKA_SDK_CONFIG_LOG_LEVEL_DEFAULT) log_path (logger c)\<rparr>
      in if \<not> load_config_ok then (False, c)
         else
           (let (brokers_ok, c) =
                  (if \<not> find_char (CHR '':'') cluster_name
                   then (let (ok, bl) = getQbusBrokerList (producer_config c)
                         in (ok, c\<lparr>producer_broker_list := bl\<rparr>))
                   else (True, c\<lparr>producer_broker_list := cluster_name\<rparr>));
                (conf_ok, c) = (if brokers_ok then producer_initRdKafkaConfig lib c else (False, c));
                (handle_ok, c) =
                  (if conf_ok then producer_initRdKafkaHandle lib topic_name c else (False, c));
                c = c\<lparr>is_init := handle_ok\<rparr>;
                c = (if is_init c \<and>
                        value_matches (getSdkConfig (producer_config c)
                          RD_KAFKA_SDK_CONFIG_RECORD_MSG DEFAULT_FALSE) ''true''
                     then c\<lparr>is_record_msg_for_send_failed := True\<rparr> else c)
            in (is_init c, c)))"

section \<open>Delivery reports\<close>

text \<open>
  \<open>msgDeliveredCallback\<close>: \<open>opaque\<close> is whether the opaque pointer is not NULL. The answer of the
  second \<open>rd_kafka_produce\<close> is only logged.
\<close>

definition msgDeliveredCallback :: "bool \<Rightarrow> rk_message \<Rightarrow> producer \<Rightarrow> producer" where
  "msgDeliveredCallback opaque rkmessage producer =
     (if \<not> opaque then producer
      else
        (let topic_name = (case m_topic rkmessage of Some t \<Rightarrow> t | None \<Rightarrow> '''');
             payload = (case m_payload rkmessage of Some p \<Rightarrow> p | None \<Rightarrow> '''');
             producer =
               (if is_sync_send producer then producer\<lparr>sync_send_err := m_err rkmessage\<rparr>
                else if m_err rkmessage \<noteq> 0 \<and> is_init producer then
                  (if \<not> producer_handle producer then producer
                   else emit (Produce (m_payload rkmessage) (m_key rkmessage) True) producer)
                else producer)
         in if m_err rkmessage \<noteq> 0
            then (if is_record_msg_for_send_failed producer
                  then emit (RecordMsg topic_name payload) producer else producer)
            else producer))"

definition serve_reports :: "rk_message list \<Rightarrow> producer \<Rightarrow> producer" where
  "serve_reports reports c = foldl (\<lambda>c m. msgDeliveredCallback True m c) c reports"

definition producer_poll :: "rk_lib \<Rightarrow> int \<Rightarrow> producer \<Rightarrow> producer" where
  "producer_poll lib timeout c =
     serve_reports (rk_poll lib (calls c) timeout) (emit (Poll timeout) c)"

section \<open>Produce\<close>

text \<open>The wait of a synchronous send; \<open>n\<close> counts the retries that are left.\<close>

fun sync_wait :: "nat \<Rightarrow> rk_lib \<Rightarrow> producer \<Rightarrow> producer" where
  "sync_wait 0 lib c = c"
| "sync_wait (Suc n) lib c =
     (if sync_send_err c = RD_KAFKA_PRODUCE_ERROR_INIT_VALUE
      then sync_wait n lib (producer_poll lib RD_KAFKA_PRODUCE_SYNC_SEND_POLL_TIMEOUT_MS c)
      else c)"

definition internalProduce ::
  "rk_lib \<Rightarrow> string \<Rightarrow> string \<Rightarrow> bool \<Rightarrow> producer \<Rightarrow> bool \<times> producer" where
  "internalProduce lib data key opaque c =
     (let c = c\<lparr>sync_send_err := RD_KAFKA_PRODUCE_ERROR_INIT_VALUE\<rparr>;
          k = (if length key > 0 then Some key else None);
          (failed, c) =
            (if \<not> producer_handle c then (True, c)
             else (rk_produce lib (calls c) (Some data) k = -1, emit (Produce (Some data) k opaque) c))
      in if failed then (False, c)
         else if is_sync_send c then
           (let c = sync_wait RD_KAFKA_SYNC_SEND_POLL_TIME lib c
            in if sync_send_err c \<noteq> 0 then (False, c) else (True, c))
         else (True, producer_poll lib 0 c))"

definition producer_produce :: "rk_lib \<Rightarrow> string \<Rightarrow> string \<Rightarrow> producer \<Rightarrow> bool \<times> producer" where
  "producer_produce lib data key c =
     (if is_init c then internalProduce lib data key False c else (False, c))"

definition producer_uninit :: "rk_lib \<Rightarrow> producer \<Rightarrow> producer" where
  "producer_uninit lib c =
     (let c = c\<lparr>is_init := False\<rparr>;
          c = (if producer_topic c then (emit TopicDestroy c)\<lparr>producer_topic := False\<rparr> else c)
      in if producer_handle c then
           (let (reports, err) = rk_flush lib (calls c) (flush_timeout_ms c);
                c = serve_reports reports (emit (Flush (flush_timeout_ms c)) c)
            in (emit HandleDestroy c)\<lparr>producer_handle := False\<rparr>)
         else c)"

section \<open>The partitioner\<close>

text \<open>\<open>char\<close> is signed (x86): a key byte is sign extended before it is added to the hash.\<close>

definition schar :: "char \<Rightarrow> 32 word" where
  "schar c = scast (of_char c :: 8 word)"

definition djb_hash :: "string \<Rightarrow> 32 word" where
  "djb_hash key = foldl (\<lambda>hash c. (push_bit 5 hash + hash) + schar c) 5381 key"

text \<open>
  The loop without a key. \<open>rand i\<close> and \<open>avail i\<close> are the answers of
  \<open>rd_kafka_msg_partitioner_random\<close> and \<open>rd_kafka_topic_partition_available\<close> in iteration \<open>i\<close>;
  \<open>partition_set\<close> holds the partitions not yet found unavailable. The loop has no bound of its own,
  so it takes fuel.
\<close>

fun random_pick ::
  "nat \<Rightarrow> nat \<Rightarrow> (nat \<Rightarrow> int) \<Rightarrow> (nat \<Rightarrow> int \<Rightarrow> bool) \<Rightarrow> int list \<Rightarrow> int option" where
  "random_pick 0 i rand avail partition_set = None"
| "random_pick (Suc fuel) i rand avail partition_set =
     (let hit_partition = rand i in
      if avail i hit_partition then Some hit_partition
      else
        (let partition_set = removeAll hit_partition partition_set in
         if partition_set = [] then Some (rand (Suc i))
         else random_pick fuel (Suc i) rand avail partition_set))"

definition partitionHashFunc ::
  "nat \<Rightarrow> (nat \<Rightarrow> int) \<Rightarrow> (nat \<Rightarrow> int \<Rightarrow> bool) \<Rightarrow> string option \<Rightarrow> int \<Rightarrow> int option" where
  "partitionHashFunc fuel rand avail keydata partition_cnt =
     (case keydata of
        Some key \<Rightarrow>
          (if length key > 0 then
             (let hash = djb_hash key;
                  hit_partition = sint (hash mod (word_of_int partition_cnt :: 32 word))
              in Some (if \<not> avail 0 hit_partition then 0 else hit_partition))
           else random_pick fuel 0 rand avail [0..partition_cnt - 1])
      | None \<Rightarrow> random_pick fuel 0 rand avail [0..partition_cnt - 1])"

section \<open>The outer class, with callbacks\<close>

text \<open>The constructor makes the implementation, so the pointer is never NULL. \<open>data\<close> is \<open>None\<close> for
  NULL.\<close>

definition KProducer_init ::
  "'t ptree_lib \<Rightarrow> rk_lib \<Rightarrow> string \<Rightarrow> string \<Rightarrow> string \<Rightarrow> string \<Rightarrow> producer \<Rightarrow> bool \<times> producer" where
  "KProducer_init pt lib cluster_name log_path config_path topic_name imp =
     producer_init pt lib cluster_name log_path topic_name config_path imp"

definition KProducer_produce ::
  "rk_lib \<Rightarrow> string option \<Rightarrow> string \<Rightarrow> producer \<Rightarrow> bool \<times> producer" where
  "KProducer_produce lib data key imp =
     (case data of
        Some d \<Rightarrow> (if length d > 0 then producer_produce lib d key imp else (True, imp))
      | None \<Rightarrow> (True, imp))"

definition KProducer_uninit :: "rk_lib \<Rightarrow> producer \<Rightarrow> producer" where
  "KProducer_uninit lib imp = producer_uninit lib imp"

section \<open>The outer class, without callbacks\<close>

text \<open>
  Here the constructor leaves the pointer without a value, and \<open>init\<close> looks the implementation up in
  the process-wide map. \<open>heap\<close> holds the live implementations by address; \<open>None\<close> as a result is
  undefined behaviour: a pointer without a value or to a deleted implementation is followed.
\<close>

datatype imp_pointer = Indeterminate | Pointer nat

record producer_world =
  kRmb :: "(string \<times> nat) list"
  heap :: "(nat \<times> producer) list"
  next_address :: nat
  world_logger :: logger_state

definition world_start :: producer_world where
  "world_start = \<lparr>kRmb = [], heap = [], next_address = 1, world_logger = logger_start\<rparr>"

definition PhpProducer_new :: imp_pointer where
  "PhpProducer_new = Indeterminate"

definition PhpProducer_init ::
  "'t ptree_lib \<Rightarrow> rk_lib \<Rightarrow> string \<Rightarrow> string \<Rightarrow> string \<Rightarrow> string \<Rightarrow> imp_pointer \<Rightarrow> producer_world \<Rightarrow>
     bool \<times> imp_pointer \<times> producer_world" where
  "PhpProducer_init pt lib cluster_name log_path config_path topic_name ptr w =
     (let key = cluster_name @ topic_name @ config_path in
      case map_of (kRmb w) key of
        None \<Rightarrow>
          (let a = next_address w;
               (rt, p) = producer_init pt lib cluster_name log_path topic_name config_path
                           (producer_new (world_logger w));
               w = w\<lparr>heap := smap_assign a p (heap w), next_address := Suc a,
                     world_logger := logger p\<rparr>
           in if rt then (rt, Pointer a, w\<lparr>kRmb := smap_insert key a (kRmb w)\<rparr>)
              else (rt, Pointer a, w\<lparr>heap := filter (\<lambda>x. fst x \<noteq> a) (heap w)\<rparr>))
      | Some a \<Rightarrow> (True, Pointer a, w))"

definition PhpProducer_produce ::
  "rk_lib \<Rightarrow> string option \<Rightarrow> string \<Rightarrow> imp_pointer \<Rightarrow> producer_world \<Rightarrow> (bool \<times> producer_world) option" where
  "PhpProducer_produce lib data key ptr w =
     (case data of
        None \<Rightarrow> Some (True, w)
      | Some d \<Rightarrow>
          (if length d > 0 then
             (case ptr of
                Indeterminate \<Rightarrow> None
              | Pointer a \<Rightarrow>
                  (case map_of (heap w) a of
                     None \<Rightarrow> None
                   | Some p \<Rightarrow>
                       (let (rt, p) = producer_produce lib d key p
                        in Some (rt, w\<lparr>heap := smap_assign a p (heap w)\<rparr>))))
           else Some (True, w)))"

definition PhpProducer_uninit :: "producer_world \<Rightarrow> producer_world" where
  "PhpProducer_uninit w = w"

text \<open>The destructor of the map at exit; an entry always points to a live implementation.\<close>

definition QbusProducerImpMap_destroy :: "rk_lib \<Rightarrow> producer_world \<Rightarrow> producer_world \<times> producer list" where
  "QbusProducerImpMap_destroy lib w =
     (let lg = (if length (kRmb w) > 0 then Logger_uninit (world_logger w) else world_logger w);
          ended = concat (map (\<lambda>(k, a). case map_of (heap w) a of
                             Some p \<Rightarrow> [producer_uninit lib p] | None \<Rightarrow> []) (kRmb w))
      in (w\<lparr>world_logger := lg,
            heap := filter (\<lambda>x. fst x \<notin> snd ` set (kRmb w)) (heap w)\<rparr>, ended))"

end
