(* ===== verification/Kafka_Producer_Props.thy ===== *)
theory Kafka_Producer_Props
  imports Kafka_Producer Qbus_Interface
begin

text \<open>
  Properties of the Kafka producer: what a synchronous send promises, the handling of delivery
  reports, the partitioner, the settings and the PHP map.
\<close>

section \<open>Delivery reports\<close>

lemma producer_emit [simp]:
  "producer_topic (emit x c) = producer_topic c" "producer_handle (emit x c) = producer_handle c"
  "sync_send_err (emit x c) = sync_send_err c" "is_sync_send (emit x c) = is_sync_send c"
  "is_init (emit x c) = is_init c"
  "is_record_msg_for_send_failed (emit x c) = is_record_msg_for_send_failed c"
  "producer_conf (emit x c) = producer_conf c" "producer_config (emit x c) = producer_config c"
  "producer_topic_conf (emit x c) = producer_topic_conf c"
  "flush_timeout_ms (emit x c) = flush_timeout_ms c"
  by (simp_all add: emit_def)

lemma msgDelivered_frame [simp]:
  "producer_topic (msgDeliveredCallback b m c) = producer_topic c"
  "producer_handle (msgDeliveredCallback b m c) = producer_handle c"
  "is_sync_send (msgDeliveredCallback b m c) = is_sync_send c"
  "is_init (msgDeliveredCallback b m c) = is_init c"
  "is_record_msg_for_send_failed (msgDeliveredCallback b m c) = is_record_msg_for_send_failed c"
  by (simp_all add: msgDeliveredCallback_def Let_def)

lemma serve_reports_frame [simp]:
  "producer_topic (serve_reports ms c) = producer_topic c"
  "producer_handle (serve_reports ms c) = producer_handle c"
  "is_sync_send (serve_reports ms c) = is_sync_send c"
  "is_init (serve_reports ms c) = is_init c"
  "is_record_msg_for_send_failed (serve_reports ms c) = is_record_msg_for_send_failed c"
  unfolding serve_reports_def by (simp_all add: foldl_frame)

lemma producer_poll_frame [simp]:
  "producer_handle (producer_poll lib t c) = producer_handle c"
  "is_sync_send (producer_poll lib t c) = is_sync_send c"
  "is_init (producer_poll lib t c) = is_init c"
  by (simp_all add: producer_poll_def)

text \<open>What one failed report adds to the call log.\<close>

definition report_calls :: "producer \<Rightarrow> rk_message \<Rightarrow> rk_call list" where
  "report_calls c m =
     (if m_err m = 0 then []
      else (if \<not> is_sync_send c \<and> is_init c \<and> producer_handle c
            then [Produce (m_payload m) (m_key m) True] else []) @
           (if is_record_msg_for_send_failed c
            then [RecordMsg (case m_topic m of Some t \<Rightarrow> t | None \<Rightarrow> '''')
                    (case m_payload m of Some p \<Rightarrow> p | None \<Rightarrow> '''')]
            else []))"

lemma calls_msgDelivered: "calls (msgDeliveredCallback True m c) = calls c @ report_calls c m"
  by (simp add: msgDeliveredCallback_def report_calls_def Let_def)

lemma report_calls_cong:
  "is_sync_send c' = is_sync_send c \<Longrightarrow> is_init c' = is_init c \<Longrightarrow>
   producer_handle c' = producer_handle c \<Longrightarrow>
   is_record_msg_for_send_failed c' = is_record_msg_for_send_failed c \<Longrightarrow>
   report_calls c' m = report_calls c m"
  by (simp add: report_calls_def)

lemma calls_serve_reports:
  "calls (serve_reports ms c) = calls c @ concat (map (report_calls c) ms)"
proof (induction ms rule: rev_induct)
  case (snoc m ms)
  then show ?case
    using report_calls_cong [of "serve_reports ms c" c m]
    by (simp add: serve_reports_def calls_msgDelivered)
       (metis serve_reports_def serve_reports_frame(2-5))
qed (simp add: serve_reports_def)

lemma sync_err_serve_reports:
  "sync_send_err (serve_reports ms c) =
     (if is_sync_send c \<and> ms \<noteq> [] then m_err (last ms) else sync_send_err c)"
proof (induction ms rule: rev_induct)
  case (snoc m ms)
  have "is_sync_send (foldl (\<lambda>c m. msgDeliveredCallback True m c) c ms) = is_sync_send c"
    using serve_reports_frame(3) [of ms c] by (simp add: serve_reports_def)
  with snoc show ?case by (auto simp: serve_reports_def msgDeliveredCallback_def Let_def)
qed (simp add: serve_reports_def)

section \<open>The synchronous wait\<close>

definition polls :: "rk_call list \<Rightarrow> nat" where
  "polls log = length (filter (\<lambda>x. case x of Poll _ \<Rightarrow> True | _ \<Rightarrow> False) log)"

lemma polls_append [simp]: "polls (a @ b) = polls a + polls b"
  by (simp add: polls_def)

lemma polls_Poll: "polls (Poll t # xs) = Suc (polls xs)"
  by (simp add: polls_def)

lemma polls_report_calls [simp]: "polls (report_calls c m) = 0"
  by (simp add: polls_def report_calls_def)

lemma polls_reports [simp]: "polls (concat (map (report_calls c) ms)) = 0"
  by (induction ms) (simp_all, simp add: polls_def)

lemma polls_producer_poll: "polls (calls (producer_poll lib t c)) = Suc (polls (calls c))"
  by (simp add: producer_poll_def calls_serve_reports polls_Poll)

lemma sync_wait_polls: "polls (calls (sync_wait n lib c)) \<le> polls (calls c) + n"
proof (induction n arbitrary: c)
  case (Suc n)
  show ?case
    using Suc.IH [of "producer_poll lib RD_KAFKA_PRODUCE_SYNC_SEND_POLL_TIMEOUT_MS c"]
    by (simp add: polls_producer_poll)
qed simp

lemma calls_poll:
  "calls (producer_poll lib t c) = calls c @ Poll t # concat (map (report_calls (emit (Poll t) c)) (rk_poll lib (calls c) t))"
  by (simp add: producer_poll_def calls_serve_reports)

lemma calls_prefix_poll: "prefix (calls c) (calls (producer_poll lib t c))"
  by (simp add: calls_poll)

text \<open>A report that is served after the log \<open>base\<close> by a poll that is in the log \<open>all\<close>.\<close>

definition served_by_poll :: "rk_lib \<Rightarrow> rk_call list \<Rightarrow> rk_call list \<Rightarrow> int \<Rightarrow> bool" where
  "served_by_poll lib base all e \<longleftrightarrow> (\<exists>pre rest d.
     all = pre @ Poll RD_KAFKA_PRODUCE_SYNC_SEND_POLL_TIMEOUT_MS # rest \<and> prefix base pre \<and>
     d \<in> set (rk_poll lib pre RD_KAFKA_PRODUCE_SYNC_SEND_POLL_TIMEOUT_MS) \<and> m_err d = e)"

lemma served_later: "served_by_poll lib base all e \<Longrightarrow> prefix base' base \<Longrightarrow> served_by_poll lib base' all e"
  unfolding served_by_poll_def by (blast intro: prefix_order.trans)

lemma sync_wait_report:
  assumes "is_sync_send c" and "sync_send_err c = RD_KAFKA_PRODUCE_ERROR_INIT_VALUE"
    and "sync_send_err (sync_wait n lib c) \<noteq> RD_KAFKA_PRODUCE_ERROR_INIT_VALUE"
  shows "served_by_poll lib (calls c) (calls (sync_wait n lib c)) (sync_send_err (sync_wait n lib c))"
  using assms
proof (induction n arbitrary: c)
  case (Suc n)
  let ?t = RD_KAFKA_PRODUCE_SYNC_SEND_POLL_TIMEOUT_MS
  let ?c = "producer_poll lib ?t c"
  have err: "sync_send_err ?c = (if rk_poll lib (calls c) ?t = [] then sync_send_err c
      else m_err (last (rk_poll lib (calls c) ?t)))"
    using Suc.prems(1) by (simp add: producer_poll_def sync_err_serve_reports)
  show ?case
  proof (cases "sync_send_err ?c = RD_KAFKA_PRODUCE_ERROR_INIT_VALUE")
    case True
    have "sync_send_err (sync_wait n lib ?c) \<noteq> RD_KAFKA_PRODUCE_ERROR_INIT_VALUE"
      using Suc.prems by simp
    from served_later [OF Suc.IH [OF _ True this], of "calls c"] Suc.prems show ?thesis
      by (simp add: calls_poll)
  next
    case False
    then have w: "sync_wait (Suc n) lib c = ?c" using Suc.prems(2) by (cases n) simp_all
    moreover have n: "rk_poll lib (calls c) ?t \<noteq> []" using False err Suc.prems(2) by auto
    then have "last (rk_poll lib (calls c) ?t) \<in> set (rk_poll lib (calls c) ?t)" by simp
    then have "served_by_poll lib (calls c) (calls ?c) (sync_send_err ?c)"
      unfolding served_by_poll_def using n err calls_poll [of lib ?t c] prefix_order.refl by metis
    ultimately show ?thesis by simp
  qed
qed simp

section \<open>Properties of sending\<close>

text \<open>C15: A synchronous \<open>produce\<close> polls at most thirty times, and it returns true only if one of its own polls,
  a call that is in the log after the message was handed to librdkafka, served a delivery report without
  an error.\<close>

theorem sync_produce_contract:
  assumes "is_sync_send c" and "producer_produce lib data key c = (rt, c')"
  shows "polls (calls c') \<le> polls (calls c) + 30 \<and>
    (rt \<longrightarrow> (\<exists>pre rest d. calls c' = pre @ Poll RD_KAFKA_PRODUCE_SYNC_SEND_POLL_TIMEOUT_MS # rest \<and>
       prefix (calls c @ [Produce (Some data) (if key \<noteq> '''' then Some key else None) False]) pre \<and>
       d \<in> set (rk_poll lib pre RD_KAFKA_PRODUCE_SYNC_SEND_POLL_TIMEOUT_MS) \<and> m_err d = 0))"
proof -
  let ?p = "Produce (Some data) (if key \<noteq> '''' then Some key else None) False"
  let ?c = "emit ?p (c\<lparr>sync_send_err := RD_KAFKA_PRODUCE_ERROR_INIT_VALUE\<rparr>)"
  let ?w = "sync_wait RD_KAFKA_SYNC_SEND_POLL_TIME lib ?c"
  have np: "polls [?p] = 0" by (simp add: polls_def)
  have "polls (calls ?w) \<le> polls (calls c) + 30"
    using sync_wait_polls [of RD_KAFKA_SYNC_SEND_POLL_TIME lib ?c] np
    by (simp add: RD_KAFKA_SYNC_SEND_POLL_TIME_def)
  moreover have "served_by_poll lib (calls c @ [?p]) (calls ?w) 0" if "sync_send_err ?w = 0"
    using sync_wait_report [of ?c RD_KAFKA_SYNC_SEND_POLL_TIME lib] assms(1) that
    by (simp add: RD_KAFKA_PRODUCE_ERROR_INIT_VALUE_def)
  ultimately show ?thesis
    using assms np unfolding served_by_poll_def
    by (auto simp: producer_produce_def internalProduce_def Let_def split: if_splits)
qed

text \<open>Concrete data: a report, and a producer that is ready to send.\<close>

definition demo_report :: "string \<Rightarrow> int \<Rightarrow> rk_message" where
  "demo_report p e = \<lparr>m_ptr = 1, m_err = e, m_topic = Some ''t'', m_partition = 0, m_offset = 0,
     m_payload = Some p, m_key = None\<rparr>"

definition demo_producer :: "bool \<Rightarrow> producer" where
  "demo_producer sync = (producer_new logger_start)\<lparr>is_init := True, producer_handle := True,
     producer_topic := True, is_sync_send := sync\<rparr>"

theorem sync_produce_contract_witness:
  "Poll 100 \<in> set (calls (snd (producer_produce (quiet_lib\<lparr>rk_poll := \<lambda>_ _. [demo_report ''A'' 0]\<rparr>)
       ''A'' '''' (demo_producer True)))) \<and>
     fst (producer_produce (quiet_lib\<lparr>rk_poll := \<lambda>_ _. [demo_report ''A'' 0]\<rparr>) ''A'' '''' (demo_producer True))"
proof -
  let ?lib = "quiet_lib\<lparr>rk_poll := \<lambda>_ _. [demo_report ''A'' 0]\<rparr>"
  let ?r = "producer_produce ?lib ''A'' '''' (demo_producer True)"
  have s: "is_sync_send (demo_producer True)" by (simp add: demo_producer_def)
  have "fst ?r" by code_simp
  with sync_produce_contract [OF s surjective_pairing [of ?r]] show ?thesis
    by (auto simp: RD_KAFKA_PRODUCE_SYNC_SEND_POLL_TIMEOUT_MS_def)
qed

text \<open>The report is not matched with the message. If the report of a message whose \<open>produce\<close> timed
  out arrives during the next one, that call returns true although the only message ever reported as
  delivered is the first.\<close>

definition late_lib :: rk_lib where
  "late_lib = quiet_lib\<lparr>rk_poll := \<lambda>log _.
     if length (filter (\<lambda>x. case x of Produce _ _ _ \<Rightarrow> True | _ \<Rightarrow> False) log) = 2
     then [demo_report ''A'' 0] else []\<rparr>"

theorem sync_report_misattributed:
  "(let (first_ok, c) = producer_produce late_lib ''A'' '''' (demo_producer True);
        (second_ok, c) = producer_produce late_lib ''B'' '''' c
    in \<not> first_ok \<and> second_ok) \<and>
   (\<forall>log t. \<forall>d \<in> set (rk_poll late_lib log t). m_payload d = Some ''A'')"
proof -
  have "let (first_ok, c) = producer_produce late_lib ''A'' '''' (demo_producer True);
        (second_ok, c) = producer_produce late_lib ''B'' '''' c
    in \<not> first_ok \<and> second_ok" by code_simp
  then show ?thesis by (simp add: late_lib_def demo_report_def)
qed

text \<open>An asynchronous producer sends a message again for every failed report it is served while it
  is initialised, with the payload and key of the report, records the payload if it is configured
  to, and does nothing for a report of success; in synchronous mode it never sends again.\<close>

theorem reports_resend_failed_messages:
  "calls (producer_poll lib t c) = calls c @ Poll t #
     concat (map (\<lambda>m. if m_err m = 0 then []
       else (if \<not> is_sync_send c \<and> is_init c \<and> producer_handle c
             then [Produce (m_payload m) (m_key m) True] else []) @
            (if is_record_msg_for_send_failed c
             then [RecordMsg (case m_topic m of Some t \<Rightarrow> t | None \<Rightarrow> '''')
                     (case m_payload m of Some p \<Rightarrow> p | None \<Rightarrow> '''')]
             else [])) (rk_poll lib (calls c) t))"
proof -
  have "report_calls (emit (Poll t) c) = report_calls c"
    by (rule ext, rule report_calls_cong) simp_all
  then show ?thesis
    by (simp add: producer_poll_def calls_serve_reports) (simp add: report_calls_def [abs_def])
qed

lemma uninit_idle:
  "\<not> is_init c \<Longrightarrow> \<not> producer_topic c \<Longrightarrow> \<not> producer_handle c \<Longrightarrow> producer_uninit lib c = c"
  by (cases c) (simp add: producer_uninit_def Let_def)

text \<open>\<open>uninit\<close> destroys the topic, flushes once with the configured timeout and destroys the handle,
  in this order. The reports that the flush serves send nothing again, because the producer is
  marked as not initialised first. A second \<open>uninit\<close> changes nothing.\<close>

theorem uninit_order:
  "\<exists>records. (\<forall>x \<in> set records. \<exists>t p. x = RecordMsg t p) \<and>
     calls (producer_uninit lib c) = calls c @
       (if producer_topic c then [TopicDestroy] else []) @
       (if producer_handle c then Flush (flush_timeout_ms c) # records @ [HandleDestroy] else []) \<and>
     producer_uninit lib (producer_uninit lib c) = producer_uninit lib c"
proof -
  define c1 where "c1 = (let c = c\<lparr>is_init := False\<rparr> in
    if producer_topic c then (emit TopicDestroy c)\<lparr>producer_topic := False\<rparr> else c)"
  obtain reports err where f: "rk_flush lib (calls c1) (flush_timeout_ms c1) = (reports, err)" by force
  let ?f = "emit (Flush (flush_timeout_ms c1)) c1"
  let ?records = "concat (map (report_calls ?f) reports)"
  have c1: "producer_handle c1 = producer_handle c" "flush_timeout_ms c1 = flush_timeout_ms c"
    "\<not> producer_topic c1" "\<not> is_init c1"
    "calls c1 = calls c @ (if producer_topic c then [TopicDestroy] else [])"
    by (simp_all add: c1_def Let_def)
  have u: "producer_uninit lib c = (if producer_handle c1
      then (emit HandleDestroy (serve_reports reports ?f))\<lparr>producer_handle := False\<rparr> else c1)"
    using f unfolding c1_def Let_def
    by (cases "producer_topic c") (simp_all add: producer_uninit_def Let_def)
  have "\<forall>x \<in> set ?records. \<exists>t p. x = RecordMsg t p"
    using c1(4) by (auto simp: report_calls_def split: if_splits)
  moreover have "calls (producer_uninit lib c) = calls c @
       (if producer_topic c then [TopicDestroy] else []) @
       (if producer_handle c then Flush (flush_timeout_ms c) # ?records @ [HandleDestroy] else [])"
    by (simp add: u calls_serve_reports c1)
  moreover have "producer_uninit lib (producer_uninit lib c) = producer_uninit lib c"
    using c1(3,4) by (intro uninit_idle) (simp_all add: u)
  ultimately show ?thesis by blast
qed

theorem uninit_order_witness:
  "\<exists>records. calls (producer_uninit quiet_lib (producer_new logger_start\<lparr>producer_handle := True\<rparr>)) =
     Flush 3000 # records @ [HandleDestroy]"
  using uninit_order [of quiet_lib "producer_new logger_start\<lparr>producer_handle := True\<rparr>"]
  by (auto simp: producer_new_def RD_KAFKA_SDK_CONFIG_FLUSH_TIMEOUT_MS_DEFAULT_def)

section \<open>The partitioner\<close>

definition signed_byte :: "char \<Rightarrow> int" where
  "signed_byte c = sint (of_char c :: 8 word)"

lemma djb_hash_snoc: "djb_hash (key @ [ch]) = 33 * djb_hash key + word_of_int (signed_byte ch)"
proof -
  have "push_bit 5 h + h = 33 * h" for h :: "32 word"
    by (simp add: push_bit_eq_mult)
  moreover have "schar ch = word_of_int (signed_byte ch)"
    by (simp only: schar_def signed_byte_def scast_eq)
  ultimately show ?thesis by (simp add: djb_hash_def)
qed

lemma djb_hash_polynomial:
  "djb_hash key = word_of_int (5381 * 33 ^ length key +
     (\<Sum>i < length key. signed_byte (key ! i) * 33 ^ (length key - 1 - i)))"
proof (induction key rule: rev_induct)
  case (snoc ch key)
  have "(\<Sum>i < Suc (length key). signed_byte ((key @ [ch]) ! i) * 33 ^ (length key - i)) =
      (\<Sum>i < length key. signed_byte (key ! i) * 33 ^ (length key - i)) + signed_byte ch"
    by (simp add: nth_append)
  also have "(\<Sum>i < length key. signed_byte (key ! i) * 33 ^ (length key - i)) =
      33 * (\<Sum>i < length key. signed_byte (key ! i) * 33 ^ (length key - 1 - i))"
    unfolding sum_distrib_left
  proof (rule sum.cong [OF refl])
    fix i
    assume "i \<in> {..<length key}"
    then have "length key - i = Suc (length key - 1 - i)" by simp
    then have "(33 :: int) ^ (length key - i) = 33 * 33 ^ (length key - 1 - i)"
      by (metis power_Suc)
    then show "signed_byte (key ! i) * 33 ^ (length key - i) =
        33 * (signed_byte (key ! i) * 33 ^ (length key - 1 - i))" by simp
  qed
  finally have e: "5381 * 33 ^ length (key @ [ch]) +
      (\<Sum>i < length (key @ [ch]). signed_byte ((key @ [ch]) ! i) * 33 ^ (length (key @ [ch]) - 1 - i)) =
      33 * (5381 * 33 ^ length key +
        (\<Sum>i < length key. signed_byte (key ! i) * 33 ^ (length key - 1 - i))) + signed_byte ch"
    by (simp add: algebra_simps)
  show ?case
    unfolding djb_hash_snoc snoc.IH e by simp
qed (simp add: djb_hash_def)

lemma sint_uword_mod:
  assumes "0 < n" and "n < 2 ^ 31"
  shows "sint (h mod (word_of_int n :: 32 word)) = uint h mod n"
proof -
  have n: "uint (word_of_int n :: 32 word) = n"
    using assms by (simp add: uint_word_of_int)
  have "uint (h mod word_of_int n) = uint h mod n" by (simp add: uint_mod n)
  moreover have "uint h mod n < 2 ^ 31" using assms pos_mod_bound [of n "uint h"] by linarith
  moreover have "- (2 ^ 31) \<le> uint h mod n" using assms pos_mod_sign [of n "uint h"] by linarith
  ultimately show ?thesis by (simp add: sint_uint signed_take_bit_int_eq_self)
qed

text \<open>C24: A message with a key goes to a valid partition that depends on the key alone: the value of the
  polynomial in 33 over the key's signed bytes with leading coefficient 5381, modulo \<open>2^32\<close> and
  then modulo the number of partitions; when that partition is unavailable it goes to partition 0.\<close>

theorem keyed_partition:
  assumes "key \<noteq> ''''" and "0 < cnt" and "cnt < 2 ^ 31"
  defines "p \<equiv> ((5381 * 33 ^ length key +
     (\<Sum>i < length key. signed_byte (key ! i) * 33 ^ (length key - 1 - i))) mod 2 ^ 32) mod cnt"
  shows "partitionHashFunc fuel rand avail (Some key) cnt = Some (if avail 0 p then p else 0) \<and>
     0 \<le> p \<and> p < cnt"
proof -
  have "sint (djb_hash key mod (word_of_int cnt :: 32 word)) = p"
    unfolding sint_uword_mod [OF assms(2,3)] djb_hash_polynomial p_def uint_word_of_int by simp
  then show ?thesis
    using assms(1,2) by (simp add: partitionHashFunc_def Let_def p_def)
qed

theorem keyed_partition_witness:
  "partitionHashFunc 0 (\<lambda>_. 0) (\<lambda>_ _. True) (Some ''ab'') 10 = Some 8"
  using keyed_partition [of "''ab''" 10 0 "\<lambda>_. 0" "\<lambda>_ _. True"]
  by (simp add: signed_byte_def numeral_2_eq_2 lessThan_Suc)

lemma random_pick_result:
  assumes "random_pick fuel i rand avail s = Some p" and "s \<noteq> []"
  shows "(\<exists>j \<ge> i. p = rand j \<and> avail j p) \<or>
    (\<forall>q \<in> set s. \<exists>j \<ge> i. rand j = q \<and> \<not> avail j q)"
  using assms
proof (induction fuel i rand avail s rule: random_pick.induct)
  case (2 fuel i rand avail s)
  show ?case
  proof (cases "avail i (rand i)")
    case True
    with "2.prems" show ?thesis by auto
  next
    case False
    let ?s = "removeAll (rand i) s"
    show ?thesis
    proof (cases "?s = []")
      case True
      have "q = rand i" if "q \<in> set s" for q
        using True that by (metis Diff_iff emptyE list.set(1) set_removeAll singletonD)
      then show ?thesis using False by blast
    next
      case nonempty: False
      with False "2.prems" have "random_pick fuel (Suc i) rand avail ?s = Some p"
        by (simp add: Let_def)
      from "2.IH" [OF refl False refl nonempty this nonempty] show ?thesis
      proof
        assume "\<exists>j \<ge> Suc i. p = rand j \<and> avail j p"
        then show ?thesis using Suc_leD by blast
      next
        assume *: "\<forall>q \<in> set ?s. \<exists>j \<ge> Suc i. rand j = q \<and> \<not> avail j q"
        have "\<exists>j \<ge> i. rand j = q \<and> \<not> avail j q" if "q \<in> set s" for q
          using * that False by (cases "q = rand i") (auto dest: Suc_leD)
        then show ?thesis by blast
      qed
    qed
  qed
qed simp

lemma random_pick_ends:
  assumes "s \<noteq> []" and "\<forall>q \<in> set s. \<exists>j. i \<le> j \<and> j < i + n \<and> rand j = q"
  shows "\<exists>p. random_pick n i rand avail s = Some p"
  using assms
proof (induction n arbitrary: i s)
  case 0
  then show ?case by (cases s) auto
next
  case (Suc n)
  let ?s = "removeAll (rand i) s"
  have "\<exists>j. Suc i \<le> j \<and> j < Suc i + n \<and> rand j = q" if "q \<in> set ?s" for q
  proof -
    from that Suc.prems(2) obtain j where "i \<le> j" "j < i + Suc n" "rand j = q" by auto
    moreover from this that have "j \<noteq> i" by auto
    ultimately show ?thesis by (intro exI [of _ j]) auto
  qed
  then have "?s \<noteq> [] \<Longrightarrow> \<exists>p. random_pick n (Suc i) rand avail ?s = Some p"
    by (intro Suc.IH) auto
  then show ?case by (auto simp: Let_def)
qed

text \<open>C36: A message without a key goes to a partition that was available when it was drawn, unless every
  partition was seen unavailable, and the loop ends as soon as the random function has drawn every
  partition once: with that many iterations of fuel there is a result.\<close>

theorem random_partition:
  assumes "0 < cnt" and "\<forall>q. 0 \<le> q \<and> q < cnt \<longrightarrow> (\<exists>j < n. rand j = q)"
  shows "\<exists>p. partitionHashFunc n rand avail None cnt = Some p \<and>
    ((\<exists>j. p = rand j \<and> avail j p) \<or> (\<forall>q. 0 \<le> q \<and> q < cnt \<longrightarrow> (\<exists>j. rand j = q \<and> \<not> avail j q)))"
proof -
  have s: "[0..cnt - 1] \<noteq> []" using assms(1) by simp
  have d: "\<forall>q \<in> set [0..cnt - 1]. \<exists>j. 0 \<le> j \<and> j < 0 + n \<and> rand j = q"
  proof
    fix q
    assume "q \<in> set [0..cnt - 1]"
    then have "0 \<le> q \<and> q < cnt" by simp
    with assms(2) obtain j where "j < n" "rand j = q" by blast
    then show "\<exists>j. 0 \<le> j \<and> j < 0 + n \<and> rand j = q" by auto
  qed
  obtain p where p: "random_pick n 0 rand avail [0..cnt - 1] = Some p"
    using random_pick_ends [OF s d] by blast
  from random_pick_result [OF p s] have
    "(\<exists>j. p = rand j \<and> avail j p) \<or> (\<forall>q. 0 \<le> q \<and> q < cnt \<longrightarrow> (\<exists>j. rand j = q \<and> \<not> avail j q))"
    by fastforce
  with p show ?thesis by (simp add: partitionHashFunc_def)
qed

theorem random_partition_witness:
  "\<exists>p. partitionHashFunc 2 int (\<lambda>_ q. q = 1) None 2 = Some p"
proof -
  have "\<forall>q. 0 \<le> q \<and> q < (2 :: int) \<longrightarrow> (\<exists>j < 2. int j = q)"
    by (metis nat_less_iff of_nat_nat of_nat_numeral nat_0_le numeral_2_eq_2 nat_numeral)
  from random_partition [OF _ this, of "\<lambda>_ q. q = 1"] show ?thesis by auto
qed

text \<open>The loop of the partitioner has no bound of its own: while the random function keeps drawing an
  unavailable partition and another one was never drawn, it runs on.\<close>

theorem random_partition_may_not_end:
  "partitionHashFunc fuel (\<lambda>_. 0) (\<lambda>_ q. q = 1) None 2 = None"
proof -
  have "random_pick fuel i (\<lambda>_. 0) (\<lambda>_ q. q = 1) s = None" if "1 \<in> set s" for i and s :: "int list"
    using that
  proof (induction fuel arbitrary: i s)
    case (Suc fuel)
    then have "1 \<in> set (removeAll 0 s)" by simp
    moreover from this have "removeAll 0 s \<noteq> []" by (metis empty_iff empty_set)
    ultimately show ?case using Suc.IH by (simp add: Let_def)
  qed simp
  then show ?thesis by (simp add: partitionHashFunc_def)
qed

section \<open>Settings\<close>

lemma setRdKafkaConfig_producer [simp]:
  "producer_config (snd (setRdKafkaConfig lib b i v c)) = producer_config c"
  "producer_conf (snd (setRdKafkaConfig lib b i v c)) = producer_conf c"
  "producer_topic_conf (snd (setRdKafkaConfig lib b i v c)) = producer_topic_conf c"
  "is_sync_send (snd (setRdKafkaConfig lib b i v c)) = is_sync_send c"
  "producer_config (snd (setRdKafkaTopicConfig lib b i v c)) = producer_config c"
  "producer_conf (snd (setRdKafkaTopicConfig lib b i v c)) = producer_conf c"
  "producer_topic_conf (snd (setRdKafkaTopicConfig lib b i v c)) = producer_topic_conf c"
  "is_sync_send (snd (setRdKafkaTopicConfig lib b i v c)) = is_sync_send c"
  by (simp_all add: setRdKafkaConfig_def setRdKafkaTopicConfig_def)

lemma loadRdkafkaConfig_producer [simp]:
  "producer_config (loadRdkafkaConfig lib cfg b d c) = producer_config c"
  "producer_conf (loadRdkafkaConfig lib cfg b d c) = producer_conf c"
  "producer_topic_conf (loadRdkafkaConfig lib cfg b d c) = producer_topic_conf c"
  "is_sync_send (loadRdkafkaConfig lib cfg b d c) = is_sync_send c"
  unfolding loadRdkafkaConfig_def by (simp_all add: foldl_frame split: prod.split)

definition sync_setting :: "config_loader \<Rightarrow> bool" where
  "sync_setting cfg \<longleftrightarrow> value_matches (getSdkConfig cfg RD_KAFKA_SDK_CONFIG_SYNC_SEND DEFAULT_FALSE)
     RD_KAFKA_SDK_CONFIG_VALUE_SYNC_SEND"

lemma conf_steps_producer [simp]:
  "producer_config (default_conf lib i v c) = producer_config c"
  "producer_conf (default_conf lib i v c) = producer_conf c"
  "producer_topic_conf (default_conf lib i v c) = producer_topic_conf c"
  "is_sync_send (default_conf lib i v c) = is_sync_send c"
  "producer_config (default_topic_conf lib i v c) = producer_config c"
  "producer_conf (default_topic_conf lib i v c) = producer_conf c"
  "producer_topic_conf (default_topic_conf lib i v c) = producer_topic_conf c"
  "producer_config (set_latency_conf lib v c) = producer_config c"
  "producer_conf (set_latency_conf lib v c) = producer_conf c"
  "is_sync_send (set_latency_conf lib v c) = is_sync_send c"
  by (simp_all add: default_conf_def default_topic_conf_def set_latency_conf_def Let_def)

lemma last_conf_steps [conf_simps]:
  "last_conf (calls (default_conf lib i v c)) item =
     (if item = i \<and> item \<noteq> [] \<and> producer_conf c \<and>
         map_of (set_global_config_items (producer_config c)) item = None
      then Some v else last_conf (calls c) item)"
  "last_topic_conf (calls (default_conf lib i v c)) item = last_topic_conf (calls c) item"
  "last_conf (calls (default_topic_conf lib i v c)) item = last_conf (calls c) item"
  "last_topic_conf (calls (default_topic_conf lib i v c)) item =
     (if item = i \<and> item \<noteq> [] \<and> producer_topic_conf c \<and>
         map_of (set_topic_config_items (producer_config c)) item = None
      then Some v else last_topic_conf (calls c) item)"
  by (auto simp: default_conf_def default_topic_conf_def isSetConfig_def conf_simps
      simp del: calls_emit)

lemma last_conf_latency [conf_simps]:
  "\<lbrakk>item \<noteq> RD_KAFKA_CONFIG_QUEUE_BUFFERING_MAX_MS; item \<noteq> RD_KAFKA_CONFIG_SOCKET_BLOKING_MAX_MX\<rbrakk> \<Longrightarrow>
   last_conf (calls (set_latency_conf lib v c)) item = last_conf (calls c) item"
  "last_topic_conf (calls (set_latency_conf lib v c)) item = last_topic_conf (calls c) item"
  by (auto simp: set_latency_conf_def Let_def conf_simps simp del: calls_emit)

lemma init_send_mode_producer [simp]:
  "producer_config (init_send_mode lib c) = producer_config c"
  "producer_conf (init_send_mode lib c) = producer_conf c"
  by (simp_all add: init_send_mode_def Let_def)

lemma last_conf_init_send_mode [conf_simps]:
  "\<lbrakk>producer_conf c; item \<noteq> []; item \<noteq> RD_KAFKA_CONFIG_QUEUE_BUFFERING_MAX_MS;
    item \<noteq> RD_KAFKA_CONFIG_SOCKET_BLOKING_MAX_MX\<rbrakk> \<Longrightarrow>
   last_conf (calls (init_send_mode lib c)) item =
     (if item = RD_KAFKA_CONFIG_TOPIC_METADATA_REFRESH_INTERVAL \<and> sync_setting (producer_config c) \<and>
         map_of (set_global_config_items (producer_config c)) item = None
      then Some RD_KAFKA_CONFIG_TOPIC_METADATA_REFRESH_INTERVAL_WHEN_SYNC_SEND_MS
      else last_conf (calls c) item)"
  "last_topic_conf (calls (init_send_mode lib c)) item = last_topic_conf (calls c) item"
  by (cases "item = RD_KAFKA_CONFIG_TOPIC_METADATA_REFRESH_INTERVAL";
      force simp: init_send_mode_def sync_setting_def Let_def conf_simps simp del: calls_emit)+

lemma producer_api_version_producer [simp]:
  "producer_config (producer_api_version lib c) = producer_config c"
  by (simp add: producer_api_version_def Let_def)

lemma last_conf_producer_api_version [conf_simps]:
  "item \<noteq> RD_KAFKA_CONFIG_BROKER_VERSION_FALLBACK \<Longrightarrow>
   last_conf (calls (producer_api_version lib c)) item =
     (if item = RD_KAFKA_CONFIG_API_VERSION_REQUEST \<and> producer_conf c \<and>
         map_of (set_global_config_items (producer_config c)) item = None
      then Some RD_KAFKA_CONFIG_API_VERSION_REQUEST_FOR_OLDER else last_conf (calls c) item)"
  "last_topic_conf (calls (producer_api_version lib c)) item = last_topic_conf (calls c) item"
  by (auto simp: producer_api_version_def isSetConfig_def Let_def conf_simps conf_item_defs
      simp del: calls_emit)

lemma flush_timeout_range: "0 \<le> flush_timeout_of cfg \<and> flush_timeout_of cfg < 2 ^ 31"
  using long_to_int_range [of "strtol10 (getSdkConfig cfg RD_KAFKA_SDK_CONFIG_FLUSH_TIMEOUT_MS
      RD_KAFKA_SDK_CONFIG_FLUSH_TIMEOUT_MS_DEFAULT_STR)"]
  by (simp add: flush_timeout_of_def Let_def)

text \<open>The settings of a producer. Every property of the [global] section has the value of the file,
  except the two latency properties, \<open>topic.metadata.refresh.interval.ms\<close> and
  \<open>broker.version.fallback\<close>; the refresh interval is the file's value, or 300 ms for a synchronous
  and 30 s for an asynchronous producer. \<open>message.timeout.ms\<close> is 3 s unless the [topic] section sets
  it. The flush timeout is a number of milliseconds that is not negative.\<close>

theorem producer_settings:
  assumes "config_ok (producer_config c)" and "producer_conf c" and "producer_topic_conf c"
    and "item \<notin> {'''', RD_KAFKA_CONFIG_QUEUE_BUFFERING_MAX_MS, RD_KAFKA_CONFIG_SOCKET_BLOKING_MAX_MX,
      RD_KAFKA_CONFIG_TOPIC_METADATA_REFRESH_INTERVAL, RD_KAFKA_CONFIG_BROKER_VERSION_FALLBACK}"
    and "map_of (set_global_config_items (producer_config c)) item = Some v"
    and "c' = producer_topic_settings lib c"
  shows "last_conf (calls c') item = Some v \<and>
    last_conf (calls c') RD_KAFKA_CONFIG_TOPIC_METADATA_REFRESH_INTERVAL =
      (case map_of (set_global_config_items (producer_config c))
              RD_KAFKA_CONFIG_TOPIC_METADATA_REFRESH_INTERVAL of
         Some r \<Rightarrow> Some r
       | None \<Rightarrow> Some (if sync_setting (producer_config c) then ''300'' else ''30000'')) \<and>
    last_topic_conf (calls c') RD_KAFKA_TOPIC_MESSAGE_TIMEOUT =
      (case map_of (set_topic_config_items (producer_config c)) RD_KAFKA_TOPIC_MESSAGE_TIMEOUT of
         Some t \<Rightarrow> Some t | None \<Rightarrow> Some ''3000'') \<and>
    0 \<le> flush_timeout_ms c' \<and> flush_timeout_ms c' < 2 ^ 31"
proof -
  define c1 where "c1 = loadRdkafkaConfig lib (producer_config c) True True c"
  define c2 where "c2 = emit TopicConfSetPartitionerCb (emit ConfSetDrMsgCb
    (emit (ConfSetLogCb (sdk_switched_on (producer_config c) RD_KAFKA_SDK_CONFIG_ENABLE_RD_KAFKA_LOG)) c1))"
  define c3 where "c3 = default_conf lib RD_KAFKA_CONFIG_TOPIC_METADATA_REFRESH_INTERVAL
    RD_KAFKA_CONFIG_TOPIC_METADATA_REFRESH_INTERVAL_MS (default_topic_conf lib
      RD_KAFKA_TOPIC_MESSAGE_TIMEOUT RD_KAFKA_TOPIC_MESSAGE_TIMEOUT_MS c2)"
  define c4 where "c4 = init_send_mode lib
    (if sdk_switched_on (producer_config c) RD_KAFKA_SDK_CONFIG_PRODUCER_SPEED_UP_TERMINATE
     then c3\<lparr>is_speedup_terminate := True\<rparr> else c3)"
  have cfg: "producer_config c3 = producer_config c" "producer_conf c3"
    "producer_config c4 = producer_config c"
    using assms(2) by (simp_all add: c1_def c2_def c3_def c4_def)
  have c': "calls c' = calls (producer_api_version lib
      (if sdk_switched_on (producer_config c) RD_KAFKA_SDK_PRODUCER_HA_FASET_EXIT
       then c4\<lparr>fast_exit := True\<rparr> else c4))"
    using assms(2,3) by (simp add: assms(6) producer_topic_settings_def Let_def c1_def c2_def c3_def c4_def)
  have s1: "last_conf (calls c3) i = (if i = RD_KAFKA_CONFIG_TOPIC_METADATA_REFRESH_INTERVAL \<and>
        map_of (set_global_config_items (producer_config c)) i = None
      then Some RD_KAFKA_CONFIG_TOPIC_METADATA_REFRESH_INTERVAL_MS
      else case map_of (set_global_config_items (producer_config c)) i of
        Some v \<Rightarrow> Some v | None \<Rightarrow> last_conf (calls c) i)" if "i \<noteq> []" for i
    using that assms(1-3) by (auto simp: c3_def c2_def c1_def conf_simps simp del: calls_emit)
  have s2: "last_conf (calls c') i = (if i = RD_KAFKA_CONFIG_TOPIC_METADATA_REFRESH_INTERVAL \<and>
        sync_setting (producer_config c) \<and> map_of (set_global_config_items (producer_config c)) i = None
      then Some RD_KAFKA_CONFIG_TOPIC_METADATA_REFRESH_INTERVAL_WHEN_SYNC_SEND_MS
      else last_conf (calls c3) i)"
    if i: "i \<notin> {[], RD_KAFKA_CONFIG_QUEUE_BUFFERING_MAX_MS, RD_KAFKA_CONFIG_SOCKET_BLOKING_MAX_MX,
          RD_KAFKA_CONFIG_BROKER_VERSION_FALLBACK}"
      and api: "i = RD_KAFKA_CONFIG_API_VERSION_REQUEST \<longrightarrow>
       map_of (set_global_config_items (producer_config c)) i \<noteq> None" for i
  proof -
    have "last_conf (calls c') i = last_conf (calls c4) i"
      using i api cfg unfolding c'
      by (cases "sdk_switched_on (producer_config c) RD_KAFKA_SDK_PRODUCER_HA_FASET_EXIT")
         (auto simp: conf_simps simp del: calls_emit)
    with i cfg show ?thesis unfolding c4_def by (auto simp: conf_simps simp del: calls_emit)
  qed
  have "last_conf (calls c') item = Some v"
    using assms(4,5) s2 [of item] s1 [of item] by auto
  moreover have "last_conf (calls c') RD_KAFKA_CONFIG_TOPIC_METADATA_REFRESH_INTERVAL =
      (case map_of (set_global_config_items (producer_config c))
              RD_KAFKA_CONFIG_TOPIC_METADATA_REFRESH_INTERVAL of
         Some r \<Rightarrow> Some r
       | None \<Rightarrow> Some (if sync_setting (producer_config c) then ''300'' else ''30000''))"
    using s2 [of RD_KAFKA_CONFIG_TOPIC_METADATA_REFRESH_INTERVAL]
      s1 [of RD_KAFKA_CONFIG_TOPIC_METADATA_REFRESH_INTERVAL]
    by (simp add: conf_item_defs conf_value_defs split: option.split)
  moreover have "last_topic_conf (calls c') RD_KAFKA_TOPIC_MESSAGE_TIMEOUT =
      (case map_of (set_topic_config_items (producer_config c)) RD_KAFKA_TOPIC_MESSAGE_TIMEOUT of
         Some t \<Rightarrow> Some t | None \<Rightarrow> Some ''3000'')"
    using assms(1-3) unfolding c' c4_def c3_def c2_def c1_def
    by (simp add: conf_simps conf_item_defs conf_value_defs del: calls_emit split: option.split)
  moreover have "flush_timeout_ms c' = flush_timeout_of (producer_config c)"
    unfolding assms(6) by (simp add: producer_topic_settings_def Let_def)
  ultimately show ?thesis using flush_timeout_range by simp
qed

theorem producer_settings_witness:
  "last_conf (calls (producer_topic_settings quiet_lib ((producer_new logger_start)
     \<lparr>producer_conf := True, producer_topic_conf := True,
      producer_config := config_empty\<lparr>set_global_config_items := [(''acks'', ''all'')]\<rparr>\<rparr>))) ''acks'' =
   Some ''all''"
  by (rule producer_settings [THEN conjunct1, OF _ _ _ _ _ refl])
     (simp_all add: config_ok_def config_empty_def smap_ok_def conf_item_defs)

section \<open>The map of the PHP build\<close>

text \<open>The map key is the concatenation of cluster, topic and configuration path, so two different
  triples can share it: once a producer was initialised under a key, \<open>init\<close> under any triple with the
  same concatenation succeeds without reading a configuration and gives the same implementation,
  which keeps sending to the first topic.\<close>

theorem php_init_shares_by_concatenation:
  assumes "PhpProducer_init pt lib cl lp cp topic ptr w = (True, Pointer a, w')"
    and "cl' @ topic' @ cp' = cl @ topic @ cp" and "smap_ok (kRmb w)"
  shows "PhpProducer_init pt' lib' cl' lp' cp' topic' ptr' w' = (True, Pointer a, w')"
  using assms
  by (auto simp: PhpProducer_init_def Let_def smap.find_insert_new
      split: option.splits prod.splits if_splits)

theorem php_init_shares_by_concatenation_witness:
  "PhpProducer_init (ini_lib (\<lambda>_. Inl ''no file'')) quiet_lib ''h:1'' ''log'' ''b.conf'' ''topica'' PhpProducer_new
     (world_start\<lparr>kRmb := [(''h:1topicab.conf'', 7)]\<rparr>) =
   (True, Pointer 7, world_start\<lparr>kRmb := [(''h:1topicab.conf'', 7)]\<rparr>)"
proof (rule php_init_shares_by_concatenation)
  let ?w = "world_start\<lparr>kRmb := [(''h:1topicab.conf'', 7)]\<rparr>"
  show "PhpProducer_init (ini_lib (\<lambda>_. Inl ''no file'')) quiet_lib ''h:1'' ''log'' ''ab.conf'' ''topic''
      PhpProducer_new ?w = (True, Pointer 7, ?w)"
    by (simp add: PhpProducer_init_def)
qed (simp_all add: world_start_def smap_ok_def)

text \<open>A failed \<open>init\<close> deletes the implementation and keeps the pointer: the next \<open>produce\<close> of a
  message that is not empty follows it, which is undefined, as is any \<open>produce\<close> before \<open>init\<close>. An
  empty message is reported as sent either way.\<close>

theorem php_failed_init_leaves_dangling_pointer:
  assumes "PhpProducer_init pt lib cl lp cp topic ptr w = (False, ptr', w')" and "data \<noteq> ''''"
  shows "PhpProducer_produce lib' (Some data) key ptr' w' = None \<and>
    PhpProducer_produce lib' (Some data) key PhpProducer_new w' = None \<and>
    PhpProducer_produce lib' (Some '''') key ptr' w' = Some (True, w') \<and>
    PhpProducer_produce lib' None key ptr' w' = Some (True, w')"
proof -
  have "map_of (filter (\<lambda>x. fst x \<noteq> a) m) a = None" for a :: nat and m :: "(nat \<times> producer) list"
    by (auto simp: map_of_eq_None_iff)
  then show ?thesis
    using assms
    by (auto simp: PhpProducer_init_def PhpProducer_produce_def PhpProducer_new_def Let_def
        split: option.splits prod.splits if_splits)
qed

theorem php_failed_init_leaves_dangling_pointer_witness:
  "let (ok, ptr, w) = PhpProducer_init (ini_lib (\<lambda>_. Inl ''no file'')) quiet_lib ''h:1'' '''' ''c'' ''t''
       PhpProducer_new world_start
   in PhpProducer_produce quiet_lib (Some ''x'') '''' ptr w = None"
proof -
  let ?i = "PhpProducer_init (ini_lib (\<lambda>_. Inl ''no file'')) quiet_lib ''h:1'' '''' ''c'' ''t''
       PhpProducer_new world_start"
  have "\<not> fst ?i"
    by (simp add: PhpProducer_init_def world_start_def producer_init_def loadConfig_def ini_lib_def
        Let_def)
  then obtain ptr w where i: "?i = (False, ptr, w)" by (cases ?i) auto
  from php_failed_init_leaves_dangling_pointer [OF i, of "''x''"] show ?thesis by (simp add: i)
qed

section \<open>The interface\<close>

lemma uninit_uninit: "producer_uninit lib (producer_uninit lib c) = producer_uninit lib c"
proof (rule uninit_idle)
  show "\<not> is_init (producer_uninit lib c)" "\<not> producer_topic (producer_uninit lib c)"
    "\<not> producer_handle (producer_uninit lib c)"
    by (simp_all add: producer_uninit_def Let_def split: prod.split)
qed

lemma calls_report_prefix: "prefix (calls c) (calls (serve_reports ms c))"
  by (simp add: calls_serve_reports)

lemma sync_wait_frame [simp]:
  "is_init (sync_wait n lib c) = is_init c"
  by (induction n lib c rule: sync_wait.induct) auto

lemma prefix_sync_wait: "prefix (calls c) (calls (sync_wait n lib c))"
proof (induction n lib c rule: sync_wait.induct)
  case (2 n lib c)
  then show ?case
    using calls_prefix_poll [of c lib RD_KAFKA_PRODUCE_SYNC_SEND_POLL_TIMEOUT_MS]
    by (auto intro: prefix_order.order_trans)
qed simp

lemma prefix_emit: "prefix (calls c) (calls (emit x c))"
  by simp

lemma prefix_internalProduce:
  "prefix (calls c) (calls (snd (internalProduce lib d k opaque c)))"
proof -
  have "prefix (calls c) (calls (sync_wait n lib (emit x (c\<lparr>sync_send_err := e\<rparr>))))" for n x e
    using prefix_sync_wait [of "emit x (c\<lparr>sync_send_err := e\<rparr>)" n lib] by (auto simp: prefix_def)
  moreover have "prefix (calls c) (calls (producer_poll lib t (emit x (c\<lparr>sync_send_err := e\<rparr>))))" for t x e
    using calls_prefix_poll [of "emit x (c\<lparr>sync_send_err := e\<rparr>)" lib t] by (auto simp: prefix_def)
  ultimately show ?thesis by (simp add: internalProduce_def Let_def)
qed

lemma prefix_uninit: "prefix (calls c) (calls (producer_uninit lib c))"
  by (simp add: producer_uninit_def Let_def calls_serve_reports split: prod.split)

interpretation kafka_imp: producer_interface is_init "\<lambda>d k. KProducer_produce lib (Some d) k"
  "KProducer_uninit lib" calls for lib :: rk_lib
proof unfold_locales
  fix d k and s :: producer
  show "\<exists>new. calls (snd (KProducer_produce lib (Some d) k s)) = calls s @ new"
    using prefix_internalProduce [of s lib d k False]
    by (auto simp: KProducer_produce_def producer_produce_def prefix_def)
  show "\<exists>new. calls (KProducer_uninit lib s) = calls s @ new"
    using prefix_uninit [of s lib] by (auto simp: KProducer_uninit_def prefix_def)
qed (simp_all add: KProducer_produce_def producer_produce_def KProducer_uninit_def uninit_uninit
       internalProduce_def producer_uninit_def Let_def split: prod.split)

end
