(* ===== verification/Kafka_Record_Msg.thy ===== *)
theory Kafka_Record_Msg
  imports Kafka_Producer_Props
begin

text \<open>
  The file of the messages that could not be sent, \<open>QbusRecordMsg\<close> (kafka/qbus_record_msg.cc). The
  static members are the record \<open>recorder\<close>, one per process; what is asked of log4cplus is appended
  to its log. A Kafka producer calls \<open>recordMsg\<close> from its delivery reports; its own log lists these
  calls as \<open>RecordMsg\<close>, and \<open>record_calls\<close> makes them.
\<close>

definition RECORD_DEFAULT_LOG_FILE_NAME :: string where
  "RECORD_DEFAULT_LOG_FILE_NAME = ''record_msg.qbus''"

definition RECORD_LOGGER_NAME :: string where
  "RECORD_LOGGER_NAME = ''__record_msg_for_send_fail__''"

definition RECORD_FILE_BACKUP_INDEX :: int where
  "RECORD_FILE_BACKUP_INDEX = 24"

text \<open>An appender that starts a new file each hour and keeps a number of old ones, with its name and
  the pattern of its layout; the level of the logger; an event.\<close>

datatype record_call =
    AddHourlyAppender string string int string string
    \<comment> \<open>the logger, the file, the number of backups, the name, the pattern\<close>
  | SetInfoLevel string
  | LogInfo string string

record recorder =
  rec_sInit :: bool
  rec_log :: "record_call list"

definition recorder_start :: recorder where
  "recorder_start = \<lparr>rec_sInit = False, rec_log = []\<rparr>"

text \<open>\<open>init\<close>; the layout and the appender come from \<open>new\<close>, which does not give NULL.\<close>

definition recorder_init :: "recorder \<Rightarrow> recorder" where
  "recorder_init r =
     r\<lparr>rec_log := rec_log r @
         [AddHourlyAppender RECORD_LOGGER_NAME RECORD_DEFAULT_LOG_FILE_NAME RECORD_FILE_BACKUP_INDEX
            ''record log'' ''%m %n'',
          SetInfoLevel RECORD_LOGGER_NAME],
       rec_sInit := True\<rparr>"

definition recordMsg :: "string \<Rightarrow> string \<Rightarrow> recorder \<Rightarrow> recorder" where
  "recordMsg topic msg r =
     (let r = (if \<not> rec_sInit r then recorder_init r else r)
      in if rec_sInit r
         then r\<lparr>rec_log := rec_log r @ [LogInfo RECORD_LOGGER_NAME (topic @ ''|'' @ msg)]\<rparr>
         else r)"

definition record_calls :: "rk_call list \<Rightarrow> recorder \<Rightarrow> recorder" where
  "record_calls log r =
     foldl (\<lambda>r x. case x of RecordMsg topic msg \<Rightarrow> recordMsg topic msg r | _ \<Rightarrow> r) r log"

section \<open>Lemmas\<close>

lemma record_calls_append: "record_calls (log @ log') r = record_calls log' (record_calls log r)"
  by (simp add: record_calls_def)

lemma rec_sInit_recordMsg [simp]: "rec_sInit (recordMsg t m r)"
  by (simp add: recordMsg_def recorder_init_def Let_def)

lemma rec_log_recordMsg: "rec_log (recordMsg t m r) = rec_log r @
    (if rec_sInit r then [] else rec_log (recorder_init recorder_start)) @
    [LogInfo RECORD_LOGGER_NAME (t @ ''|'' @ m)]"
  by (simp add: recordMsg_def recorder_init_def recorder_start_def Let_def)

definition recorded_lines :: "rk_call list \<Rightarrow> record_call list" where
  "recorded_lines log = concat (map (\<lambda>x. case x of
     RecordMsg t m \<Rightarrow> [LogInfo RECORD_LOGGER_NAME (t @ ''|'' @ m)] | _ \<Rightarrow> []) log)"

lemma rec_log_record_calls:
  "rec_log (record_calls log r) = rec_log r @
     (if rec_sInit r \<or> recorded_lines log = [] then [] else rec_log (recorder_init recorder_start)) @
     recorded_lines log"
  "rec_sInit (record_calls log r) \<longleftrightarrow> rec_sInit r \<or> recorded_lines log \<noteq> []"
proof (induction log arbitrary: r)
  case (Cons x log)
  {
    case 1
    show ?case using Cons.IH
      by (cases x) (simp_all add: record_calls_def recorded_lines_def rec_log_recordMsg)
  next
    case 2
    show ?case using Cons.IH
      by (cases x) (simp_all add: record_calls_def recorded_lines_def)
  }
qed (simp_all add: record_calls_def recorded_lines_def)

section \<open>Property\<close>

text \<open>A producer that is configured to record failed messages leaves in the record, for the
  delivery reports it serves, one line topic|payload for each report of a failure and for no other,
  in the order of the reports; the file is set up before the first line and never again.\<close>

theorem failed_messages_recorded:
  assumes "is_record_msg_for_send_failed c" and "recorded_lines (calls c) = []"
  defines "failed \<equiv> \<lambda>reports. map (\<lambda>m. LogInfo RECORD_LOGGER_NAME
     ((case m_topic m of Some t \<Rightarrow> t | None \<Rightarrow> '''') @ ''|'' @
      (case m_payload m of Some p \<Rightarrow> p | None \<Rightarrow> ''''))) (filter (\<lambda>m. m_err m \<noteq> 0) reports)"
  shows "rec_log (record_calls (calls (serve_reports reports c)) recorder_start) =
     (if failed reports = [] then [] else rec_log (recorder_init recorder_start)) @ failed reports"
proof -
  have "recorded_lines (calls (serve_reports reports c)) = recorded_lines (calls c) @ failed reports"
    using assms(1)
    by (simp add: calls_serve_reports recorded_lines_def failed_def)
       (induction reports, simp_all add: report_calls_def)
  with assms(2) rec_log_record_calls(1) [of "calls (serve_reports reports c)" recorder_start]
  show ?thesis by (simp add: recorder_start_def)
qed

theorem failed_messages_recorded_witness:
  "rec_log (record_calls (calls (serve_reports
      [demo_report ''a'' 1, demo_report ''b'' 0, demo_report ''c'' 2]
      ((demo_producer False)\<lparr>is_record_msg_for_send_failed := True\<rparr>))) recorder_start) =
   rec_log (recorder_init recorder_start) @
     [LogInfo RECORD_LOGGER_NAME ''t|a'', LogInfo RECORD_LOGGER_NAME ''t|c'']"
  using failed_messages_recorded [of "(demo_producer False)\<lparr>is_record_msg_for_send_failed := True\<rparr>"
      "[demo_report ''a'' 1, demo_report ''b'' 0, demo_report ''c'' 2]"]
  by (simp add: demo_producer_def producer_new_def demo_report_def recorded_lines_def)

end
