(* ===== verification/Pulsar_Lib.thy ===== *)
theory Pulsar_Lib
  imports Qbus_Prelude Cpp_Strings "HOL-Library.Signed_Division"
begin

text \<open>
  The interface of the Pulsar C++ client that the code uses, and the timer. As with librdkafka, the
  calls made go to a log and the record \<open>pulsar_lib\<close> says what is answered, as a function of the
  log. \<open>None\<close> is the message id \<open>MessageId()\<close>, which no message of a broker has;
  \<open>pl_serialize\<close> and \<open>pl_deserialize\<close> are a library's round trip (\<open>id_law\<close>). An unordered map is
  an association list whose iteration order is the library's \<open>pl_order\<close>, of which \<open>order_law\<close> only
  says that it is a permutation.
\<close>

section \<open>Data\<close>

type_synonym message_id = "nat option"

datatype pl_result = ResultOk | ResultTimeout | ResultProducerQueueIsFull | ResultError int

record pl_message =
  pm_topic :: string        \<comment> \<open>\<open>getTopicName()\<close>\<close>
  pm_id :: message_id
  pm_data :: string

datatype compression = CompressionNone | CompressionLZ4 | CompressionZLib | CompressionZSTD

text \<open>The settings of \<open>ProducerConfiguration\<close> that the code makes besides constants.\<close>

record pl_producer_conf =
  conf_send_timeout :: int
  conf_batching_enabled :: bool
  conf_batching_max_messages :: int
  conf_batching_max_bytes :: int
  conf_batching_max_publish_delay :: int
  conf_compression :: compression
  conf_max_pending :: int

text \<open>\<open>QbusMsgContentInfo\<close>, as the Pulsar clients fill it.\<close>

record pulsar_info =
  pi_topic :: string
  pi_msg :: string
  pi_msg_len :: nat
  pi_msg_id :: string

section \<open>Calls and answers\<close>

datatype pl_call =
    PlNow
  | PlClient string string string string      \<comment> \<open>service URL, token, log level, log path\<close>
  | PlSubscribe "string list" string
  | PlSubscribeOne string string
  | PlReceive int | PlReceived pl_result "pl_message option"
  | PlAck message_id
  | PlCloseConsumer | PlCloseClient
  | PlDeliver message_id string string nat    \<comment> \<open>\<open>deliveryMsg\<close>, by the message it was called for\<close>
  | PlDeliverForCommit message_id pulsar_info
  | PlCreateProducer string pl_producer_conf
  | PlSend string "string option"             \<comment> \<open>payload and partition key\<close>
  | PlSleep int
  | PlFlush | PlCloseProducer

record pulsar_lib =
  pl_now :: "pl_call list \<Rightarrow> int"               \<comment> \<open>\<open>high_resolution_clock\<close>, in nanoseconds\<close>
  pl_subscribe :: "pl_call list \<Rightarrow> pl_result"
  pl_receive :: "pl_call list \<Rightarrow> int \<Rightarrow> pl_result \<times> pl_message"
  pl_ack :: "pl_call list \<Rightarrow> message_id \<Rightarrow> pl_result"
  pl_close :: "pl_call list \<Rightarrow> pl_result"
  pl_create_producer :: "pl_call list \<Rightarrow> pl_result"
  pl_send :: "pl_call list \<Rightarrow> pl_result option"
    \<comment> \<open>\<open>Some\<close>: the callback runs with this result before \<open>sendAsync\<close> returns\<close>
  pl_flush :: "pl_call list \<Rightarrow> pl_result"
  pl_serialize :: "message_id \<Rightarrow> string"
  pl_deserialize :: "string \<Rightarrow> message_id"
  pl_order :: "string list \<Rightarrow> string list"

definition id_law :: "pulsar_lib \<Rightarrow> bool" where
  "id_law lib \<longleftrightarrow> (\<forall>i. pl_deserialize lib (pl_serialize lib i) = i)"

definition order_law :: "pulsar_lib \<Rightarrow> bool" where
  "order_law lib \<longleftrightarrow> (\<forall>ks. mset (pl_order lib ks) = mset ks)"

record pl_client =
  pl_calls :: "pl_call list"

definition pl_emit :: "pl_call \<Rightarrow> 'a pl_client_scheme \<Rightarrow> 'a pl_client_scheme" where
  "pl_emit x c = c\<lparr>pl_calls := pl_calls c @ [x]\<rparr>"

lemma pl_calls_emit [simp]: "pl_calls (pl_emit x c) = pl_calls c @ [x]"
  by (simp add: pl_emit_def)

text \<open>A library that accepts everything and serves no messages; ids are written in decimal.\<close>

definition quiet_pulsar :: pulsar_lib where
  "quiet_pulsar = \<lparr>
     pl_now = (\<lambda>_. 0), pl_subscribe = (\<lambda>_. ResultOk),
     pl_receive = (\<lambda>_ _. (ResultTimeout, \<lparr>pm_topic = '''', pm_id = None, pm_data = ''''\<rparr>)),
     pl_ack = (\<lambda>_ _. ResultOk), pl_close = (\<lambda>_. ResultOk),
     pl_create_producer = (\<lambda>_. ResultOk), pl_send = (\<lambda>_. None), pl_flush = (\<lambda>_. ResultOk),
     pl_serialize = (\<lambda>i. case i of None \<Rightarrow> '''' | Some n \<Rightarrow> show_nat n),
     pl_deserialize = (\<lambda>s. if s = '''' then None else Some (digits_value s)),
     pl_order = (\<lambda>ks. ks)\<rparr>"

lemma quiet_pulsar_laws: "id_law quiet_pulsar" "order_law quiet_pulsar"
  by (simp_all add: id_law_def order_law_def quiet_pulsar_def split: option.split)

section \<open>Timer\<close>

text \<open>
  pulsar/timer.cc. A time point is a number of nanoseconds; \<open>duration_cast\<close> to microseconds and the
  division by 1000 both truncate towards zero. \<open>before_\<close> starts at the epoch. Time points and the interval
  are unbounded numbers here; they stand for values of \<open>int64_t\<close> whose differences do not overflow, as those
  of a clock are for about 292 years.
\<close>

record timer =
  timer_before :: int
  timer_interval_ms :: int

definition timer_new :: timer where
  "timer_new = \<lparr>timer_before = 0, timer_interval_ms = 2 ^ 63 - 1\<rparr>"

definition Timer_start :: "int \<Rightarrow> timer \<Rightarrow> timer" where
  "Timer_start now t = t\<lparr>timer_before := now\<rparr>"

definition Timer_stop :: "int \<Rightarrow> timer \<Rightarrow> int \<times> timer" where
  "Timer_stop now t =
     (let result = (now - timer_before t) sdiv 1000;
          result = result sdiv 1000;
          t = (if result \<ge> timer_interval_ms t then t\<lparr>timer_before := now\<rparr> else t)
      in (result, t))"

definition Timer_setIntervalMs :: "int \<Rightarrow> timer \<Rightarrow> timer" where
  "Timer_setIntervalMs interval_ms t = t\<lparr>timer_interval_ms := interval_ms\<rparr>"

lemma Timer_stop_interval [simp]:
  "timer_interval_ms (snd (Timer_stop now t)) = timer_interval_ms t"
  by (simp add: Timer_stop_def Let_def)

text \<open>Truncation in two steps is truncation in one.\<close>

lemma sdiv_nonneg: "0 \<le> a \<Longrightarrow> 0 < b \<Longrightarrow> a sdiv b = a div b" for a b :: int
  by (cases "a = 0") (simp_all add: signed_divide_int_def)

lemma sdiv_nonpos: "a \<le> 0 \<Longrightarrow> 0 < b \<Longrightarrow> a sdiv b = - (- a div b)" for a b :: int
  by (cases "a = 0") (simp_all add: signed_divide_int_def)

lemma sdiv_sdiv: "0 < b \<Longrightarrow> 0 < c \<Longrightarrow> a sdiv b sdiv c = a sdiv (b * c)" for a b c :: int
proof (cases "0 \<le> a")
  case True
  assume "0 < b" "0 < c"
  with True show ?thesis
    by (simp add: sdiv_nonneg zdiv_zmult2_eq pos_imp_zdiv_nonneg_iff)
next
  case False
  assume bc: "0 < b" "0 < c"
  then have "0 \<le> - a div b" using False by (simp add: pos_imp_zdiv_nonneg_iff)
  with bc have "(- a div b) sdiv c = - a div b div c" by (intro sdiv_nonneg)
  with False bc show ?thesis
    by (simp add: sdiv_nonpos zdiv_zmult2_eq)
qed

end
