(* ===== verification/Pulsar_Logging.thy ===== *)
theory Pulsar_Logging
  imports Pulsar_Lib
begin

text \<open>
  The logging of the Pulsar side: the adapter from the Pulsar client's \<open>Logger\<close> to log4cplus
  (pulsar/log4cplus_logger.cc), the macros of pulsar/log_utils.h, and the two functions that only
  write or format for the log (pulsar/property_tree_proxy.cc, to_string.h). What is asked of
  log4cplus is appended to a log of calls; every logger object works on log4cplus' root logger, so
  that the log is one per process. \<open>LogLevelManager::fromString\<close> is the parameter \<open>from_string\<close>. A
  logger object is kept per source file and thread, as the macro \<open>DECLARE_LOG_OBJECT\<close> does.
\<close>

section \<open>Log4cplusLogger\<close>

datatype pulsar_level = LEVEL_DEBUG | LEVEL_INFO | LEVEL_WARN | LEVEL_ERROR

fun level_index :: "pulsar_level \<Rightarrow> nat" where
  "level_index LEVEL_DEBUG = 0"
| "level_index LEVEL_INFO = 1"
| "level_index LEVEL_WARN = 2"
| "level_index LEVEL_ERROR = 3"

datatype l4_level = DEBUG_LOG_LEVEL | INFO_LOG_LEVEL | WARN_LOG_LEVEL | ERROR_LOG_LEVEL

definition kLog4cplusLevel :: "l4_level list" where
  "kLog4cplusLevel = [DEBUG_LOG_LEVEL, INFO_LOG_LEVEL, WARN_LOG_LEVEL, ERROR_LOG_LEVEL]"

datatype l4_appender = RollingFile string int | Console

datatype l4_call =
    L4Initialize
  | L4SetLevel int
  | L4RemoveAllAppenders
  | L4AddAppender l4_appender string        \<comment> \<open>with the pattern of its layout\<close>
  | L4Log l4_level string string int        \<comment> \<open>message, file, line\<close>

record log4cplus_logger =
  l4_level_field :: pulsar_level            \<comment> \<open>\<open>level_\<close>\<close>
  l4_filename :: string

definition Log4cplusLogger_new :: "string \<Rightarrow> log4cplus_logger" where
  "Log4cplusLogger_new filename = \<lparr>l4_level_field = LEVEL_DEBUG, l4_filename = filename\<rparr>"

definition isEnabled :: "pulsar_level \<Rightarrow> log4cplus_logger \<Rightarrow> bool" where
  "isEnabled level lg \<longleftrightarrow> level_index level \<ge> level_index (l4_level_field lg)"

text \<open>The assertion on the level holds for every value of the enumeration.\<close>

definition l4_log :: "pulsar_level \<Rightarrow> int \<Rightarrow> string \<Rightarrow> log4cplus_logger \<Rightarrow> l4_call list \<Rightarrow> l4_call list" where
  "l4_log level line message lg log =
     log @ [L4Log (kLog4cplusLevel ! level_index level) message (l4_filename lg) line]"

definition l4_setLevel :: "(string \<Rightarrow> int) \<Rightarrow> string \<Rightarrow> l4_call list \<Rightarrow> l4_call list" where
  "l4_setLevel from_string level log = log @ [L4SetLevel (from_string level)]"

definition log_pattern :: string where
  "log_pattern = ''[%p] [%D{%m/%d/%y %H:%M:%S,%q}] [%t] [%l] - %m %n''"

definition appender_of :: "string \<Rightarrow> l4_appender" where
  "appender_of path = (if path \<noteq> '''' then RollingFile path (100 * 1024 * 1024) else Console)"

definition l4_setLogPath :: "string \<Rightarrow> l4_call list \<Rightarrow> l4_call list" where
  "l4_setLogPath path log =
     log @ [L4RemoveAllAppenders, L4AddAppender (appender_of path) log_pattern]"

section \<open>Log4cplusLoggerFactory\<close>

record logger_factory =
  fac_level :: string
  fac_log_path :: string

text \<open>The process: the flag of \<open>call_once\<close>, the calls, and the thread-specific loggers.\<close>

record log_process =
  l4_once :: bool
  l4_calls :: "l4_call list"
  thread_loggers :: "(string \<times> nat) \<Rightarrow> log4cplus_logger option"

definition log_process_start :: log_process where
  "log_process_start = \<lparr>l4_once = False, l4_calls = [], thread_loggers = (\<lambda>_. None)\<rparr>"

definition LoggerFactory_new :: "string \<Rightarrow> string \<Rightarrow> log_process \<Rightarrow> logger_factory \<times> log_process" where
  "LoggerFactory_new level log_path s =
     (\<lparr>fac_level = level, fac_log_path = log_path\<rparr>,
      if l4_once s then s else s\<lparr>l4_once := True, l4_calls := l4_calls s @ [L4Initialize]\<rparr>)"

definition factory_setLevel :: "string \<Rightarrow> logger_factory \<Rightarrow> logger_factory" where
  "factory_setLevel level f = f\<lparr>fac_level := level\<rparr>"

definition factory_setLogPath :: "string \<Rightarrow> logger_factory \<Rightarrow> logger_factory" where
  "factory_setLogPath log_path f = f\<lparr>fac_log_path := log_path\<rparr>"

definition getLogger ::
  "(string \<Rightarrow> int) \<Rightarrow> logger_factory \<Rightarrow> string \<Rightarrow> log_process \<Rightarrow> log4cplus_logger \<times> log_process" where
  "getLogger from_string f filename s =
     (Log4cplusLogger_new filename,
      s\<lparr>l4_calls := l4_setLogPath (fac_log_path f) (l4_setLevel from_string (fac_level f) (l4_calls s))\<rparr>)"

section \<open>The macros\<close>

text \<open>\<open>DECLARE_LOG_OBJECT\<close>: the logger of a source file in the running thread, from the factory
  that is installed when it is first asked for. \<open>logger_name\<close> is \<open>LogUtils::getLoggerName\<close>.\<close>

definition logger_object ::
  "(string \<Rightarrow> int) \<Rightarrow> (string \<Rightarrow> string) \<Rightarrow> logger_factory \<Rightarrow> string \<Rightarrow> nat \<Rightarrow> log_process \<Rightarrow>
     log4cplus_logger \<times> log_process" where
  "logger_object from_string logger_name f source_file thread s =
     (case thread_loggers s (source_file, thread) of
        Some lg \<Rightarrow> (lg, s)
      | None \<Rightarrow>
          (let (lg, s) = getLogger from_string f (logger_name source_file) s
           in (lg, s\<lparr>thread_loggers := (thread_loggers s)((source_file, thread) \<mapsto> lg)\<rparr>)))"

text \<open>A statement \<open>LOG_x(message)\<close>: where it stands, at which level, and with which text.\<close>

record log_statement =
  ls_file :: string
  ls_thread :: nat
  ls_level :: pulsar_level
  ls_function :: string
  ls_line :: int
  ls_message :: string

definition log_macro ::
  "(string \<Rightarrow> int) \<Rightarrow> (string \<Rightarrow> string) \<Rightarrow> logger_factory \<Rightarrow> log_statement \<Rightarrow> log_process \<Rightarrow> log_process" where
  "log_macro from_string logger_name f st s =
     (let (lg, s) = logger_object from_string logger_name f (ls_file st) (ls_thread st) s
      in if isEnabled (ls_level st) lg
         then s\<lparr>l4_calls := l4_log (ls_level st) (ls_line st)
                 (ls_function st @ '' | '' @ ls_message st) lg (l4_calls s)\<rparr>
         else s)"

section \<open>Texts for the log\<close>

fun joined :: "nat \<Rightarrow> string list \<Rightarrow> string" where
  "joined i [] = ''''"
| "joined i (x # xs) = (if i > 0 then '', '' else '''') @ x @ joined (Suc i) xs"

definition vector_to_string :: "string list \<Rightarrow> string" where
  "vector_to_string v = ''['' @ joined 0 v @ '']''"

definition bad_data_text :: "string \<Rightarrow> string \<Rightarrow> string \<Rightarrow> string" where
  "bad_data_text key value type =
     ''Failed to convert '' @ value @ ''(of key: '' @ key @ '') to '' @ type"

section \<open>What the calls leave attached to the root logger\<close>

text \<open>\<open>removeAllAppenders\<close> leaves none, \<open>addAppender\<close> adds one.\<close>

fun attach_step :: "l4_appender list \<Rightarrow> l4_call \<Rightarrow> l4_appender list" where
  "attach_step as L4RemoveAllAppenders = []"
| "attach_step as (L4AddAppender a _) = as @ [a]"
| "attach_step as _ = as"

definition attached :: "l4_call list \<Rightarrow> l4_appender list" where
  "attached log = foldl attach_step [] log"

text \<open>The lines that are passed to log4cplus, with their levels.\<close>

definition logged :: "l4_call list \<Rightarrow> (l4_level \<times> string) list" where
  "logged log = concat (map (\<lambda>x. case x of L4Log l m _ _ \<Rightarrow> [(l, m)] | _ \<Rightarrow> []) log)"

text \<open>A run: statements, each with the factory that is installed at that time.\<close>

definition run_statements ::
  "(string \<Rightarrow> int) \<Rightarrow> (string \<Rightarrow> string) \<Rightarrow> (logger_factory \<times> log_statement) list \<Rightarrow> log_process \<Rightarrow>
     log_process" where
  "run_statements from_string logger_name sts s =
     foldl (\<lambda>s (f, st). log_macro from_string logger_name f st s) s sts"

text \<open>The statement that last made a new logger object, by its factory: the first of its file and
  thread.\<close>

fun last_creator :: "(logger_factory \<times> log_statement) list \<Rightarrow> (string \<times> nat) list \<Rightarrow> logger_factory option" where
  "last_creator [] seen = None"
| "last_creator ((f, st) # sts) seen =
     (case last_creator sts ((ls_file st, ls_thread st) # seen) of
        Some g \<Rightarrow> Some g
      | None \<Rightarrow> if (ls_file st, ls_thread st) \<in> set seen then None else Some f)"

section \<open>Lemmas\<close>

lemma attached_append [simp]: "attached (log @ log') = foldl attach_step (attached log) log'"
  by (simp add: attached_def)

lemma logged_append [simp]: "logged (log @ log') = logged log @ logged log'"
  by (simp add: logged_def)

lemma logged_simps [simp]:
  "logged [] = []" "logged (L4Log l m f i # log) = (l, m) # logged log"
  "logged (L4SetLevel i # log) = logged log" "logged (L4RemoveAllAppenders # log) = logged log"
  "logged (L4AddAppender a p # log) = logged log" "logged (L4Initialize # log) = logged log"
  by (simp_all add: logged_def)

definition loggers_debug :: "log_process \<Rightarrow> bool" where
  "loggers_debug s \<longleftrightarrow> (\<forall>k lg. thread_loggers s k = Some lg \<longrightarrow> l4_level_field lg = LEVEL_DEBUG)"

lemma log_macro_cases:
  fixes fs ln f st s k s'
  assumes "loggers_debug s" and "k = (ls_file st, ls_thread st)" and "s' = log_macro fs ln f st s"
  shows "loggers_debug s'" "dom (thread_loggers s') = insert k (dom (thread_loggers s))"
    "logged (l4_calls s') = logged (l4_calls s) @
       [(kLog4cplusLevel ! level_index (ls_level st), ls_function st @ '' | '' @ ls_message st)]"
    "attached (l4_calls s') = (if k \<in> dom (thread_loggers s) then attached (l4_calls s)
       else [appender_of (fac_log_path f)])"
  using assms
  by (auto simp: log_macro_def logger_object_def getLogger_def Let_def isEnabled_def
      Log4cplusLogger_new_def loggers_debug_def l4_log_def l4_setLogPath_def l4_setLevel_def
      split: option.splits)

lemma run_statements_from:
  assumes "loggers_debug s" and "dom (thread_loggers s) = set seen"
  shows "logged (l4_calls (run_statements fs ln sts s)) = logged (l4_calls s) @
      map (\<lambda>(f, st). (kLog4cplusLevel ! level_index (ls_level st),
        ls_function st @ '' | '' @ ls_message st)) sts \<and>
    attached (l4_calls (run_statements fs ln sts s)) =
      (case last_creator sts seen of None \<Rightarrow> attached (l4_calls s)
       | Some f \<Rightarrow> [appender_of (fac_log_path f)])"
  using assms
proof (induction sts arbitrary: s seen)
  case (Cons x sts)
  obtain f st where x: "x = (f, st)" by force
  note m = log_macro_cases [OF Cons.prems(1) refl refl, where fs = fs and ln = ln and f = f and st = st]
  have "dom (thread_loggers (log_macro fs ln f st s)) = set ((ls_file st, ls_thread st) # seen)"
    using m(2) Cons.prems(2) by simp
  from Cons.IH [OF m(1) this] m(3,4) Cons.prems(2) show ?case
    by (auto simp: x run_statements_def split: option.split)
qed (simp add: run_statements_def)

section \<open>Property\<close>

text \<open>However many clients, threads and source files log, all of it goes to one place:
  after any statements of a new process exactly one appender is attached, that of the factory which
  made the youngest logger object, so that it moves the lines of all the others. Every statement is
  passed to log4cplus, whatever its level, because the level of the adapter itself stays at debug.\<close>

theorem log_goes_to_last_factory:
  fixes from_string logger_name sts
  assumes "sts \<noteq> []"
  defines "s \<equiv> run_statements from_string logger_name sts log_process_start"
  shows "(\<exists>f. f \<in> fst ` set sts \<and> last_creator sts [] = Some f \<and>
       attached (l4_calls s) = [appender_of (fac_log_path f)]) \<and>
     logged (l4_calls s) = map (\<lambda>(f, st). (kLog4cplusLevel ! level_index (ls_level st),
       ls_function st @ '' | '' @ ls_message st)) sts"
proof -
  have c: "f \<in> fst ` set sts" if "last_creator sts seen = Some f" for f sts seen
    using that by (induction sts seen rule: last_creator.induct)
      (auto split: option.splits if_splits)
  have "last_creator sts [] \<noteq> None" using assms(1)
    by (cases sts) (auto split: option.split)
  with c [of sts "[]"] run_statements_from [of log_process_start "[]" from_string logger_name sts]
  show ?thesis by (auto simp: s_def log_process_start_def loggers_debug_def)
qed

theorem log_goes_to_last_factory_witness:
  "attached (l4_calls (run_statements (\<lambda>_. 0) (\<lambda>f. f)
     [(\<lparr>fac_level = ''info'', fac_log_path = ''a.log''\<rparr>, \<lparr>ls_file = ''x.cc'', ls_thread = 1, ls_level = LEVEL_INFO,
         ls_function = ''init'', ls_line = 1, ls_message = ''hello''\<rparr>),
      (\<lparr>fac_level = ''info'', fac_log_path = ''''\<rparr>, \<lparr>ls_file = ''y.cc'', ls_thread = 1, ls_level = LEVEL_DEBUG,
         ls_function = ''send'', ls_line = 2, ls_message = ''bye''\<rparr>),
      (\<lparr>fac_level = ''info'', fac_log_path = ''b.log''\<rparr>, \<lparr>ls_file = ''x.cc'', ls_thread = 1, ls_level = LEVEL_INFO,
         ls_function = ''init'', ls_line = 1, ls_message = ''again''\<rparr>)] log_process_start)) = [Console]"
  (is "attached (l4_calls (run_statements _ _ ?sts _)) = _")
proof -
  have "last_creator ?sts [] = Some \<lparr>fac_level = ''info'', fac_log_path = ''''\<rparr>" by simp
  then show ?thesis using log_goes_to_last_factory [of ?sts] by (simp add: appender_of_def)
qed

end
