(* ===== verification/Kafka_Diagnostics.thy ===== *)
theory Kafka_Diagnostics
  imports Kafka_Topics Kafka_Logger
begin

text \<open>
  The parts of the Kafka side that only write what they see: the macros of the log
  (kafka/util/logger.h), the callback that appends the
  log of librdkafka to the file rdkafka.log (kafka/qbus_helper.cc), and
  \<open>resetAllOffsetOfAllPartitionOfTopic\<close> (kafka/qbus_consumer.cc), which logs the positions of the
  partitions and changes none; its call in the rebalance callback is commented out.
\<close>

section \<open>The log of librdkafka\<close>

text \<open>\<open>file\<close> is the text of the file before, \<open>opens\<close> whether it can be opened, and \<open>now\<close> what
  \<open>asctime(gmtime(&timep))\<close> returns, which ends with a newline.\<close>

definition rdKafkaLogger ::
  "bool \<Rightarrow> string \<Rightarrow> int \<Rightarrow> string option \<Rightarrow> string option \<Rightarrow> string \<Rightarrow> string" where
  "rdKafkaLogger opens now level fac buf file =
     (if opens
      then file @ now @ '' | RD_KAFKA_LOG'' @ '' | level: '' @ show_int level @ '' | fac: '' @
             (case fac of Some f \<Rightarrow> f | None \<Rightarrow> '''') @ '' | msg: '' @
             (case buf of Some b \<Rightarrow> b | None \<Rightarrow> '''') @ [char_of (10 :: nat)]
      else file)"

section \<open>The macros of the log\<close>

text \<open>\<open>__FILENAME__\<close> cuts the path of the source before its last slash, \<open>FILE_AND_LINE\<close> begins every
  line. A macro hands its line to log4cplus only when \<open>Logger::instance\<close> is not NULL, which it asks
  twice; log4cplus drops the lines below the level of the logger. The result is the line that
  log4cplus gets, with the priority of the macro, and the state that \<open>instance\<close> leaves.\<close>

definition filename_of :: "string \<Rightarrow> string" where
  "filename_of file = (case rfind file ''/'' of Some i \<Rightarrow> drop (i + 1) file | None \<Rightarrow> file)"

definition file_and_line :: "string \<Rightarrow> int \<Rightarrow> string" where
  "file_and_line file line = ''['' @ filename_of file @ '':'' @ show_int line @ ''] ''"

definition log_with ::
  "log_level \<Rightarrow> string \<Rightarrow> int \<Rightarrow> string \<Rightarrow> logger_state \<Rightarrow> (log_level \<times> string) option \<times> logger_state" where
  "log_with priority file line msg s =
     (let (found, s) = Logger_instance s
      in if found
         then (let (found, s) = Logger_instance s in (Some (priority, file_and_line file line @ msg), s))
         else (None, s))"

definition INFO where "INFO = log_with LL_INFO"
definition DEBUG where "DEBUG = log_with LL_DEBUG"
definition WARNING where "WARNING = log_with LL_WARNING"
definition ERROR where "ERROR = log_with LL_ERROR"

section \<open>Positions\<close>

text \<open>What \<open>rd_kafka_position\<close> answers: an error, and the list with a position and an error for each
  partition. \<open>err2str\<close> is \<open>rd_kafka_err2str\<close>.\<close>

datatype logged_line = ErrorLine string | DebugLine string

definition position_line :: "(int \<Rightarrow> string) \<Rightarrow> rk_partition \<times> int \<Rightarrow> logged_line" where
  "position_line err2str x =
     (let (p, err) = x;
          place = '' | topic: '' @ p_topic p @ '' | partition: '' @ show_int (p_partition p)
      in if err \<noteq> 0
         then ErrorLine (''resetAllOffsetOfAllPartitionOfTopic'' @ '' | Failed to rd_kafka_position'' @
                place @ '' | err msg: '' @ err2str err)
         else DebugLine (''resetAllOffsetOfAllPartitionOfTopic'' @ '' | Sucesses to rd_kafka_position'' @
                place @ '' | offset: '' @ show_int (p_offset p)))"

definition resetAllOffsetOfAllPartitionOfTopic ::
  "(int \<Rightarrow> string) \<Rightarrow> (rk_partition list \<Rightarrow> int \<times> (rk_partition \<times> int) list) \<Rightarrow>
     rk_partition list option \<Rightarrow> logged_line list" where
  "resetAllOffsetOfAllPartitionOfTopic err2str position partitions =
     (case partitions of
        None \<Rightarrow> []
      | Some l \<Rightarrow> (let (err, l) = position l in if err = 0 then map (position_line err2str) l else []))"

section \<open>Lemmas\<close>

text \<open>A line reaches log4cplus exactly while the logger is initialised, and after \<open>uninit\<close> none does;
  the name in it holds no slash.\<close>

lemma rfind_char:
  "case rfind s [c] of None \<Rightarrow> c \<notin> set s | Some i \<Rightarrow> c \<notin> set (drop (Suc i) s)"
  by (induction s) (auto split: option.splits)

lemma filename_of_no_slash: "CHR ''/'' \<notin> set (filename_of file)"
  using rfind_char [where s = "file" and c = "CHR ''/''"] by (auto simp: filename_of_def split: option.splits)

lemma log_with_passes:
  "fst (log_with priority file line msg s) =
     (if sInit s then Some (priority, file_and_line file line @ msg) else None)"
  by (simp add: log_with_def Logger_instance_def)

lemma log_with_after_uninit: "fst (log_with priority file line msg (Logger_uninit s)) = None"
  by (simp add: log_with_passes Logger_uninit_def)

lemma log_with_ok: "logger_ok s \<Longrightarrow> snd (log_with priority file line msg s) = s"
  by (simp add: log_with_def Logger_instance_def logger_ok_def)

text \<open>Nothing is lost of the file, and one call writes one record.\<close>

lemma rdKafkaLogger_appends: "\<exists>record. rdKafkaLogger opens now level fac buf file = file @ record"
  by (simp add: rdKafkaLogger_def)

lemma rdKafkaLogger_empty:
  "rdKafkaLogger True now level fac buf old = old @ rdKafkaLogger True now level fac buf []"
  by (simp add: rdKafkaLogger_def)

lemma foldl_rdKafkaLogger:
  "foldl (\<lambda>f (now, level, fac, buf). rdKafkaLogger True now level fac buf f) old msgs =
     old @ concat (map (\<lambda>(now, level, fac, buf). rdKafkaLogger True now level fac buf []) msgs)"
proof (induction msgs arbitrary: old)
  case (Cons x msgs)
  then show ?case
    by (cases x) (simp add: rdKafkaLogger_empty [where old = old])
qed simp

text \<open>Every partition that librdkafka reports is logged, at the level of an error exactly if it has one.\<close>

lemma length_reset_lines:
  "position l = (0, l') \<Longrightarrow>
     length (resetAllOffsetOfAllPartitionOfTopic err2str position (Some l)) = length l' \<and>
     (\<forall>i < length l'. (\<exists>s. resetAllOffsetOfAllPartitionOfTopic err2str position (Some l) ! i = ErrorLine s) \<longleftrightarrow>
        snd (l' ! i) \<noteq> 0)"
  by (simp add: resetAllOffsetOfAllPartitionOfTopic_def position_line_def Let_def case_prod_unfold)

end
