(* ===== verification/Loop_Thread.thy ===== *)
theory Loop_Thread
  imports Qbus_Prelude
begin

text \<open>
  A thread that runs a loop while a flag is set, and another thread that stops it: it resets the flag
  (\<open>quit\<close>), does something else (\<open>aside\<close>), and waits for the thread to end. The body of the loop is a
  small machine with local variables \<open>'l\<close>, so that the flag may be reset at any point of an iteration;
  \<open>leave\<close> is what the thread does after the loop.

  The locale \<open>stoppable_loop\<close> states what makes this harmless. \<open>whole\<close> says what the rest of an
  iteration does; on the part of the state that matters (\<open>view\<close>) it neither depends on what \<open>aside\<close>
  changes nor on the flag. From these laws, when the waiting is over the state is that of some number
  of whole iterations followed by \<open>quit\<close> and \<open>leave\<close> (\<open>joined_serial\<close>), and after \<open>quit\<close> every schedule
  ends there, within a number of steps that is known in advance (\<open>bounded_stop\<close>, \<open>not_stuck\<close>).
\<close>

datatype 'l loop_pc = Testing | Inside 'l | Ended

datatype control_pc = Running | Resetting | Waiting | Joined

record ('s, 'l) loop_machine =
  lm_state :: 's
  lm_thread :: "'l loop_pc"
  lm_control :: control_pc

definition loop_start :: "'s \<Rightarrow> ('s, 'l) loop_machine" where
  "loop_start s = \<lparr>lm_state = s, lm_thread = Testing, lm_control = Running\<rparr>"

inductive loop_step ::
  "('s \<Rightarrow> bool) \<Rightarrow> 'l \<Rightarrow> ('l \<Rightarrow> 's \<Rightarrow> ('l \<times> 's) option) \<Rightarrow> ('s \<Rightarrow> 's) \<Rightarrow> ('s \<Rightarrow> 's) \<Rightarrow> ('s \<Rightarrow> 's) \<Rightarrow>
     ('s, 'l) loop_machine \<Rightarrow> ('s, 'l) loop_machine \<Rightarrow> bool"
  for flag enter transit quit aside leave where
  iterate: "lm_thread m = Testing \<Longrightarrow> flag (lm_state m) \<Longrightarrow>
    loop_step flag enter transit quit aside leave m (m\<lparr>lm_thread := Inside enter\<rparr>)"
| exit_loop: "lm_thread m = Testing \<Longrightarrow> \<not> flag (lm_state m) \<Longrightarrow>
    loop_step flag enter transit quit aside leave m
      (m\<lparr>lm_state := leave (lm_state m), lm_thread := Ended\<rparr>)"
| work: "lm_thread m = Inside l \<Longrightarrow> transit l (lm_state m) = Some (l', s') \<Longrightarrow>
    loop_step flag enter transit quit aside leave m (m\<lparr>lm_state := s', lm_thread := Inside l'\<rparr>)"
| end_iteration: "lm_thread m = Inside l \<Longrightarrow> transit l (lm_state m) = None \<Longrightarrow>
    loop_step flag enter transit quit aside leave m (m\<lparr>lm_thread := Testing\<rparr>)"
| reset: "lm_control m = Running \<Longrightarrow>
    loop_step flag enter transit quit aside leave m
      (m\<lparr>lm_state := quit (lm_state m), lm_control := Resetting\<rparr>)"
| go_wait: "lm_control m = Resetting \<Longrightarrow>
    loop_step flag enter transit quit aside leave m
      (m\<lparr>lm_state := aside (lm_state m), lm_control := Waiting\<rparr>)"
| join: "lm_control m = Waiting \<Longrightarrow> lm_thread m = Ended \<Longrightarrow>
    loop_step flag enter transit quit aside leave m (m\<lparr>lm_control := Joined\<rparr>)"

inductive loop_run ::
  "('s \<Rightarrow> bool) \<Rightarrow> 'l \<Rightarrow> ('l \<Rightarrow> 's \<Rightarrow> ('l \<times> 's) option) \<Rightarrow> ('s \<Rightarrow> 's) \<Rightarrow> ('s \<Rightarrow> 's) \<Rightarrow> ('s \<Rightarrow> 's) \<Rightarrow>
     ('s, 'l) loop_machine \<Rightarrow> nat \<Rightarrow> ('s, 'l) loop_machine \<Rightarrow> bool"
  for flag enter transit quit aside leave where
  no_step: "loop_run flag enter transit quit aside leave m 0 m"
| one_more: "loop_run flag enter transit quit aside leave m k m1 \<Longrightarrow>
    loop_step flag enter transit quit aside leave m1 m2 \<Longrightarrow>
    loop_run flag enter transit quit aside leave m (Suc k) m2"

lemma loop_run_prepend:
  assumes "loop_step flag enter transit quit aside leave m m1"
    and "loop_run flag enter transit quit aside leave m1 k m2"
  shows "loop_run flag enter transit quit aside leave m (Suc k) m2"
  using assms(2,1) by (induction rule: loop_run.induct) (auto intro: loop_run.intros)

locale stoppable_loop =
  fixes flag :: "'s \<Rightarrow> bool"
    and enter :: 'l
    and transit :: "'l \<Rightarrow> 's \<Rightarrow> ('l \<times> 's) option"
    and quit aside leave :: "'s \<Rightarrow> 's"
    and view :: "'s \<Rightarrow> 'v"
    and whole :: "'l \<Rightarrow> 's \<Rightarrow> 's"
    and rank :: "'l \<Rightarrow> nat"
  assumes whole_end: "transit l s = None \<Longrightarrow> whole l s = s"
    and whole_step: "transit l s = Some (l', s') \<Longrightarrow> whole l' s' = whole l s"
    and rank_step: "transit l s = Some (l', s') \<Longrightarrow> rank l' < rank l"
    and flag_step: "transit l s = Some (l', s') \<Longrightarrow> flag s' = flag s"
    and flag_quit: "\<not> flag (quit s)"
    and flag_aside: "flag (aside s) = flag s"
    and view_whole: "view s = view t \<Longrightarrow> view (whole l s) = view (whole l t)"
    and view_quit: "view s = view t \<Longrightarrow> view (quit s) = view (quit t)"
    and view_leave: "view s = view t \<Longrightarrow> view (leave s) = view (leave t)"
    and view_aside: "view (aside s) = view s"
    and whole_quit: "view (whole l (quit s)) = view (quit (whole l s))"
begin

abbreviation step :: "('s, 'l) loop_machine \<Rightarrow> ('s, 'l) loop_machine \<Rightarrow> bool" where
  "step \<equiv> loop_step flag enter transit quit aside leave"

abbreviation run :: "('s, 'l) loop_machine \<Rightarrow> nat \<Rightarrow> ('s, 'l) loop_machine \<Rightarrow> bool" where
  "run \<equiv> loop_run flag enter transit quit aside leave"

text \<open>A state after whole iterations.\<close>

definition iterated :: "nat \<Rightarrow> 's \<Rightarrow> 's" where
  "iterated n s = (whole enter ^^ n) s"

text \<open>The state once the iteration that is running has ended.\<close>

definition pending :: "('s, 'l) loop_machine \<Rightarrow> 's" where
  "pending m = (case lm_thread m of Inside l \<Rightarrow> whole l (lm_state m) | _ \<Rightarrow> lm_state m)"

definition serial :: "'s \<Rightarrow> ('s, 'l) loop_machine \<Rightarrow> bool" where
  "serial s m \<longleftrightarrow>
     (if lm_control m = Running
      then flag (lm_state m) \<and> lm_thread m \<noteq> Ended \<and> (\<exists>n. view (pending m) = view (iterated n s))
      else \<not> (flag (lm_state m)) \<or> lm_thread m = Ended) \<and>
     (lm_control m \<noteq> Running \<longrightarrow>
       (\<exists>n. view (pending m) =
          (if lm_thread m = Ended then view (leave (quit (iterated n s))) else view (quit (iterated n s))))) \<and>
     (lm_control m = Joined \<longrightarrow> lm_thread m = Ended)"

lemma serial_start: "flag s \<Longrightarrow> serial s (loop_start s)"
  by (auto simp: serial_def loop_start_def pending_def iterated_def intro: exI [of _ 0])

lemma pending_simps [simp]:
  "pending (m\<lparr>lm_thread := Testing\<rparr>) = lm_state m" "pending (m\<lparr>lm_thread := Ended\<rparr>) = lm_state m"
  "pending (m\<lparr>lm_thread := Inside l\<rparr>) = whole l (lm_state m)"
  "pending (m\<lparr>lm_control := p\<rparr>) = pending m"
  "pending (m\<lparr>lm_state := t, lm_thread := Inside l\<rparr>) = whole l t"
  "pending (m\<lparr>lm_state := t, lm_thread := Ended\<rparr>) = t"
  "pending (m\<lparr>lm_state := t, lm_control := p\<rparr>) = pending (m\<lparr>lm_state := t\<rparr>)"
  by (simp_all add: pending_def split: loop_pc.split)

lemma pending_quit: "view (pending (m\<lparr>lm_state := quit (lm_state m)\<rparr>)) = view (quit (pending m))"
  by (cases "lm_thread m") (simp_all add: pending_def whole_quit)

lemma pending_aside: "view (pending (m\<lparr>lm_state := aside (lm_state m)\<rparr>)) = view (pending m)"
  by (cases "lm_thread m") (simp_all add: pending_def view_aside view_whole [OF view_aside])

lemma serial_step:
  assumes "step m m'" and "serial s m"
  shows "serial s m'"
  using assms(1)
proof (cases rule: loop_step.cases)
  case iterate
  have w: "view (whole enter (lm_state m)) = view (iterated (Suc n) s)"
    if "view (lm_state m) = view (iterated n s)" for n
    using view_whole [OF that] by (simp add: iterated_def)
  have "pending m = lm_state m" using iterate by (simp add: pending_def)
  with iterate assms(2) w show ?thesis by (auto simp: serial_def split: if_splits)
next
  case exit_loop
  have "view (leave (lm_state m)) = view (leave (quit (iterated n s)))"
    if "view (lm_state m) = view (quit (iterated n s))" for n
    using view_leave [OF that] .
  moreover have "pending m = lm_state m" using exit_loop by (simp add: pending_def)
  ultimately show ?thesis using exit_loop assms(2) by (auto simp: serial_def split: if_splits)
next
  case (work l l' s')
  then have "pending m' = pending m" "flag (lm_state m') = flag (lm_state m)"
    using whole_step flag_step by (auto simp: pending_def)
  with work assms(2) show ?thesis by (auto simp: serial_def)
next
  case (end_iteration l)
  then have "pending m' = pending m" using whole_end by (simp add: pending_def)
  with end_iteration assms(2) show ?thesis by (auto simp: serial_def)
next
  case reset
  then obtain n where n: "view (pending m) = view (iterated n s)" "lm_thread m \<noteq> Ended"
    using assms(2) by (auto simp: serial_def)
  have "view (pending m') = view (quit (iterated n s))"
    using reset pending_quit [of m] view_quit [OF n(1)] by simp
  with reset n(2) show ?thesis by (auto simp: serial_def flag_quit)
next
  case go_wait
  then have "view (pending m') = view (pending m)" using pending_aside [of m] by simp
  with go_wait assms(2) show ?thesis by (auto simp: serial_def flag_aside)
next
  case join
  with assms(2) show ?thesis by (auto simp: serial_def)
qed

lemma serial_run: "run m k m' \<Longrightarrow> serial s m \<Longrightarrow> serial s m'"
  by (induction rule: loop_run.induct) (auto intro: serial_step)

lemma joined_serial:
  assumes "run (loop_start s) k m" and "flag s" and "lm_control m = Joined"
  shows "\<exists>n. view (lm_state m) = view (leave (quit (iterated n s)))"
  using serial_run [OF assms(1) serial_start [OF assms(2)]] assms(3)
  by (auto simp: serial_def pending_def)

text \<open>The number of steps that are left once the flag was reset.\<close>

definition steps_left :: "('s, 'l) loop_machine \<Rightarrow> nat" where
  "steps_left m =
     (case lm_control m of Running \<Rightarrow> 3 | Resetting \<Rightarrow> 2 | Waiting \<Rightarrow> 1 | Joined \<Rightarrow> 0) +
     (case lm_thread m of Inside l \<Rightarrow> rank l + 2 | Testing \<Rightarrow> 1 | Ended \<Rightarrow> 0)"

definition stopping :: "('s, 'l) loop_machine \<Rightarrow> bool" where
  "stopping m \<longleftrightarrow> lm_control m \<noteq> Running \<and> (lm_thread m \<noteq> Ended \<longrightarrow> \<not> flag (lm_state m)) \<and>
     (lm_control m = Joined \<longrightarrow> lm_thread m = Ended)"

lemma stopping_step:
  assumes "step m m'" and "stopping m"
  shows "stopping m'" "steps_left m' < steps_left m"
proof -
  have "stopping m' \<and> steps_left m' < steps_left m"
    using assms
    by (cases rule: loop_step.cases)
       (auto simp: stopping_def steps_left_def flag_quit flag_aside dest: flag_step rank_step)
  then show "stopping m'" "steps_left m' < steps_left m" by simp_all
qed

lemma bounded_stop: "run m k m' \<Longrightarrow> stopping m \<Longrightarrow> stopping m' \<and> k + steps_left m' \<le> steps_left m"
proof (induction rule: loop_run.induct)
  case (one_more m k m1 m2)
  with stopping_step [OF one_more.hyps(2)] show ?case by fastforce
qed simp

lemma not_stuck: "stopping m \<Longrightarrow> lm_control m \<noteq> Joined \<Longrightarrow> \<exists>m'. step m m'"
proof (cases "lm_thread m")
  case (Inside l)
  then show ?thesis by (cases "transit l (lm_state m)") (auto intro: work end_iteration)
next
  case Testing
  then show ?thesis by (cases "flag (lm_state m)") (auto intro: iterate exit_loop)
next
  case Ended
  assume "stopping m" "lm_control m \<noteq> Joined"
  with Ended show ?thesis by (cases "lm_control m") (auto simp: stopping_def intro: go_wait join)
qed

text \<open>Every schedule can be continued until the waiting is over.\<close>

lemma stop_returns: "stopping m \<Longrightarrow> \<exists>k m'. run m k m' \<and> lm_control m' = Joined"
proof (induction "steps_left m" arbitrary: m rule: less_induct)
  case less
  show ?case
  proof (cases "lm_control m = Joined")
    case True
    then show ?thesis by (intro exI [of _ 0] exI [of _ m]) (simp add: no_step)
  next
    case False
    from not_stuck [OF less.prems this] obtain m1 where s: "step m m1" ..
    note st = stopping_step [OF s less.prems]
    from less.hyps [OF st(2) st(1)] obtain k m' where "run m1 k m'" "lm_control m' = Joined" by blast
    with loop_run_prepend [OF s] show ?thesis by blast
  qed
qed

lemma stopping_reachable:
  assumes "run (loop_start s) k m" and "flag s" and "lm_control m \<noteq> Running"
  shows "stopping m"
  using serial_run [OF assms(1) serial_start [OF assms(2)]] assms(3)
  by (auto simp: serial_def stopping_def)

lemma bounded_return:
  assumes "run (loop_start s) k m" and "flag s" and "lm_control m \<noteq> Running"
    and rank: "\<And>l. rank l \<le> r"
  shows "\<forall>j m'. run m j m' \<longrightarrow>
     j \<le> r + 4 \<and> (\<exists>i m''. run m' i m'' \<and> lm_control m'' = Joined)"
proof (intro allI impI)
  fix j m'
  assume j: "run m j m'"
  have s: "stopping m" using stopping_reachable [OF assms(1-3)] .
  have "rank l \<le> Suc r" for l by (simp add: le_SucI rank)
  with s have "steps_left m \<le> r + 4"
    by (auto simp: steps_left_def stopping_def rank split: control_pc.split loop_pc.split)
  with bounded_stop [OF j s] stop_returns [of m']
  show "j \<le> r + 4 \<and> (\<exists>i m''. run m' i m'' \<and> lm_control m'' = Joined)" by auto
qed

text \<open>And every number of iterations is possible.\<close>

lemma run_append:
  assumes "run m2 j m3" and "run m1 k m2"
  shows "run m1 (k + j) m3"
  using assms by (induction rule: loop_run.induct) (auto intro: loop_run.intros)

lemma run_inside:
  "lm_thread m = Inside l \<Longrightarrow>
     \<exists>k. run m k (m\<lparr>lm_state := whole l (lm_state m), lm_thread := Testing\<rparr>) \<and>
       flag (whole l (lm_state m)) = flag (lm_state m)"
proof (induction "rank l" arbitrary: l m rule: less_induct)
  case less
  show ?case
  proof (cases "transit l (lm_state m)")
    case None
    have "step m (m\<lparr>lm_thread := Testing\<rparr>)"
      by (rule end_iteration [where l = l]) (use less.prems None in simp_all)
    with loop_run_prepend [OF this no_step] whole_end [OF None] show ?thesis
      by (metis loop_machine.surjective loop_machine.update_convs(1) loop_machine.select_convs(1)
          loop_machine.update_convs(2))
  next
    case (Some x)
    then obtain l' s' where x: "transit l (lm_state m) = Some (l', s')" by (cases x) simp
    let ?m1 = "m\<lparr>lm_state := s', lm_thread := Inside l'\<rparr>"
    have s: "step m ?m1" by (rule work [where l = l]) (use less.prems x in simp_all)
    have "\<exists>k. run ?m1 k (?m1\<lparr>lm_state := whole l' (lm_state ?m1), lm_thread := Testing\<rparr>) \<and>
        flag (whole l' (lm_state ?m1)) = flag (lm_state ?m1)"
      by (rule less.hyps [OF rank_step [OF x]]) simp
    then obtain k where "run ?m1 k (m\<lparr>lm_state := whole l (lm_state m), lm_thread := Testing\<rparr>)"
      "flag (whole l (lm_state m)) = flag (lm_state m)"
      using whole_step [OF x] flag_step [OF x] by auto
    with loop_run_prepend [OF s] show ?thesis by blast
  qed
qed

lemma run_iterations:
  assumes "flag s"
  shows "\<exists>k. run (loop_start s) k (loop_start (iterated n s)) \<and> flag (iterated n s)"
proof (induction n)
  case 0
  have "run (loop_start s) 0 (loop_start s)" by (rule no_step)
  with assms show ?case by (auto simp: iterated_def)
next
  case (Suc n)
  then obtain k where k: "run (loop_start s) k (loop_start (iterated n s))" "flag (iterated n s)" by blast
  let ?m = "(loop_start (iterated n s))\<lparr>lm_thread := Inside enter\<rparr>"
  have s: "step (loop_start (iterated n s)) ?m"
    using k(2) by (intro iterate) (simp_all add: loop_start_def)
  from run_inside [of ?m enter] obtain j where
    "run ?m j (loop_start (iterated (Suc n) s))" "flag (iterated (Suc n) s)"
    using k(2) by (auto simp: loop_start_def iterated_def)
  with run_append [OF loop_run_prepend [OF s] k(1)] show ?case by blast
qed

lemma run_serial:
  assumes "flag s"
  shows "\<exists>k m. run (loop_start s) k m \<and> lm_control m = Joined \<and>
     lm_state m = leave (aside (quit (iterated n s)))"
proof -
  obtain k where k: "run (loop_start s) k (loop_start (iterated n s))"
    using run_iterations [OF assms] by blast
  let ?t = "iterated n s"
  let ?m1 = "\<lparr>lm_state = quit ?t, lm_thread = Testing, lm_control = Resetting\<rparr>"
  let ?m2 = "\<lparr>lm_state = aside (quit ?t), lm_thread = Testing, lm_control = Waiting\<rparr>"
  let ?m3 = "\<lparr>lm_state = leave (aside (quit ?t)), lm_thread = Ended, lm_control = Waiting\<rparr>"
  let ?m4 = "\<lparr>lm_state = leave (aside (quit ?t)), lm_thread = Ended, lm_control = Joined\<rparr>"
  have "step (loop_start ?t) ?m1" "step ?m1 ?m2" "step ?m3 ?m4"
    using reset [of "loop_start ?t"] go_wait [of ?m1] join [of ?m3] by (simp_all add: loop_start_def)
  moreover have "step ?m2 ?m3"
    using exit_loop [of ?m2 flag enter transit quit aside leave] by (simp add: flag_aside flag_quit)
  ultimately have "run (loop_start s) (Suc (Suc (Suc (Suc k)))) ?m4"
    using one_more [OF one_more [OF one_more [OF one_more [OF k]]]] by blast
  then show ?thesis by force
qed

end

end
