(* ===== verification/Kafka_Poll_Thread.thy ===== *)
theory Kafka_Poll_Thread
  imports Loop_Thread Kafka_Consumer_Props
begin

text \<open>
  The poll thread of the Kafka consumer beside the thread that calls \<open>stop\<close> (kafka/qbus_consumer.cc).
  An iteration of \<open>ConsumePollThread\<close> is cut between its calls: the poll with the rebalance callbacks
  it serves, storing the message, the user's callback, freeing the message and the flush. \<open>stop\<close> resets
  \<open>start_flag_\<close>, clears \<open>topic_partition_set_\<close> and joins the thread, each at any point of an iteration.

  A rebalance that is served between the clearing and the join fills \<open>topic_partition_set_\<close> again; the
  state is therefore looked at without that field (\<open>forget_partitions\<close>). Up to it \<open>stoppable_loop\<close>
  applies: every interleaving is a number of whole iterations followed by \<open>stop\<close>. The callback decides
  by the calls made so far. \<open>masked\<close> changes the two fields that \<open>stop\<close> writes; \<open>blind\<close> operations
  neither read them nor depend on them elsewhere.
\<close>

section \<open>One iteration, cut into steps\<close>

datatype poll_pc =
    Polling | Checking rk_message | Storing rk_message
  | Delivering rk_message bool        \<comment> \<open>whether the message is freed afterwards\<close>
  | Freeing rk_message | Flushing | IterationOver

definition store_message :: "rk_message \<Rightarrow> consumer \<Rightarrow> consumer" where
  "store_message m c =
     (if \<not> is_user_manual_commit_offset c then addWaitCommitOffset m c else addWaitDestroyMsgs m c)"

definition flush_step :: "rk_lib \<Rightarrow> consumer \<Rightarrow> consumer" where
  "flush_step lib c = (if \<not> is_auto_commit_offset c then manualCommitWaitOffset lib False c else c)"

definition poll_transit ::
  "rk_lib \<Rightarrow> (rk_call list \<Rightarrow> rk_message list) \<Rightarrow> poll_pc \<Rightarrow> consumer \<Rightarrow>
     (poll_pc \<times> consumer) option" where
  "poll_transit lib user l c =
     (case l of
        Polling \<Rightarrow>
          (let (rdkafka_message, c) = consumer_poll lib c
           in Some (case rdkafka_message of Some m \<Rightarrow> Checking m | None \<Rightarrow> Flushing, c))
      | Checking m \<Rightarrow>
          Some (if checkMsg m
                then (if \<not> is_auto_commit_offset c then Storing m else Delivering m True)
                else Freeing m, c)
      | Storing m \<Rightarrow> Some (Delivering m False, store_message m c)
      | Delivering m free \<Rightarrow>
          Some (if free then Freeing m else Flushing, receivedConsumeMsg (\<lambda>c. user (calls c)) m c)
      | Freeing m \<Rightarrow> Some (Flushing, emit (MessageDestroy (m_ptr m)) c)
      | Flushing \<Rightarrow> Some (IterationOver, flush_step lib c)
      | IterationOver \<Rightarrow> None)"

text \<open>What an iteration still does.\<close>

definition free_rest :: "rk_lib \<Rightarrow> rk_message \<Rightarrow> consumer \<Rightarrow> consumer" where
  "free_rest lib m c = flush_step lib (emit (MessageDestroy (m_ptr m)) c)"

definition deliver_rest ::
  "rk_lib \<Rightarrow> (rk_call list \<Rightarrow> rk_message list) \<Rightarrow> rk_message \<Rightarrow> bool \<Rightarrow> consumer \<Rightarrow> consumer" where
  "deliver_rest lib user m free c =
     (let c = receivedConsumeMsg (\<lambda>c. user (calls c)) m c
      in if free then free_rest lib m c else flush_step lib c)"

definition check_rest ::
  "rk_lib \<Rightarrow> (rk_call list \<Rightarrow> rk_message list) \<Rightarrow> rk_message \<Rightarrow> consumer \<Rightarrow> consumer" where
  "check_rest lib user m c =
     (if checkMsg m
      then (if \<not> is_auto_commit_offset c then deliver_rest lib user m False (store_message m c)
            else deliver_rest lib user m True c)
      else free_rest lib m c)"

definition poll_rest ::
  "rk_lib \<Rightarrow> (rk_call list \<Rightarrow> rk_message list) \<Rightarrow> poll_pc \<Rightarrow> consumer \<Rightarrow> consumer" where
  "poll_rest lib user l c =
     (case l of
        Polling \<Rightarrow> poll_body lib (\<lambda>c. user (calls c)) c
      | Checking m \<Rightarrow> check_rest lib user m c
      | Storing m \<Rightarrow> deliver_rest lib user m False (store_message m c)
      | Delivering m free \<Rightarrow> deliver_rest lib user m free c
      | Freeing m \<Rightarrow> free_rest lib m c
      | Flushing \<Rightarrow> flush_step lib c
      | IterationOver \<Rightarrow> c)"

fun poll_rank :: "poll_pc \<Rightarrow> nat" where
  "poll_rank Polling = 6"
| "poll_rank (Checking m) = 5"
| "poll_rank (Storing m) = 4"
| "poll_rank (Delivering m free) = 3"
| "poll_rank (Freeing m) = 2"
| "poll_rank Flushing = 1"
| "poll_rank IterationOver = 0"

lemma poll_body_rest:
  "poll_body lib (\<lambda>c. user (calls c)) c =
     (case consumer_poll lib c of (None, c) \<Rightarrow> flush_step lib c | (Some m, c) \<Rightarrow> check_rest lib user m c)"
  by (auto simp: poll_body_def check_rest_def deliver_rest_def free_rest_def flush_step_def
      store_message_def Let_def split: prod.split option.split)

section \<open>The thread neither reads the flag nor the partitions\<close>

definition masked :: "bool \<Rightarrow> topic_set \<Rightarrow> consumer \<Rightarrow> consumer" where
  "masked b x c = c\<lparr>start_flag := b, topic_partition_set := x\<rparr>"

definition blind :: "(consumer \<Rightarrow> consumer) \<Rightarrow> bool" where
  "blind f \<longleftrightarrow> (\<forall>b x c. \<exists>y. f (masked b x c) = masked b y (f c))"

lemma blindI: "(\<And>b x c. f (masked b x c) = masked b x (f c)) \<Longrightarrow> blind f"
  by (auto simp: blind_def)

lemma blind_comp: "blind f \<Longrightarrow> blind g \<Longrightarrow> blind (\<lambda>c. f (g c))"
  unfolding blind_def by metis

lemma blind_if:
  assumes "blind f" and "blind g" and "\<And>b x c. P (masked b x c) = P c"
  shows "blind (\<lambda>c. if P c then f c else g c)"
  using assms unfolding blind_def by simp

lemma blind_fold: "(\<And>x. blind (f x)) \<Longrightarrow> blind (\<lambda>c. foldl (\<lambda>c x. f x c) c xs)"
proof (induction xs)
  case Nil
  show ?case by (simp add: blindI)
next
  case (Cons x xs)
  from blind_comp [OF Cons.IH [OF Cons.prems] Cons.prems] show ?case by simp
qed

text \<open>A choice that depends on what a blind operation may read.\<close>

lemma blind_choice:
  assumes "\<And>v. blind (f v)" and "\<And>b x c. r (masked b x c) = r c"
  shows "blind (\<lambda>c. f (r c) c)"
  using assms unfolding blind_def by simp

lemma masked_reads [simp]:
  "calls (masked b x c) = calls c" "wait_commit_msgs (masked b x c) = wait_commit_msgs c"
  "wait_destroy_msgs_for_uncommit (masked b x c) = wait_destroy_msgs_for_uncommit c"
  "is_user_manual_commit_offset (masked b x c) = is_user_manual_commit_offset c"
  "manual_commit_time (masked b x c) = manual_commit_time c"
  "last_commit_ms (masked b x c) = last_commit_ms c"
  "is_auto_commit_offset (masked b x c) = is_auto_commit_offset c"
  "consumer_poll_time (masked b x c) = consumer_poll_time c"
  "start_flag (masked b x c) = b" "topic_partition_set (masked b x c) = x"
  by (simp_all add: masked_def)

lemma masked_updates:
  "emit e (masked b x c) = masked b x (emit e c)"
  "(masked b x c)\<lparr>wait_commit_msgs := w\<rparr> = masked b x (c\<lparr>wait_commit_msgs := w\<rparr>)"
  "(masked b x c)\<lparr>wait_destroy_msgs_for_uncommit := d\<rparr> =
     masked b x (c\<lparr>wait_destroy_msgs_for_uncommit := d\<rparr>)"
  "(masked b x c)\<lparr>last_commit_ms := t\<rparr> = masked b x (c\<lparr>last_commit_ms := t\<rparr>)"
  "(masked b x c)\<lparr>has_assigned := h\<rparr> = masked b x (c\<lparr>has_assigned := h\<rparr>)"
  "(masked b x c)\<lparr>topic_partition_set := y\<rparr> = masked b y c"
  "masked b x (c\<lparr>topic_partition_set := y, has_assigned := h\<rparr>) = masked b x (c\<lparr>has_assigned := h\<rparr>)"
  by (simp_all add: masked_def emit_def)

lemma masked_fold:
  assumes "\<And>c e. f (masked b x c) e = masked b x (f c e)"
  shows "foldl f (masked b x c) es = masked b x (foldl f c es)"
  using assms by (induction es arbitrary: c) simp_all

lemma masked_destroy_all: "destroy_all ms (masked b x c) = masked b x (destroy_all ms c)"
  unfolding destroy_all_def by (rule masked_fold) (simp add: masked_updates)

lemma masked_tables:
  "addWaitCommitOffset m (masked b x c) = masked b x (addWaitCommitOffset m c)"
  "addWaitDestroyMsgs m (masked b x c) = masked b x (addWaitDestroyMsgs m c)"
  "removeWaitDestroyMsgs m (masked b x c) = masked b x (removeWaitDestroyMsgs m c)"
  by (simp_all add: addWaitCommitOffset_def addWaitDestroyMsgs_def removeWaitDestroyMsgs_def Let_def
      masked_updates masked_destroy_all dropWhile_eq_Nil_conv [THEN sym]
      del: dropWhile_eq_Nil_conv split: option.split list.split)

lemma masked_time: "getCurrentTimeMs lib (masked b x c) =
    (fst (getCurrentTimeMs lib c), masked b x (snd (getCurrentTimeMs lib c)))"
  by (simp add: getCurrentTimeMs_def masked_updates split: prod.split)

lemma masked_flush:
  "manualCommitWaitOffset lib f (masked b x c) = masked b x (manualCommitWaitOffset lib f c)"
proof -
  have "foldl (\<lambda>c (k, m). emit (MessageDestroy (m_ptr m)) (manualCommitOffset m c)) (masked b x c) xs =
      masked b x (foldl (\<lambda>c (k, m). emit (MessageDestroy (m_ptr m)) (manualCommitOffset m c)) c xs)"
    for c and xs :: "(string \<times> rk_message) list"
    by (rule masked_fold) (simp add: manualCommitOffset_def masked_updates split: prod.split)
  then show ?thesis
    by (simp add: manualCommitWaitOffset_def masked_time masked_updates Let_def split: prod.split)
qed

lemma masked_commit: "commitOffset mo (masked b x c) = masked b x (commitOffset mo c)"
  by (simp add: commitOffset_def masked_tables split: option.split)

lemma masked_received:
  "receivedConsumeMsg (\<lambda>c. user (calls c)) m (masked b x c) =
     masked b x (receivedConsumeMsg (\<lambda>c. user (calls c)) m c)"
proof -
  have "run_commits ms (masked b x c) = masked b x (run_commits ms c)" for ms c
    unfolding run_commits_def by (rule masked_fold) (rule masked_commit)
  then show ?thesis by (simp add: receivedConsumeMsg_def Let_def masked_updates)
qed

lemmas masked_ops = masked_updates masked_tables masked_flush masked_received

lemma blind_rebalance: "blind (rdkafka_rebalance_cb lib ev)"
  unfolding blind_def
  by (cases ev) (auto simp: rdkafka_rebalance_cb_def Let_def masked_ops)

lemma blind_consumer_poll:
  "\<exists>y. consumer_poll lib (masked b x c) =
     (fst (consumer_poll lib c), masked b y (snd (consumer_poll lib c)))"
proof -
  let ?t = "long_to_int (consumer_poll_time c)"
  obtain evs mo where p: "rk_consumer_poll lib (calls c) ?t = (evs, mo)" by force
  from blind_fold [where f = "rdkafka_rebalance_cb lib" and xs = evs, OF blind_rebalance, unfolded blind_def]
  obtain y where
    "foldl (\<lambda>c ev. rdkafka_rebalance_cb lib ev c) (masked b x (emit (ConsumerPoll ?t) c)) evs =
     masked b y (foldl (\<lambda>c ev. rdkafka_rebalance_cb lib ev c) (emit (ConsumerPoll ?t) c) evs)" by blast
  with p show ?thesis by (auto simp: consumer_poll_def Let_def masked_updates)
qed

lemma masked_rests:
  "flush_step lib (masked b x c) = masked b x (flush_step lib c)"
  "store_message m (masked b x c) = masked b x (store_message m c)"
  "free_rest lib m (masked b x c) = masked b x (free_rest lib m c)"
  "deliver_rest lib user m free (masked b x c) = masked b x (deliver_rest lib user m free c)"
  "check_rest lib user m (masked b x c) = masked b x (check_rest lib user m c)"
proof -
  show f: "flush_step lib (masked b x c) = masked b x (flush_step lib c)" for c
    by (simp add: flush_step_def masked_flush)
  show s: "store_message m (masked b x c) = masked b x (store_message m c)"
    by (simp add: store_message_def masked_tables)
  show r: "free_rest lib m (masked b x c) = masked b x (free_rest lib m c)" for c
    by (simp add: free_rest_def f masked_updates)
  show d: "deliver_rest lib user m free (masked b x c) = masked b x (deliver_rest lib user m free c)"
    for c free
    by (simp add: deliver_rest_def Let_def masked_received r f)
  show "check_rest lib user m (masked b x c) = masked b x (check_rest lib user m c)"
    by (simp add: check_rest_def s d r)
qed

lemma blind_poll_rest: "blind (poll_rest lib user l)"
proof (cases l)
  case Polling
  have "\<exists>y. poll_body lib (\<lambda>c. user (calls c)) (masked b x c) =
      masked b y (poll_body lib (\<lambda>c. user (calls c)) c)" for b x c
    using blind_consumer_poll [of lib b x c]
    by (auto simp: poll_body_rest masked_rests split: prod.split option.split)
  with Polling show ?thesis by (simp add: poll_rest_def blind_def)
qed (simp_all add: poll_rest_def masked_rests blindI)

section \<open>stop and the thread\<close>

definition forget_partitions :: "consumer \<Rightarrow> consumer" where
  "forget_partitions c = c\<lparr>topic_partition_set := []\<rparr>"

definition reset_start_flag :: "consumer \<Rightarrow> consumer" where
  "reset_start_flag c = c\<lparr>start_flag := False\<rparr>"

definition clear_partitions :: "consumer \<Rightarrow> consumer" where
  "clear_partitions c = c\<lparr>topic_partition_set := tps_init None (topic_partition_set c)\<rparr>"

text \<open>\<open>stop\<close> from the return of \<open>poll_thread_.stop()\<close>.\<close>

definition stop_after_join :: "rk_lib \<Rightarrow> consumer \<Rightarrow> consumer" where
  "stop_after_join lib c =
     (let c = emit ThreadJoin c;
          c = (if \<not> is_auto_commit_offset c then manualCommitWaitOffset lib True c else c);
          c = (if is_user_manual_commit_offset c then clearWaitDestroyMsgs c else c);
          c = (if rd_kafka_handle c then close_consumer lib c else c);
          c = (if rd_kafka_handle c
               then (if is_user_manual_commit_offset c \<and> is_force_destroy c then c
                     else emit HandleDestroy c)\<lparr>rd_kafka_handle := False\<rparr>
               else c)
      in wait_destroyed_loop 5 lib c)"

lemma stop_split:
  assumes "start_flag c"
  shows "stop True lib c =
     stop_after_join lib (poll_thread_exit lib (clear_partitions (reset_start_flag c)))"
  unfolding stop_def stop_thread_def stop_after_join_def Let_def clear_partitions_def
    reset_start_flag_def
  by (simp only: assms if_True)

lemma forget_eq_masked:
  "forget_partitions s = forget_partitions t \<Longrightarrow> s = masked (start_flag t) (topic_partition_set s) t"
  by (cases s; cases t) (simp add: forget_partitions_def masked_def)

lemma masked_masked [simp]: "masked b x (masked b' y c) = masked b x c"
  by (simp add: masked_def)

lemma forget_masked: "forget_partitions (masked b x c) = forget_partitions (masked b y c)"
  by (simp add: forget_partitions_def masked_def)

lemma masked_self: "masked (start_flag c) (topic_partition_set c) c = c"
  by (cases c) (simp add: masked_def)

lemma reset_masked: "reset_start_flag c = masked False (topic_partition_set c) c"
  by (cases c) (simp add: reset_start_flag_def masked_def)

text \<open>A blind operation that keeps the flag does the same to states that differ in the partitions.\<close>

lemma forget_blind:
  assumes "blind f" and "forget_partitions s = forget_partitions t"
  shows "forget_partitions (f s) = forget_partitions (f t)"
proof -
  obtain x y where "f s = masked (start_flag t) x (f t)" "f t = masked (start_flag t) y (f t)"
    using assms(1) forget_eq_masked [OF assms(2)] masked_self [of t] unfolding blind_def by metis
  with forget_masked show ?thesis by metis
qed

lemma forget_blind_reset:
  assumes "blind f"
  shows "forget_partitions (f (reset_start_flag c)) = forget_partitions (reset_start_flag (f c))"
  using assms forget_masked unfolding reset_masked blind_def by metis

lemma blind_exit: "blind (poll_thread_exit lib)"
  by (rule blindI) (simp add: poll_thread_exit_def masked_flush)

lemma stop_writes [simp]:
  "\<not> start_flag (reset_start_flag c)" "start_flag (clear_partitions c) = start_flag c"
  "forget_partitions (clear_partitions c) = forget_partitions c"
  by (simp_all add: reset_start_flag_def clear_partitions_def forget_partitions_def)

lemma poll_transit_flag:
  "poll_transit lib user l c = Some (l', c') \<Longrightarrow> start_flag c' = start_flag c"
proof -
  have "start_flag (store_message m c) = start_flag c" for m by (simp add: store_message_def)
  moreover have "start_flag (flush_step lib c) = start_flag c" by (simp add: flush_step_def)
  moreover have "consumer_poll lib c = (mo, c1) \<Longrightarrow> start_flag c1 = start_flag c" for mo c1
    using consumer_poll_frame(1) [of lib c] by simp
  ultimately show "poll_transit lib user l c = Some (l', c') \<Longrightarrow> start_flag c' = start_flag c"
    by (cases l) (auto simp: poll_transit_def split: prod.splits)
qed

interpretation kafka_loop: stoppable_loop start_flag Polling "poll_transit lib user" reset_start_flag
  clear_partitions "poll_thread_exit lib" forget_partitions "poll_rest lib user" poll_rank for lib user
proof unfold_locales
  fix l l' c c'
  show "poll_transit lib user l c = None \<Longrightarrow> poll_rest lib user l c = c"
    by (cases l) (auto simp: poll_transit_def poll_rest_def split: prod.splits)
  assume t: "poll_transit lib user l c = Some (l', c')"
  then show "poll_rest lib user l' c' = poll_rest lib user l c"
    by (cases l) (auto simp: poll_transit_def poll_rest_def poll_body_rest check_rest_def
        deliver_rest_def free_rest_def split: prod.splits option.splits if_splits)
  show "poll_rank l' < poll_rank l"
    using t by (cases l) (auto simp: poll_transit_def split: prod.splits option.splits if_splits)
  show "start_flag c' = start_flag c" using t by (rule poll_transit_flag)
next
  show "forget_partitions s = forget_partitions t \<Longrightarrow>
      forget_partitions (reset_start_flag s) = forget_partitions (reset_start_flag t)" for s t
    using forget_eq_masked [of s t] unfolding reset_masked by (metis forget_masked masked_masked)
next
  show "forget_partitions s = forget_partitions t \<Longrightarrow>
      forget_partitions (poll_rest lib user l s) = forget_partitions (poll_rest lib user l t)" for l s t
    by (rule forget_blind [OF blind_poll_rest])
  show "forget_partitions s = forget_partitions t \<Longrightarrow>
      forget_partitions (poll_thread_exit lib s) = forget_partitions (poll_thread_exit lib t)" for s t
    by (rule forget_blind [OF blind_exit])
  show "forget_partitions (poll_rest lib user l (reset_start_flag s)) =
      forget_partitions (reset_start_flag (poll_rest lib user l s))" for l s
    by (rule forget_blind_reset [OF blind_poll_rest])
qed simp_all

lemma iterated_poll_loop:
  "kafka_loop.iterated lib user n c = poll_loop n lib (\<lambda>c. user (calls c)) c"
proof -
  have "(poll_rest lib user Polling ^^ n) c = poll_loop n lib (\<lambda>c. user (calls c)) c"
    by (induction n arbitrary: c)
       (simp_all add: funpow_Suc_right poll_rest_def del: funpow.simps(2))
  then show ?thesis by (simp add: kafka_loop.iterated_def)
qed

text \<open>The machine of a started consumer whose \<open>stop\<close> is called at some point.\<close>

definition kafka_machine ::
  "rk_lib \<Rightarrow> (rk_call list \<Rightarrow> rk_message list) \<Rightarrow> (consumer, poll_pc) loop_machine \<Rightarrow> nat \<Rightarrow>
     (consumer, poll_pc) loop_machine \<Rightarrow> bool" where
  "kafka_machine lib user =
     loop_run start_flag Polling (poll_transit lib user) reset_start_flag clear_partitions
       (poll_thread_exit lib)"

section \<open>The rest of stop\<close>

lemma masked_rest_updates:
  "(masked b x c)\<lparr>rd_kafka_handle := h\<rparr> = masked b x (c\<lparr>rd_kafka_handle := h\<rparr>)"
  "rd_kafka_handle (masked b x c) = rd_kafka_handle c"
  "is_force_destroy (masked b x c) = is_force_destroy c"
  by (simp_all add: masked_def)

lemma masked_clear: "clearWaitDestroyMsgs (masked b x c) = masked b x (clearWaitDestroyMsgs c)"
proof -
  have "foldl (\<lambda>c (k, rdmsg). destroy_all rdmsg c) (masked b x c) xs =
      masked b x (foldl (\<lambda>c (k, rdmsg). destroy_all rdmsg c) c xs)"
    for c and xs :: "(string \<times> rk_message list) list"
    by (rule masked_fold) (simp add: masked_destroy_all split: prod.split)
  then show ?thesis by (simp add: clearWaitDestroyMsgs_def)
qed

lemma blind_close: "blind (close_consumer lib)"
proof -
  have "blind (\<lambda>c. foldl (\<lambda>c ev. rdkafka_rebalance_cb lib ev c) c evs)" for evs
    by (rule blind_fold [where f = "rdkafka_rebalance_cb lib", OF blind_rebalance])
  then show ?thesis
    by (auto simp: blind_def close_consumer_def Let_def masked_updates split: prod.split)
qed

lemma masked_wait: "wait_destroyed_loop k lib (masked b x c) = masked b x (wait_destroyed_loop k lib c)"
  by (induction k arbitrary: c) (simp_all add: Let_def masked_updates)

lemma blind_emit: "blind (emit e)"
  by (rule blindI) (simp add: masked_updates)

lemma blind_stop_after_join: "blind (stop_after_join lib)"
proof -
  have flush: "blind (\<lambda>c. if \<not> is_auto_commit_offset c then manualCommitWaitOffset lib True c else c)"
    by (rule blindI) (simp add: masked_flush)
  have clear: "blind (\<lambda>c. if is_user_manual_commit_offset c then clearWaitDestroyMsgs c else c)"
    by (rule blindI) (simp add: masked_clear)
  have close: "blind (\<lambda>c. if rd_kafka_handle c then close_consumer lib c else c)"
    by (rule blind_if [OF blind_close]) (simp_all add: blindI masked_rest_updates)
  have destroy: "blind (\<lambda>c. if rd_kafka_handle c
      then (if is_user_manual_commit_offset c \<and> is_force_destroy c then c
            else emit HandleDestroy c)\<lparr>rd_kafka_handle := False\<rparr> else c)"
    by (rule blindI) (simp add: masked_rest_updates masked_updates)
  have wait: "blind (wait_destroyed_loop 5 lib)" by (rule blindI) (rule masked_wait)
  from blind_comp [OF wait blind_comp [OF destroy blind_comp [OF close blind_comp [OF clear
      blind_comp [OF flush blind_emit [of ThreadJoin]]]]]]
  show ?thesis unfolding stop_after_join_def [abs_def] Let_def .
qed

lemma poll_loop_flag: "start_flag (poll_loop n lib user c) = start_flag c"
  by (induction n arbitrary: c) simp_all

section \<open>Properties\<close>

lemma after_join_serial:
  assumes "start_flag c" and "kafka_machine lib user (loop_start c) k m" and "lm_control m = Joined"
  shows "\<exists>n. forget_partitions (stop_after_join lib (lm_state m)) =
     forget_partitions (stop True lib (poll_loop n lib (\<lambda>c. user (calls c)) c))"
proof -
  from kafka_loop.joined_serial [OF assms(2) [unfolded kafka_machine_def] assms(1,3)] obtain n where
    n: "forget_partitions (lm_state m) = forget_partitions (poll_thread_exit lib
      (reset_start_flag (poll_loop n lib (\<lambda>c. user (calls c)) c)))"
    by (auto simp: iterated_poll_loop)
  let ?p = "poll_loop n lib (\<lambda>c. user (calls c)) c"
  have "forget_partitions (poll_thread_exit lib (reset_start_flag ?p)) =
      forget_partitions (poll_thread_exit lib (clear_partitions (reset_start_flag ?p)))"
    by (rule forget_blind [OF blind_exit]) simp
  with n have "forget_partitions (lm_state m) =
      forget_partitions (poll_thread_exit lib (clear_partitions (reset_start_flag ?p)))" by simp
  then have "forget_partitions (stop_after_join lib (lm_state m)) = forget_partitions
      (stop_after_join lib (poll_thread_exit lib (clear_partitions (reset_start_flag ?p))))"
    by (rule forget_blind [OF blind_stop_after_join])
  also have "\<dots> = forget_partitions (stop True lib ?p)"
    using stop_split [of ?p lib] assms(1) poll_loop_flag [of n lib "\<lambda>c. user (calls c)" c] by simp
  finally show ?thesis by (rule exI)
qed

text \<open>C12: Whatever point of an iteration the poll thread has reached when \<open>stop\<close> resets the flag and when
  it clears the partitions, the calls made and the state that \<open>stop\<close> leaves are, but for the
  partitions, those of the sequential description: some number of whole iterations, then \<open>stop\<close>. And
  every number of iterations is possible, with the partitions too.\<close>

theorem kafka_stop_serialises:
  assumes "start_flag c"
  shows "(\<forall>k m. kafka_machine lib user (loop_start c) k m \<and> lm_control m = Joined \<longrightarrow>
       (\<exists>n. forget_partitions (stop_after_join lib (lm_state m)) =
          forget_partitions (stop True lib (poll_loop n lib (\<lambda>c. user (calls c)) c)))) \<and>
     (\<forall>n. \<exists>k m. kafka_machine lib user (loop_start c) k m \<and> lm_control m = Joined \<and>
       stop_after_join lib (lm_state m) =
         stop True lib (poll_loop n lib (\<lambda>c. user (calls c)) c))"
proof (intro conjI allI impI)
  fix k m
  assume "kafka_machine lib user (loop_start c) k m \<and> lm_control m = Joined"
  with after_join_serial [OF assms] show "\<exists>n. forget_partitions (stop_after_join lib (lm_state m)) =
      forget_partitions (stop True lib (poll_loop n lib (\<lambda>c. user (calls c)) c))" by blast
next
  fix n
  from kafka_loop.run_serial [OF assms, of lib user n] obtain k m where
    "kafka_machine lib user (loop_start c) k m" "lm_control m = Joined"
    "lm_state m = poll_thread_exit lib (clear_partitions (reset_start_flag
       (poll_loop n lib (\<lambda>c. user (calls c)) c)))"
    by (auto simp: kafka_machine_def iterated_poll_loop)
  moreover from this(3) have
    "stop_after_join lib (lm_state m) = stop True lib (poll_loop n lib (\<lambda>c. user (calls c)) c)"
    using assms by (simp add: stop_split poll_loop_flag)
  ultimately show "\<exists>k m. kafka_machine lib user (loop_start c) k m \<and> lm_control m = Joined \<and>
      stop_after_join lib (lm_state m) = stop True lib (poll_loop n lib (\<lambda>c. user (calls c)) c)"
    by blast
qed

theorem kafka_stop_serialises_witness:
  "\<exists>k m. kafka_machine demo_lib (\<lambda>_. []) (loop_start demo_started) k m \<and> lm_control m = Joined \<and>
     stop_after_join demo_lib (lm_state m) =
       stop True demo_lib (poll_loop 2 demo_lib (\<lambda>_. []) demo_started)"
  using conjunct2 [OF kafka_stop_serialises [OF demo_started_flag, of demo_lib "\<lambda>_. []"],
      rule_format, of 2]
  by (elim exE) (intro exI)



text \<open>C21: Once \<open>stop\<close> has reset the flag, the poll thread and \<open>stop\<close> make at most ten more steps up to the
  join, whatever the schedule, and every schedule can be continued until the join is over.\<close>

theorem kafka_stop_returns:
  assumes "start_flag c" and "kafka_machine lib user (loop_start c) k m" and "lm_control m \<noteq> Running"
  shows "\<forall>j m'. kafka_machine lib user m j m' \<longrightarrow>
     j \<le> 10 \<and> (\<exists>i m''. kafka_machine lib user m' i m'' \<and> lm_control m'' = Joined)"
proof -
  have "poll_rank l \<le> 6" for l by (cases l) simp_all
  from kafka_loop.bounded_return [OF assms(2) [unfolded kafka_machine_def] assms(1,3) this]
  show ?thesis by (simp add: kafka_machine_def)
qed

theorem kafka_stop_returns_witness:
  "\<exists>k m i m''. kafka_machine demo_lib (\<lambda>_. []) (loop_start demo_started) k m \<and>
     lm_control m = Resetting \<and> kafka_machine demo_lib (\<lambda>_. []) m i m'' \<and> lm_control m'' = Joined"
proof -
  let ?m = "\<lparr>lm_state = reset_start_flag demo_started, lm_thread = Testing, lm_control = Resetting\<rparr>"
  have k: "kafka_machine demo_lib (\<lambda>_. []) (loop_start demo_started) (Suc 0) ?m"
    using one_more [OF no_step reset, of "loop_start demo_started"]
    by (simp add: kafka_machine_def loop_start_def)
  have z: "kafka_machine demo_lib (\<lambda>_. []) ?m 0 ?m" unfolding kafka_machine_def by (rule no_step)
  have "lm_control ?m \<noteq> Running" by simp
  from conjunct2 [OF kafka_stop_returns [OF demo_started_flag k this, rule_format, OF z]]
  obtain i m'' where "kafka_machine demo_lib (\<lambda>_. []) ?m i m''" "lm_control m'' = Joined"
    by blast
  with k \<open>lm_control ?m \<noteq> Running\<close> show ?thesis
    by (intro exI [of _ "Suc 0"] exI [of _ ?m] exI [of _ i] exI [of _ m'']) simp
qed

end
