(* ===== verification/Handover.thy ===== *)
theory Handover
  imports Qbus_Prelude "HOL-Library.Sublist"
begin

text \<open>
  A client that takes items from a library and hands them to its user, seen through the log of its
  calls. \<open>arrive\<close> and \<open>hand\<close> say which item a call brings and which it hands on; \<open>settle\<close> marks the
  calls that may only be made when nothing is in hand (a commit, an acknowledgement).
  \<open>in_hand\<close> is the account: what arrived is what was handed on, in the same order, followed by what is
  in hand; at every moment what was handed on had arrived; and nothing was in hand at any settling call.
\<close>

definition in_hand ::
  "('c \<Rightarrow> 'm option) \<Rightarrow> ('c \<Rightarrow> 'm option) \<Rightarrow> ('c \<Rightarrow> bool) \<Rightarrow> 'm list \<Rightarrow> 'c list \<Rightarrow> bool" where
  "in_hand arrive hand settle ms log \<longleftrightarrow>
     List.map_filter arrive log = List.map_filter hand log @ ms \<and>
     (\<forall>p. prefix p log \<longrightarrow> prefix (List.map_filter hand p) (List.map_filter arrive p)) \<and>
     (\<forall>pre x suf. log = pre @ x # suf \<and> settle x \<longrightarrow>
        List.map_filter arrive pre = List.map_filter hand pre)"

lemma map_filter_snoc [simp]:
  "List.map_filter f (xs @ [x]) = List.map_filter f xs @ (case f x of None \<Rightarrow> [] | Some y \<Rightarrow> [y])"
  by (simp add: List.map_filter_def split: option.split)

lemma in_hand_Nil [simp]: "in_hand arrive hand settle [] []"
  by (simp add: in_hand_def)

lemma split_snoc:
  "log @ [y] = pre @ x # suf \<longleftrightarrow> (suf = [] \<and> pre = log \<and> x = y) \<or>
     (\<exists>suf'. suf = suf' @ [y] \<and> log = pre @ x # suf')"
  by (cases suf rule: rev_cases) auto

text \<open>The account holds at every moment.\<close>

lemma in_hand_prefix:
  assumes "in_hand arrive hand settle ms log" and "prefix p log"
  shows "\<exists>b. in_hand arrive hand settle b p"
proof -
  have "prefix (List.map_filter hand p) (List.map_filter arrive p)"
    using assms unfolding in_hand_def by blast
  then obtain b where "List.map_filter arrive p = List.map_filter hand p @ b" by (rule prefixE)
  moreover have "prefix q log" if "prefix q p" for q using that assms(2) by (rule prefix_order.trans)
  moreover obtain r where "log = p @ r" using assms(2) by (rule prefixE)
  ultimately have "in_hand arrive hand settle b p" using assms(1) unfolding in_hand_def by auto
  then show ?thesis ..
qed

text \<open>The four kinds of calls.\<close>

lemma in_hand_other:
  assumes "in_hand arrive hand settle ms log" and "arrive x = None" and "hand x = None" and "\<not> settle x"
  shows "in_hand arrive hand settle ms (log @ [x])"
  using assms unfolding in_hand_def by (auto simp: split_snoc)

lemma in_hand_arrive:
  assumes "in_hand arrive hand settle [] log" and "hand x = None" and "\<not> settle x"
  shows "in_hand arrive hand settle (case arrive x of None \<Rightarrow> [] | Some m \<Rightarrow> [m]) (log @ [x])"
  using assms unfolding in_hand_def by (auto simp: split_snoc)

lemma in_hand_hand:
  assumes "in_hand arrive hand settle [m] log" and "arrive x = None" and "hand x = Some m" and "\<not> settle x"
  shows "in_hand arrive hand settle [] (log @ [x])"
  using assms unfolding in_hand_def by (auto simp: split_snoc)

lemma in_hand_settle:
  assumes "in_hand arrive hand settle [] log" and "arrive x = None" and "hand x = None"
  shows "in_hand arrive hand settle [] (log @ [x])"
  using assms unfolding in_hand_def by (auto simp: split_snoc)

end
