(* ===== verification/Kafka_Delivery.thy ===== *)
theory Kafka_Delivery
  imports Kafka_Poll_Thread Handover
begin

text \<open>
  At least once and in order: what the Kafka consumer of the callback build hands to the user is what
  arrives, in the order in which it arrives, and it commits nothing while a message is in hand.

  The locale \<open>message_account\<close> is the interface between the client and an account of its log: which
  calls leave the account as it is, what takes a message and what closes it, and that a commit is
  made only when none is taken. Inside it each operation of the client is shown to keep the account, and
  with them every session up to the return of \<open>stop\<close>. Two accounts provide it: \<open>undelivered\<close>, the
  addresses of the messages that a poll returned and that were neither delivered nor freed since, and
  \<open>in_hand\<close>, the texts that arrived and were not yet handed on. In the build without callbacks the
  promise does not hold: \<open>consume\<close> stores, and perhaps commits, the message that it is about to return.
\<close>

section \<open>The interface\<close>

definition delivery_call :: "rk_call \<Rightarrow> bool" where
  "delivery_call x = (case x of DeliveryMsg _ _ _ _ \<Rightarrow> True | DeliveryMsgForCommitOffset _ _ _ _ \<Rightarrow> True
     | _ \<Rightarrow> False)"

text \<open>A call that neither brings, commits nor delivers a message.\<close>

definition plain_call :: "rk_call \<Rightarrow> bool" where
  "plain_call x \<longleftrightarrow> \<not> message_call x \<and> \<not> delivery_call x"

lemma plain_calls [simp]:
  "plain_call (MessageRead p)" "plain_call (MessageDestroy p)" "plain_call GetTimeOfDay"
  "plain_call (ConsumerPoll i)" "plain_call (PollReturned None)"
  "plain_call (RebalanceAssign ps)" "plain_call ThreadJoin" "plain_call ConsumerClose"
  "plain_call HandleDestroy" "plain_call (WaitDestroyed i)"
  "plain_call (PausePartitions l)" "plain_call (ResumePartitions l)"
  by (simp_all add: plain_call_def message_call_def delivery_call_def)

lemma live_before_delivery: "delivery_call x \<Longrightarrow> live_step (Some {#}) x = None"
  by (cases x) (auto simp: delivery_call_def)

lemma message_step_lives:
  "\<not> message_call x \<Longrightarrow> live_step (Some {#}) x = Some L \<Longrightarrow> L = {#}"
  by (cases x) (auto simp: message_call_def split: option.splits if_splits)

lemma live_none: "foldl live_step None xs = None"
  by (induction xs) simp_all

text \<open>A log without messages has no deliveries either.\<close>

lemma plain_log:
  "filter message_call log = [] \<Longrightarrow> lifetime log \<noteq> None \<Longrightarrow>
     lifetime log = Some {#} \<and> (\<forall>x \<in> set log. plain_call x)"
proof (induction log rule: rev_induct)
  case (snoc x xs)
  have "lifetime xs \<noteq> None" using snoc.prems(2) by (cases "lifetime xs") simp_all
  with snoc have xs: "lifetime xs = Some {#}" "\<forall>y \<in> set xs. plain_call y" by (auto split: if_splits)
  have x: "\<not> message_call x" using snoc.prems(1) by (auto split: if_splits)
  have "\<not> delivery_call x" using live_before_delivery [of x] snoc.prems(2) xs(1) by auto
  with x xs snoc.prems(2) message_step_lives [OF x] show ?case by (auto simp: plain_call_def)
qed simp

locale message_account =
  fixes good :: "'a \<Rightarrow> rk_call list \<Rightarrow> bool"
    and none :: 'a
    and taken :: "rk_message \<Rightarrow> 'a"
  assumes account_start: "good none []"
    and account_plain: "good a log \<Longrightarrow> plain_call x \<Longrightarrow> good a (log @ [x])"
    and account_poll: "good none log \<Longrightarrow> good (taken m) (log @ [PollReturned (Some m)])"
    and account_deliver: "good (taken m) log \<Longrightarrow> checkMsg m \<Longrightarrow>
      good none (log @ [DeliveryMsg (m_ptr m) (topic_of m) (payload_of m) (length (payload_of m))])"
    and account_deliver_for_commit: "good (taken m) log \<Longrightarrow> checkMsg m \<Longrightarrow>
      good none (log @ [DeliveryMsgForCommitOffset m (topic_of m) (payload_of m) (length (payload_of m))])"
    and account_drop: "good (taken m) log \<Longrightarrow> \<not> checkMsg m \<Longrightarrow>
      good none (log @ [MessageDestroy (m_ptr m)])"
    and account_commit: "good none log \<Longrightarrow> good none (log @ [CommitMessage m])"
begin

lemma good_quiet: "(\<forall>x \<in> set log. plain_call x) \<Longrightarrow> good none log"
  by (induction log rule: rev_induct) (simp_all add: account_start account_plain)

lemma good_destroy_all: "good a (calls c) \<Longrightarrow> good a (calls (destroy_all ms c))"
  unfolding destroy_all_def
  by (rule foldl_invariant [where I = "\<lambda>c. good a (calls c)"]) (simp_all add: account_plain)

lemma good_tables:
  "good a (calls c) \<Longrightarrow> good a (calls (addWaitCommitOffset m c))"
  "good a (calls c) \<Longrightarrow> good a (calls (addWaitDestroyMsgs m c))"
  "good a (calls c) \<Longrightarrow> good a (calls (removeWaitDestroyMsgs m c))"
proof -
  assume o: "good a (calls c)"
  have e: "good a (calls (emit (MessageRead (m_ptr m)) c))" using o by (simp add: account_plain)
  have f: "good a (calls (emit (MessageDestroy p) (emit (MessageRead (m_ptr m)) c)))" for p
    using account_plain [OF e, of "MessageDestroy p"] by simp
  show "good a (calls (addWaitCommitOffset m c))"
    using e f by (simp add: addWaitCommitOffset_def Let_def split: option.split)
  show "good a (calls (addWaitDestroyMsgs m c))"
    using e by (simp add: addWaitDestroyMsgs_def Let_def split: option.split)
  show "good a (calls (removeWaitDestroyMsgs m c))"
    using good_destroy_all [OF e] e
    by (simp add: removeWaitDestroyMsgs_def Let_def del: calls_destroy_all split: option.split list.split)
qed

lemma good_flush: "good none (calls c) \<Longrightarrow> good none (calls (manualCommitWaitOffset lib f c))"
proof -
  assume "good none (calls c)"
  then have "good none (calls (snd (getCurrentTimeMs lib c)))"
    by (simp add: getCurrentTimeMs_eq account_plain)
  moreover have "good none (calls (foldl (\<lambda>c (k, m). emit (MessageDestroy (m_ptr m))
      (manualCommitOffset m c)) d xs))"
    if "good none (calls d)" for d and xs :: "(string \<times> rk_message) list"
    by (rule foldl_invariant [where I = "\<lambda>c. good none (calls c)"])
       (use that account_plain [OF account_commit] in \<open>auto simp: manualCommitOffset_def\<close>)
  ultimately show ?thesis
    by (auto simp: manualCommitWaitOffset_def Let_def split: prod.split)
qed

lemma good_commitOffset: "good a (calls c) \<Longrightarrow> good a (calls (commitOffset mo c))"
  by (simp add: commitOffset_def good_tables split: option.split)

lemma good_rebalance: "good none (calls c) \<Longrightarrow> good none (calls (rdkafka_rebalance_cb lib ev c))"
proof (cases ev)
  case (RevokePartitions ps)
  assume "good none (calls c)"
  then have "good none (calls (if \<not> is_auto_commit_offset c then manualCommitWaitOffset lib True c else c))"
    by (simp add: good_flush)
  with RevokePartitions show ?thesis
    by (simp add: rdkafka_rebalance_cb_def Let_def account_plain)
qed (simp_all add: rdkafka_rebalance_cb_def Let_def account_plain)

lemma good_rebalances:
  "good none (calls c) \<Longrightarrow> good none (calls (foldl (\<lambda>c ev. rdkafka_rebalance_cb lib ev c) c evs))"
  by (rule foldl_invariant [where I = "\<lambda>c. good none (calls c)"]) (simp_all add: good_rebalance)

lemma good_poll:
  assumes "good none (calls c)" and "consumer_poll lib c = (mo, c')"
  shows "good (case mo of Some m \<Rightarrow> taken m | None \<Rightarrow> none) (calls c')"
proof -
  let ?t = "long_to_int (consumer_poll_time c)"
  obtain evs where "rk_consumer_poll lib (calls c) ?t = (evs, mo)"
    and c': "c' = emit (PollReturned mo)
      (foldl (\<lambda>c ev. rdkafka_rebalance_cb lib ev c) (emit (ConsumerPoll ?t) c) evs)"
    using assms(2) by (auto simp: consumer_poll_def Let_def split: prod.splits)
  have "good none (calls (foldl (\<lambda>c ev. rdkafka_rebalance_cb lib ev c) (emit (ConsumerPoll ?t) c) evs))"
    using assms(1) by (intro good_rebalances) (simp add: account_plain)
  then show ?thesis unfolding c' by (cases mo) (simp_all add: account_plain account_poll)
qed

lemma good_received:
  assumes "good (taken m) (calls c)" and "checkMsg m"
  shows "good none (calls (receivedConsumeMsg user m c))"
proof -
  have "good none (calls (run_commits ms d))" if "good none (calls d)" for ms d
    unfolding run_commits_def
    by (rule foldl_invariant [where I = "\<lambda>c. good none (calls c)"]) (simp_all add: that good_commitOffset)
  then show ?thesis
    using account_deliver [OF assms] account_deliver_for_commit [OF assms]
    by (simp add: receivedConsumeMsg_def Let_def)
qed

lemma good_poll_body:
  assumes "good none (calls c)"
  shows "good none (calls (poll_body lib user c))"
proof -
  obtain mo c1 where p: "consumer_poll lib c = (mo, c1)" by force
  note o = good_poll [OF assms p]
  show ?thesis
  proof (cases mo)
    case None
    with o p show ?thesis by (simp add: poll_body_def good_flush)
  next
    case (Some m)
    with o have m: "good (taken m) (calls c1)" by simp
    show ?thesis
    proof (cases "checkMsg m")
      case True
      note r = good_received [OF m True] good_received [OF good_tables(1) [OF m] True]
        good_received [OF good_tables(2) [OF m] True]
      with p Some True show ?thesis by (simp add: poll_body_def Let_def good_flush account_plain)
    next
      case False
      have "good none (calls (emit (MessageDestroy (m_ptr m)) c1))"
        using account_drop [OF m False] by simp
      from this good_flush [OF this] p Some False show ?thesis by (simp add: poll_body_def Let_def)
    qed
  qed
qed

lemma good_poll_loop: "good none (calls c) \<Longrightarrow> good none (calls (poll_loop n lib user c))"
  by (induction n arbitrary: c) (simp_all add: good_poll_body)

lemma good_step: "consumer_step True lib c c' \<Longrightarrow> good none (calls c) \<Longrightarrow> good none (calls c')"
  by (induction rule: consumer_step.induct)
     (simp_all add: good_poll_body good_commitOffset pause_def resume_def Let_def account_plain)

lemma good_session: "session True lib c c' \<Longrightarrow> good none (calls c) \<Longrightarrow> good none (calls c')"
  by (induction rule: session.induct) (auto intro: good_step)

lemma good_start:
  assumes "consumer_init pt lib lp cp (consumer_new cl lg) = (ok1, c1)"
    and "subscribe lib grp ts c1 = (ok2, c2)" and "start cb lib c2 = (ok3, c3)"
  shows "good none (calls c3)"
  using msg_state_start [OF assms] plain_log [of "calls c3"] good_quiet [of "calls c3"]
  by (simp add: msg_state_def)

lemma good_stop_after_join:
  assumes "good none (calls c)"
  shows "good none (calls (stop_after_join lib c))"
proof -
  have emit: "good none (calls (emit x d))" if "good none (calls d)" "plain_call x" for d x
    using that by (simp add: account_plain)
  have clear: "good none (calls (clearWaitDestroyMsgs d))" if "good none (calls d)" for d :: consumer
    unfolding clearWaitDestroyMsgs_def
    by (rule foldl_invariant [where I = "\<lambda>c. good none (calls c)"])
       (auto simp: that good_destroy_all simp del: calls_destroy_all split: prod.split)
  have close: "good none (calls (close_consumer lib d))" if "good none (calls d)" for d
    using that by (auto simp: close_consumer_def Let_def good_rebalances account_plain split: prod.split)
  have wait: "good none (calls (wait_destroyed_loop k lib d))" if "good none (calls d)" for k d
    using that by (induction k arbitrary: d) (simp_all add: Let_def account_plain)
  have split_if: "good none (calls (if b then x else y))"
    if "good none (calls x)" "good none (calls y)" for b and x y :: consumer
    using that by simp
  have handle: "good none (calls (d\<lparr>rd_kafka_handle := h\<rparr>))" if "good none (calls d)" for d h
    using that by simp
  show ?thesis
    unfolding stop_after_join_def Let_def
    by (intro wait split_if handle close clear good_flush emit assms plain_calls)
qed

text \<open>A whole session of the callback build, at any moment and after a \<open>stop\<close> that comes anywhere in
  an iteration.\<close>

lemma good_run:
  assumes "consumer_init pt lib lp cp (consumer_new cl lg) = (ok1, c1)"
    and "subscribe lib grp ts c1 = (ok2, c2)" and "start True lib c2 = (ok3, c3)"
    and "session True lib c3 c4" and "start_flag c4"
    and "kafka_machine lib user (loop_start c4) k m" and "lm_control m = Joined"
  shows "good none (calls c4)" "good none (calls (stop_after_join lib (lm_state m)))"
proof -
  show o: "good none (calls c4)" using good_session [OF assms(4) good_start [OF assms(1-3)]] .
  from after_join_serial [OF assms(5-7)] obtain n where
    "forget_partitions (stop_after_join lib (lm_state m)) =
      forget_partitions (stop True lib (poll_loop n lib (\<lambda>c. user (calls c)) c4))" by blast
  moreover have "calls (forget_partitions c) = calls c" for c by (simp add: forget_partitions_def)
  ultimately have e: "calls (stop_after_join lib (lm_state m)) =
      calls (stop True lib (poll_loop n lib (\<lambda>c. user (calls c)) c4))" by metis
  show "good none (calls (stop_after_join lib (lm_state m)))"
    using good_poll_loop [OF o, of n lib "\<lambda>c. user (calls c)"]
    by (simp add: e stop_split assms(5) poll_loop_flag good_stop_after_join poll_thread_exit_def
        clear_partitions_def reset_start_flag_def good_flush)
qed

end

section \<open>The account of addresses\<close>

text \<open>It fails (\<open>None\<close>) at the first commit of a message that is not delivered.\<close>

fun commit_step :: "nat set option \<Rightarrow> rk_call \<Rightarrow> nat set option" where
  "commit_step None _ = None"
| "commit_step (Some U) (PollReturned (Some m)) = Some (insert (m_ptr m) U)"
| "commit_step (Some U) (DeliveryMsg p _ _ _) = Some (U - {p})"
| "commit_step (Some U) (DeliveryMsgForCommitOffset m _ _ _) = Some (U - {m_ptr m})"
| "commit_step (Some U) (MessageDestroy p) = Some (U - {p})"
| "commit_step (Some U) (CommitMessage m) = (if m_ptr m \<in> U then None else Some U)"
| "commit_step (Some U) _ = Some U"

definition undelivered :: "rk_call list \<Rightarrow> nat set option" where
  "undelivered log = foldl commit_step (Some {}) log"

definition open_in :: "nat set \<Rightarrow> rk_call list \<Rightarrow> bool" where
  "open_in A log \<longleftrightarrow> (\<exists>U. undelivered log = Some U \<and> U \<subseteq> A)"

lemma undelivered_append [simp]: "undelivered (log @ xs) = foldl commit_step (undelivered log) xs"
  by (simp add: undelivered_def)

lemma open_in_none: "open_in {} log \<longleftrightarrow> undelivered log = Some {}"
  by (simp add: open_in_def)

lemma plain_step: "plain_call x \<Longrightarrow> \<exists>V. commit_step (Some U) x = Some V \<and> V \<subseteq> U"
  by (cases x) (auto simp: plain_call_def message_call_def delivery_call_def split: option.splits)

interpretation addresses: message_account open_in "{}" "\<lambda>m. {m_ptr m}"
proof unfold_locales
  fix a log x
  show "open_in a log \<Longrightarrow> plain_call x \<Longrightarrow> open_in a (log @ [x])"
    unfolding open_in_def using plain_step by fastforce
qed (auto simp: open_in_def undelivered_def)

section \<open>The account of texts\<close>

text \<open>What the user is given of a message: its topic, its payload and the length of the payload.\<close>

type_synonym message_text = "string \<times> string \<times> nat"

definition message_text_of :: "rk_message \<Rightarrow> message_text" where
  "message_text_of m = (topic_of m, payload_of m, length (payload_of m))"

fun arriving :: "rk_call \<Rightarrow> message_text option" where
  "arriving (PollReturned (Some m)) = (if m_err m = 0 then Some (message_text_of m) else None)"
| "arriving _ = None"

fun handing :: "rk_call \<Rightarrow> message_text option" where
  "handing (DeliveryMsg _ t s n) = Some (t, s, n)"
| "handing (DeliveryMsgForCommitOffset _ t s n) = Some (t, s, n)"
| "handing _ = None"

definition arrived_texts :: "rk_call list \<Rightarrow> message_text list" where
  "arrived_texts = List.map_filter arriving"

definition handed_texts :: "rk_call list \<Rightarrow> message_text list" where
  "handed_texts = List.map_filter handing"

fun is_commit :: "rk_call \<Rightarrow> bool" where
  "is_commit (CommitMessage _) = True"
| "is_commit _ = False"

lemma plain_neither: "plain_call x \<Longrightarrow> arriving x = None \<and> handing x = None \<and> \<not> is_commit x"
  by (cases x rule: arriving.cases) (auto simp: plain_call_def message_call_def delivery_call_def)

interpretation texts_in_hand: message_account "in_hand arriving handing is_commit" "[]"
  "\<lambda>m. if checkMsg m then [message_text_of m] else []"
proof unfold_locales
  fix a log x m
  show "in_hand arriving handing is_commit a log \<Longrightarrow> plain_call x \<Longrightarrow>
      in_hand arriving handing is_commit a (log @ [x])"
    by (simp add: plain_neither in_hand_other)
  show "in_hand arriving handing is_commit [] log \<Longrightarrow>
      in_hand arriving handing is_commit (if checkMsg m then [message_text_of m] else [])
        (log @ [PollReturned (Some m)])"
    using in_hand_arrive [of arriving handing is_commit log "PollReturned (Some m)"]
    by (simp add: checkMsg_def split: if_splits)
qed (auto simp: message_text_of_def intro: in_hand_other in_hand_hand in_hand_settle)

section \<open>Properties\<close>

text \<open>In every session of the callback build, whatever librdkafka, the brokers, the clock and the
  callback do, no offset is committed for a message that a poll returned and that was not yet handed to
  the callback: between two steps of the session every message returned so far was delivered or, for
  a failed one, freed, and the same holds when \<open>stop\<close> returns, wherever the poll thread was.\<close>

theorem commits_follow_delivery:
  assumes "consumer_init pt lib lp cp (consumer_new cl lg) = (ok1, c1)"
    and "subscribe lib grp ts c1 = (ok2, c2)" and "start True lib c2 = (ok3, c3)"
    and "session True lib c3 c4" and "start_flag c4"
    and "kafka_machine lib user (loop_start c4) k m" and "lm_control m = Joined"
  shows "undelivered (calls c4) = Some {} \<and>
     undelivered (calls (stop_after_join lib (lm_state m))) = Some {}"
  using addresses.good_run [OF assms] by (simp add: open_in_none)

theorem commits_follow_delivery_witness:
  "\<exists>k m. kafka_machine demo_lib (\<lambda>_. []) (loop_start demo_started) k m \<and> lm_control m = Joined \<and>
     undelivered (calls (stop_after_join demo_lib (lm_state m))) = Some {}"
proof -
  obtain k m where m: "kafka_machine demo_lib (\<lambda>_. []) (loop_start demo_started) k m"
    "lm_control m = Joined"
    using kafka_loop.run_serial [OF demo_started_flag, of demo_lib "\<lambda>_. []" 2]
    by (auto simp: kafka_machine_def)
  from commits_follow_delivery [OF surjective_pairing surjective_pairing surjective_pairing
      begin_session demo_started_flag [unfolded demo_started_def] m(1) [unfolded demo_started_def] m(2)]
  have "undelivered (calls (stop_after_join demo_lib (lm_state m))) = Some {}" by simp
  with m show ?thesis by blast
qed

text \<open>C3: What the user is given is what arrives. In every session of the callback build, the texts
  (topic, payload and length) that were handed to the callback are, in this order and each once, those
  of the messages without an error that the polls returned: between two steps of the session, and when
  \<open>stop\<close> returns. And at each commit of the whole run all that had arrived had been handed over, so that
  a restart from the committed offsets loses nothing.\<close>

theorem kafka_delivers_in_order:
  assumes "consumer_init pt lib lp cp (consumer_new cl lg) = (ok1, c1)"
    and "subscribe lib grp ts c1 = (ok2, c2)" and "start True lib c2 = (ok3, c3)"
    and "session True lib c3 c4" and "start_flag c4"
    and "kafka_machine lib user (loop_start c4) k m" and "lm_control m = Joined"
    and "log = calls (stop_after_join lib (lm_state m))"
  shows "handed_texts (calls c4) = arrived_texts (calls c4) \<and> handed_texts log = arrived_texts log \<and>
     (\<forall>pre x suf. log = pre @ CommitMessage x # suf \<longrightarrow> handed_texts pre = arrived_texts pre)"
  using texts_in_hand.good_run [OF assms(1-7)] unfolding assms(8) in_hand_def arrived_texts_def handed_texts_def
  by (auto dest: spec)

theorem kafka_delivers_in_order_witness:
  "\<exists>k m. kafka_machine demo_lib (\<lambda>_. []) (loop_start demo_started) k m \<and> lm_control m = Joined \<and>
     handed_texts (calls (stop_after_join demo_lib (lm_state m))) =
       arrived_texts (calls (stop_after_join demo_lib (lm_state m)))"
proof -
  obtain k m where m: "kafka_machine demo_lib (\<lambda>_. []) (loop_start demo_started) k m"
    "lm_control m = Joined"
    using kafka_loop.run_serial [OF demo_started_flag, of demo_lib "\<lambda>_. []" 2]
    by (auto simp: kafka_machine_def)
  from kafka_delivers_in_order [OF surjective_pairing surjective_pairing surjective_pairing
      begin_session demo_started_flag [unfolded demo_started_def] m(1) [unfolded demo_started_def] m(2) refl]
  show ?thesis using m by blast
qed


text \<open>C32: In the build without callbacks the promise fails: when librdkafka has a message and the commit
  interval has passed, a single call of \<open>consume\<close> (in the mode in which the client commits) takes the
  message, commits its offset, frees it and only then returns it; the pointer in the info that the
  caller gets is to a message that is freed.\<close>

theorem consume_commits_before_return:
  assumes "start_flag c" and "\<not> is_auto_commit_offset c" and "\<not> is_user_manual_commit_offset c"
    and "consumer_poll lib c = (Some m, c1)" and "checkMsg m" and "m_payload m \<noteq> None"
    and "c2 = addWaitCommitOffset m (emit (MessageRead (m_ptr m)) c1)"
    and "manual_commit_time c2 \<le> now_ms lib c2 - last_commit_ms c2"
  shows "\<exists>info c' rest. consume lib c = (True, Some info, c') \<and> info_rd_message info = Some m \<and>
     calls c' = calls c1 @ rest \<and> CommitMessage m \<in> set rest \<and> MessageDestroy (m_ptr m) \<in> set rest"
proof -
  have f: "\<not> is_auto_commit_offset c1" "\<not> is_user_manual_commit_offset c1"
    using consumer_poll_frame(3,4) [of lib c] assms(2-4) by simp_all
  let ?s = c2 and ?info = "\<lparr>info_topic = topic_of m, info_msg = payload_of m,
    info_msg_len = length (payload_of m), info_rd_message = Some m\<rparr>"
  have c: "consume lib c = (True, Some ?info, manualCommitWaitOffset lib False ?s)"
    using assms(1,4-7) f by (simp add: consume_def Let_def)
  have w: "(getWaitOffsetKey m, m) \<in> set (wait_commit_msgs ?s)"
    using map_of_SomeD [of "wait_commit_msgs ?s" "getWaitOffsetKey m" m]
    by (simp add: assms(7) map_of_smap_assign)
  have "\<exists>rest. calls ?s = calls c1 @ rest"
    by (cases "map_of (wait_commit_msgs c1) (getWaitOffsetKey m)")
       (simp_all add: assms(7) addWaitCommitOffset_def Let_def)
  then obtain rest where s: "calls ?s = calls c1 @ rest" ..
  let ?flushed = "concat (map (\<lambda>(k, m). [CommitMessage m, MessageDestroy (m_ptr m)]) (wait_commit_msgs ?s))"
  have "calls (manualCommitWaitOffset lib False ?s) = calls c1 @ rest @ GetTimeOfDay # ?flushed"
    using assms(8) s
    by (simp add: manualCommitWaitOffset_def getCurrentTimeMs_eq Let_def calls_commit_loop)
  moreover have "CommitMessage m \<in> set ?flushed" "MessageDestroy (m_ptr m) \<in> set ?flushed"
    using w by force+
  ultimately show ?thesis
    unfolding c
    by (intro exI [of _ ?info] exI [of _ "manualCommitWaitOffset lib False ?s"]
        exI [of _ "rest @ GetTimeOfDay # ?flushed"]) (simp del: set_concat)
qed

theorem consume_commits_before_return_witness:
  "\<exists>info c'. consume demo_lib ((consumer_new '''' logger_start)\<lparr>start_flag := True,
       is_auto_commit_offset := False, manual_commit_time := 0\<rparr>) = (True, Some info, c') \<and>
     CommitMessage (demo_msg 0 ''t'' 0 0) \<in> set (calls c')"
proof -
  let ?c = "(consumer_new '''' logger_start)\<lparr>start_flag := True, is_auto_commit_offset := False,
    manual_commit_time := 0\<rparr>"
  obtain c1 where p: "consumer_poll demo_lib ?c = (Some (demo_msg 0 ''t'' 0 0), c1)"
    and c1: "wait_commit_msgs c1 = []" "manual_commit_time c1 = 0" "last_commit_ms c1 = 0"
    by (simp add: consumer_poll_def demo_lib_def consumer_new_def emit_def)
  have now: "0 \<le> now_ms demo_lib d" for d :: consumer
    by (simp add: now_ms_def getCurrentTimeMs_def demo_lib_def quiet_lib_def)
  have "start_flag ?c" "\<not> is_auto_commit_offset ?c" "\<not> is_user_manual_commit_offset ?c"
    "checkMsg (demo_msg 0 ''t'' 0 0)" "m_payload (demo_msg 0 ''t'' 0 0) \<noteq> None"
    by (simp_all add: consumer_new_def checkMsg_def demo_msg_def)
  from consume_commits_before_return [OF this(1-3) p this(4,5) refl] c1 now show ?thesis
    by (fastforce simp: addWaitCommitOffset_def Let_def emit_def)
qed

end
