(* ===== verification/Kafka_Offset_Refinement.thy ===== *)
theory Kafka_Offset_Refinement
  imports Kafka_Offset_Spec Kafka_Consumer_Setup
begin

text \<open>
  The consumer against the specification of its offsets (Kafka_Offset_Spec): the operations on the
  tables refine it, and over a whole session in which the client commits by itself the offset that
  is requested last for each partition is that of the newest message that arrived from it.
\<close>

section \<open>Arrivals\<close>

text \<open>The messages that a poll returns and the client takes: without an error, and for \<open>consume\<close> with
  a payload.\<close>

definition accepted_msg :: "bool \<Rightarrow> rk_message \<Rightarrow> bool" where
  "accepted_msg cb m \<longleftrightarrow> checkMsg m \<and> (cb \<or> m_payload m \<noteq> None)"

fun newest :: "bool \<Rightarrow> topic_partition \<Rightarrow> rk_call list \<Rightarrow> int option" where
  "newest cb a [] = None"
| "newest cb a (x # log) =
     (case newest cb a log of
        Some off \<Rightarrow> Some off
      | None \<Rightarrow> (case x of PollReturned (Some m) \<Rightarrow>
                   if accepted_msg cb m \<and> tp_of m = a then Some (m_offset m) else None
                | _ \<Rightarrow> None))"

lemma newest_append: "newest cb a (log @ log') =
    (case newest cb a log' of Some off \<Rightarrow> Some off | None \<Rightarrow> newest cb a log)"
  by (induction log) (auto split: option.split)

lemma newest_filter: "newest cb a (filter message_call log) = newest cb a log"
  by (induction log) (auto simp: message_call_def split: rk_call.splits option.splits)

lemma requested_filter: "requested a (filter message_call log) = requested a log"
  by (induction log) (auto simp: message_call_def split: rk_call.splits option.splits)

lemma newest_quiet: "\<forall>x \<in> set log'. \<not> message_call x \<Longrightarrow> newest cb a (log @ log') = newest cb a log"
  using newest_filter [of cb a "log @ log'"] newest_filter [of cb a log] by simp

definition latest_offset :: "topic_partition \<Rightarrow> offset_spec \<Rightarrow> int option" where
  "latest_offset a s = (case sp_pending s a of Some m \<Rightarrow> Some (m_offset m) | None \<Rightarrow> sp_requested s a)"

lemma latest_spec [simp]:
  "latest_offset a (spec_flush s) = latest_offset a s" "latest_offset a (spec_await m s) = latest_offset a s"
  "latest_offset a (spec_confirm m s) = latest_offset a s"
  "latest_offset a (spec_store m s) = (if tp_of m = a then Some (m_offset m) else latest_offset a s)"
  by (auto simp: latest_offset_def spec_flush_def spec_store_def spec_await_def spec_confirm_def
      split: option.split)

definition in_order :: "bool \<Rightarrow> consumer \<Rightarrow> bool" where
  "in_order cb c \<longleftrightarrow> keyed c \<and> \<not> is_auto_commit_offset c \<and>
     (\<forall>a. latest_offset a (offset_view c) = newest cb a (calls c))"

section \<open>Steps keep the order\<close>

definition same_offsets :: "consumer \<Rightarrow> consumer \<Rightarrow> bool" where
  "same_offsets c c' \<longleftrightarrow> wait_commit_msgs c' = wait_commit_msgs c \<and>
     wait_destroy_msgs_for_uncommit c' = wait_destroy_msgs_for_uncommit c \<and>
     is_auto_commit_offset c' = is_auto_commit_offset c \<and>
     is_user_manual_commit_offset c' = is_user_manual_commit_offset c \<and>
     filter message_call (calls c') = filter message_call (calls c)"

lemma same_offsets_view:
  assumes "same_offsets c c'"
  shows "offset_view c' = offset_view c" "keyed c' = keyed c" "newest cb a (calls c') = newest cb a (calls c)"
  using assms requested_filter [of _ "calls c"] requested_filter [of _ "calls c'"]
    newest_filter [of cb a "calls c"] newest_filter [of cb a "calls c'"]
  by (auto simp: same_offsets_def offset_view_def keyed_def tables_ok_def)

lemma in_order_same: "same_offsets c c' \<Longrightarrow> in_order cb c' = in_order cb c"
  using same_offsets_view(1,2) [of c c'] same_offsets_view(3) [of c c' cb]
  by (auto simp: in_order_def same_offsets_def)

lemma same_offsets_emit [simp]: "\<not> message_call x \<Longrightarrow> same_offsets c (emit x c)"
  by (simp add: same_offsets_def)

lemma same_offsets_refl [simp]: "same_offsets c c"
  by (simp add: same_offsets_def)

lemma same_offsets_trans [trans]: "same_offsets c d \<Longrightarrow> same_offsets d e \<Longrightarrow> same_offsets c e"
  by (simp add: same_offsets_def)

lemma in_order_emit [simp]: "\<not> message_call x \<Longrightarrow> in_order cb (emit x c) = in_order cb c"
  by (simp add: in_order_same)

lemma message_call_simps [simp]:
  "message_call (PollReturned (Some m))" "message_call (CommitMessage m)"
  "\<not> message_call (PollReturned None)" "\<not> message_call (MessageRead p)"
  "\<not> message_call (MessageDestroy p)" "\<not> message_call GetTimeOfDay"
  "\<not> message_call (DeliveryMsg p t d n)" "\<not> message_call (DeliveryMsgForCommitOffset m t d n)"
  "\<not> message_call (ConsumerPoll i)"
  "\<not> message_call (RebalanceAssign ps)" "\<not> message_call ThreadJoin" "\<not> message_call ThreadCreate"
  "\<not> message_call ConsumerClose" "\<not> message_call HandleDestroy" "\<not> message_call (WaitDestroyed i)"
  "\<not> message_call (PausePartitions l)" "\<not> message_call (ResumePartitions l)"
  by (simp_all add: message_call_def)

lemma newest_flush:
  "newest cb a (calls (manualCommitWaitOffset lib face c)) = newest cb a (calls c)"
proof -
  have "newest cb a (concat (map (\<lambda>(k, m). [CommitMessage m, MessageDestroy (m_ptr m)]) xs)) = None"
    for xs :: "(string \<times> rk_message) list"
    by (induction xs) (auto split: option.split)
  then show ?thesis
    by (simp add: manualCommitWaitOffset_def getCurrentTimeMs_eq Let_def calls_commit_loop newest_append)
qed

lemma in_order_flush: "in_order cb c \<Longrightarrow> in_order cb (manualCommitWaitOffset lib face c)"
  using view_manualCommitWaitOffset [of c lib face]
  by (auto simp: in_order_def newest_flush frame_simps)

lemma offset_view_poll [simp]:
  "offset_view (emit (PollReturned mo) c) = offset_view c" "keyed (emit x c) = keyed c"
  by (auto simp: offset_view_def requested_append keyed_def tables_ok_def fun_eq_iff)

lemma offset_view_quiet [simp]: "\<not> message_call x \<Longrightarrow> offset_view (emit x c) = offset_view c"
  by (auto simp: offset_view_def requested_quiet fun_eq_iff)

text \<open>A message arrives: until it is stored the log is ahead of the tables.\<close>

lemma in_order_arrive:
  assumes "in_order cb c" and "accepted_msg cb m" and "proper (tp_of m)"
    and "same_offsets (emit (PollReturned (Some m)) c) c'"
  shows "in_order cb (addWaitCommitOffset m c')"
proof -
  let ?p = "emit (PollReturned (Some m)) c"
  have k': "keyed c'" using assms(1) same_offsets_view(2) [OF assms(4)] by (simp add: in_order_def)
  have n: "newest cb a (calls (addWaitCommitOffset m c')) = newest cb a (calls ?p)" for a
    using same_offsets_view(3) [OF assms(4), of cb a]
    by (simp add: addWaitCommitOffset_def Let_def newest_append split: option.split)
  show ?thesis
    using assms(1,2,4) view_addWaitCommitOffset [OF k' assms(3)] same_offsets_view(1) [OF assms(4)] n
    by (auto simp: in_order_def same_offsets_def newest_append frame_simps)
qed

lemma in_order_refuse:
  assumes "in_order cb c" and "\<not> accepted_msg cb m"
  shows "in_order cb (emit (PollReturned (Some m)) c)"
  using assms by (simp add: in_order_def newest_append)

lemma in_order_rebalance: "in_order cb c \<Longrightarrow> in_order cb (rdkafka_rebalance_cb lib ev c)"
proof (cases ev)
  case (RevokePartitions ps)
  assume o: "in_order cb c"
  have f: "in_order cb (manualCommitWaitOffset lib True c)" using o by (rule in_order_flush)
  have a: "\<not> is_auto_commit_offset c" using o by (simp add: in_order_def)
  have "same_offsets (manualCommitWaitOffset lib True c) (rdkafka_rebalance_cb lib ev c)"
    using RevokePartitions a by (simp add: rdkafka_rebalance_cb_def Let_def same_offsets_def)
  from in_order_same [OF this] f show ?thesis by simp
next
  case (AssignPartitions ps)
  assume o: "in_order cb c"
  have "same_offsets c (rdkafka_rebalance_cb lib ev c)"
    using AssignPartitions by (simp add: rdkafka_rebalance_cb_def Let_def same_offsets_def)
  from in_order_same [OF this] o show ?thesis by simp
next
  case (RebalanceFailed e ps)
  assume o: "in_order cb c"
  have "same_offsets c (rdkafka_rebalance_cb lib ev c)"
    using RebalanceFailed by (simp add: rdkafka_rebalance_cb_def Let_def same_offsets_def)
  from in_order_same [OF this] o show ?thesis by simp
qed

lemma in_order_rebalances:
  "in_order cb c \<Longrightarrow> in_order cb (foldl (\<lambda>c ev. rdkafka_rebalance_cb lib ev c) c evs)"
  by (rule foldl_invariant [where I = "in_order cb"]) (simp_all add: in_order_rebalance)

definition proper_messages :: "rk_lib \<Rightarrow> bool" where
  "proper_messages lib \<longleftrightarrow>
     (\<forall>log t m. snd (rk_consumer_poll lib log t) = Some m \<longrightarrow> proper (tp_of m))"

lemma in_order_consumer_poll:
  assumes "in_order cb c" and "consumer_poll lib c = (mo, c1)" and "proper_messages lib"
  obtains c0 where "in_order cb c0" "c1 = emit (PollReturned mo) c0"
    "\<And>m. mo = Some m \<Longrightarrow> proper (tp_of m)"
proof -
  let ?t = "long_to_int (consumer_poll_time c)"
  obtain evs where e: "rk_consumer_poll lib (calls c) ?t = (evs, mo)"
    "c1 = emit (PollReturned mo)
       (foldl (\<lambda>c ev. rdkafka_rebalance_cb lib ev c) (emit (ConsumerPoll ?t) c) evs)"
    using assms(2) by (auto simp: consumer_poll_def Let_def split: prod.splits)
  show ?thesis
  proof (rule that)
    show "in_order cb (foldl (\<lambda>c ev. rdkafka_rebalance_cb lib ev c) (emit (ConsumerPoll ?t) c) evs)"
      using assms(1) by (intro in_order_rebalances) simp
    show "proper (tp_of m)" if "mo = Some m" for m
      using assms(3) e(1) that unfolding proper_messages_def by (metis snd_conv)
  qed (rule e(2))
qed

text \<open>In the user-commit mode: a callback that commits each message when it is given it.\<close>

definition commits_each :: "(consumer \<Rightarrow> rk_message list) \<Rightarrow> bool" where
  "commits_each user \<longleftrightarrow> (\<forall>c m t d n. calls c \<noteq> [] \<longrightarrow>
     last (calls c) = DeliveryMsgForCommitOffset m t d n \<longrightarrow> user c = [m])"

lemma in_order_commit_arrived:
  fixes c :: consumer and t s :: string and n :: nat
  assumes "in_order cb c" and "accepted_msg cb m" and "proper (tp_of m)"
    and "is_user_manual_commit_offset c"
  defines "d \<equiv> emit (DeliveryMsgForCommitOffset m t s n) (addWaitDestroyMsgs m (emit (PollReturned (Some m)) c))"
  shows "in_order cb (commitOffset (Some m) d)"
proof -
  let ?p = "emit (PollReturned (Some m)) c"
  have k: "keyed ?p" "keyed d" and v: "offset_view d = spec_await m (offset_view c)"
    and u: "is_user_manual_commit_offset d" and au: "\<not> is_auto_commit_offset d"
    using assms(1,4) view_addWaitDestroyMsgs [of ?p m] assms(3)
    by (simp_all add: in_order_def d_def frame_simps)
  note ws = view_addWaitCommitOffset [OF k(2) assms(3)]
  have c: "commitOffset (Some m) d = removeWaitDestroyMsgs m (addWaitCommitOffset m d)"
    using u by (simp add: commitOffset_def)
  obtain ds where ds: "calls (removeWaitDestroyMsgs m (addWaitCommitOffset m d)) =
      calls (emit (MessageRead (m_ptr m)) (addWaitCommitOffset m d)) @ map MessageDestroy ds"
    using calls_removeWaitDestroyMsgs by blast
  have "newest cb a (calls (commitOffset (Some m) d)) = newest cb a (calls d)" for a
  proof -
    have "newest cb a (calls (commitOffset (Some m) d)) =
        newest cb a (calls (emit (MessageRead (m_ptr m)) (addWaitCommitOffset m d)))"
      unfolding c ds by (rule newest_quiet) auto
    also have "\<dots> = newest cb a (calls d)"
      by (simp add: addWaitCommitOffset_def Let_def newest_append split: option.split)
    finally show ?thesis .
  qed
  moreover have "newest cb a (calls d) = (if tp_of m = a then Some (m_offset m) else newest cb a (calls c))" for a
    using assms(2) by (simp add: d_def addWaitDestroyMsgs_def Let_def newest_append split: option.split)
  ultimately show ?thesis
    using view_removeWaitDestroyMsgs [OF ws(2) assms(3)] ws(1) v assms(1) au
    by (auto simp: in_order_def c)
qed

lemma in_order_poll_body:
  assumes "in_order True c" and "proper_messages lib"
    and "is_user_manual_commit_offset c \<Longrightarrow> commits_each user"
  shows "in_order True (poll_body lib user c)"
proof -
  obtain mo c1 where p: "consumer_poll lib c = (mo, c1)" by force
  from in_order_consumer_poll [OF assms(1) p assms(2)] obtain c0 where
    c0: "in_order True c0" "c1 = emit (PollReturned mo) c0" "\<And>m. mo = Some m \<Longrightarrow> proper (tp_of m)"
    by blast
  have m1: "\<not> is_auto_commit_offset c1" "is_user_manual_commit_offset c1 = is_user_manual_commit_offset c"
    using c0(1,2) consumer_poll_frame(4) [of lib c] p by (simp_all add: in_order_def)
  define c2 where "c2 = (case mo of
      Some m \<Rightarrow> if checkMsg m
                then receivedConsumeMsg user m (if \<not> is_user_manual_commit_offset c1
                  then addWaitCommitOffset m c1 else addWaitDestroyMsgs m c1)
                else emit (MessageDestroy (m_ptr m)) c1
    | None \<Rightarrow> c1)"
  have "in_order True c2"
  proof (cases mo)
    case None
    with c0 show ?thesis by (simp add: c2_def)
  next
    case (Some m)
    consider "\<not> checkMsg m" | "checkMsg m" "\<not> is_user_manual_commit_offset c1"
      | "checkMsg m" "is_user_manual_commit_offset c1" by blast
    then show ?thesis
    proof cases
      case 1
      with in_order_refuse [OF c0(1), of m] c0(2) Some show ?thesis
        by (simp add: c2_def accepted_msg_def)
    next
      case 2
      then have "in_order True (addWaitCommitOffset m c1)"
        using in_order_arrive [OF c0(1) _ c0(3) [OF Some], of c1] c0(2) Some
        by (simp add: accepted_msg_def)
      with 2 Some show ?thesis by (simp add: c2_def receivedConsumeMsg_def Let_def)
    next
      case 3
      let ?d = "emit (DeliveryMsgForCommitOffset m (topic_of m) (payload_of m) (length (payload_of m)))
        (addWaitDestroyMsgs m c1)"
      have "user ?d = [m]"
        using assms(3) 3(2) m1(2) unfolding commits_each_def
        by (metis calls_emit last_snoc snoc_eq_iff_butlast)
      then have "c2 = commitOffset (Some m) ?d"
        using 3 Some by (simp add: c2_def receivedConsumeMsg_def Let_def run_commits_def)
      with in_order_commit_arrived [OF c0(1) _ c0(3) [OF Some]] 3 c0(2) Some show ?thesis
        by (simp add: accepted_msg_def)
    qed
  qed
  then have "in_order True (manualCommitWaitOffset lib False c2)" by (rule in_order_flush)
  moreover have "poll_body lib user c = manualCommitWaitOffset lib False c2"
    using p m1(1) by (simp add: poll_body_def Let_def c2_def split: option.split)
  ultimately show ?thesis by simp
qed

lemma in_order_poll_loop:
  "in_order True c \<Longrightarrow> proper_messages lib \<Longrightarrow> (is_user_manual_commit_offset c \<Longrightarrow> commits_each user) \<Longrightarrow>
     in_order True (poll_loop n lib user c)"
proof (induction n arbitrary: c)
  case (Suc n)
  have "in_order True (poll_body lib user c)" by (rule in_order_poll_body [OF Suc.prems])
  from Suc.IH [OF this] Suc.prems(2,3) show ?case by simp
qed simp

lemma in_order_consume:
  assumes "in_order False c" and "proper_messages lib" and "consume lib c = (rt, info, c')"
    and "start_flag c" and "\<not> is_user_manual_commit_offset c"
  shows "in_order False c' \<and> \<not> is_user_manual_commit_offset c'"
proof -
  obtain mo c1 where p: "consumer_poll lib c = (mo, c1)" by force
  from in_order_consumer_poll [OF assms(1) p assms(2)] obtain c0 where
    c0: "in_order False c0" "c1 = emit (PollReturned mo) c0" "\<And>m. mo = Some m \<Longrightarrow> proper (tp_of m)"
    by blast
  have m1: "\<not> is_auto_commit_offset c1" "\<not> is_user_manual_commit_offset c1"
    using c0(1,2) assms(5) consumer_poll_frame(4) [of lib c] p by (simp_all add: in_order_def)
  define c2 where "c2 = (case mo of
      Some m \<Rightarrow> if checkMsg m \<and> m_payload m \<noteq> None
                then addWaitCommitOffset m (emit (MessageRead (m_ptr m)) c1)
                else emit (MessageDestroy (m_ptr m)) c1
    | None \<Rightarrow> c1)"
  have "in_order False c2"
  proof (cases mo)
    case None
    with c0 show ?thesis by (simp add: c2_def)
  next
    case (Some m)
    show ?thesis
    proof (cases "checkMsg m \<and> m_payload m \<noteq> None")
      case True
      then show ?thesis
        using in_order_arrive [OF c0(1) _ c0(3) [OF Some], of "emit (MessageRead (m_ptr m)) c1"] c0(2) Some
        by (simp add: c2_def accepted_msg_def)
    next
      case False
      with in_order_refuse [OF c0(1), of m] c0(2) Some show ?thesis
        by (auto simp add: c2_def accepted_msg_def)
    qed
  qed
  then have "in_order False (manualCommitWaitOffset lib False c2)" by (rule in_order_flush)
  moreover have "c' = manualCommitWaitOffset lib False c2"
    using p m1 assms(3,4) by (auto simp: consume_def Let_def c2_def split: option.splits if_splits)
  moreover have "is_user_manual_commit_offset c2 = is_user_manual_commit_offset c1"
    by (simp add: c2_def split: option.split)
  ultimately show ?thesis using m1(2) by simp
qed

section \<open>Sessions\<close>

text \<open>With the client's own commits, any step; the mode does not change.\<close>

definition in_order_sdk :: "bool \<Rightarrow> consumer \<Rightarrow> bool" where
  "in_order_sdk cb c \<longleftrightarrow> in_order cb c \<and> \<not> is_user_manual_commit_offset c"

lemma in_order_sdk_same: "same_offsets c c' \<Longrightarrow> in_order_sdk cb c \<Longrightarrow> in_order_sdk cb c'"
  using in_order_same [of c c' cb] by (simp add: in_order_sdk_def) (simp add: same_offsets_def)

lemma in_order_step:
  "consumer_step cb lib c c' \<Longrightarrow> in_order_sdk cb c \<Longrightarrow> proper_messages lib \<Longrightarrow> in_order_sdk cb c'"
proof (induction rule: consumer_step.induct)
  case (poll_step c user)
  then show ?case using in_order_poll_body [of c lib user] by (cases cb) (simp_all add: in_order_sdk_def)
next
  case (consume_step c rt info c')
  then show ?case using in_order_consume [of c lib rt info c']
    by (cases cb) (simp_all add: in_order_sdk_def)
next
  case (commit_step m c)
  then show ?case by (simp add: commitOffset_def in_order_sdk_def)
next
  case (pause_step c topics)
  have "same_offsets c (snd (pause lib topics c))"
    by (simp add: pause_def Let_def same_offsets_def)
  with pause_step in_order_sdk_same show ?case by blast
next
  case (resume_step c topics)
  have "same_offsets c (snd (resume lib topics c))"
    by (simp add: resume_def Let_def same_offsets_def)
  with resume_step in_order_sdk_same show ?case by blast
qed

lemma in_order_session:
  "session cb lib c c' \<Longrightarrow> in_order_sdk cb c \<Longrightarrow> proper_messages lib \<Longrightarrow> in_order_sdk cb c'"
  by (induction rule: session.induct) (auto intro: in_order_step)

lemma same_offsets_clear: "same_offsets c (clearWaitDestroyMsgs c)"
  unfolding clearWaitDestroyMsgs_def
  by (rule foldl_invariant [where I = "same_offsets c"])
     (auto simp: same_offsets_def consumer_more(3) [OF more_destroy_all] filter_empty_conv split: prod.split)

lemma in_order_stop_thread:
  assumes "in_order cb c"
  shows "in_order cb (stop_thread cb lib c) \<and> wait_commit_msgs (stop_thread cb lib c) = []"
proof -
  let ?c0 = "c\<lparr>start_flag := False, topic_partition_set := tps_init None (topic_partition_set c)\<rparr>"
  define c1 where "c1 = (if cb then emit ThreadJoin (poll_thread_exit lib ?c0) else ?c0)"
  have "same_offsets c ?c0" by (simp add: same_offsets_def)
  with assms have o: "in_order cb ?c0" by (simp add: in_order_same)
  then have o1: "in_order cb c1"
    using in_order_flush [OF o, of lib False] by (cases cb) (simp_all add: c1_def poll_thread_exit_def)
  then have f: "\<not> is_auto_commit_offset c1" by (simp add: in_order_def)
  have "stop_thread cb lib c =
      (let c = (if \<not> is_auto_commit_offset c1 then manualCommitWaitOffset lib True c1 else c1)
       in if is_user_manual_commit_offset c then clearWaitDestroyMsgs c else c)"
    unfolding stop_thread_def c1_def Let_def by simp
  with f in_order_flush [OF o1] in_order_same [OF same_offsets_clear] show ?thesis
    by (simp add: Let_def)
qed

lemma in_order_close_consumer:
  assumes "in_order cb c" and "wait_commit_msgs c = []"
  shows "in_order cb (close_consumer lib c) \<and> wait_commit_msgs (close_consumer lib c) = []"
proof -
  have "wait_commit_msgs (rdkafka_rebalance_cb lib ev d) = []" if "wait_commit_msgs d = []" for ev d
    using that by (simp add: rdkafka_rebalance_cb_def Let_def manualCommitWaitOffset_empty
        split: rebalance.split)
  then show ?thesis
    using assms unfolding close_consumer_def Let_def
    by (auto split: prod.split simp: in_order_rebalances
        intro!: foldl_invariant [where I = "\<lambda>c. wait_commit_msgs c = []"])
qed

lemma same_offsets_wait: "same_offsets c (wait_destroyed_loop n lib c)"
proof (induction n arbitrary: c)
  case (Suc n)
  have "same_offsets c (emit (WaitDestroyed 1000) c)" by simp
  from same_offsets_trans [OF this Suc] this show ?case by (simp add: Let_def)
qed simp

lemma in_order_stop:
  assumes "in_order cb c" and "start_flag c \<or> wait_commit_msgs c = []"
  shows "in_order cb (stop cb lib c) \<and> wait_commit_msgs (stop cb lib c) = []"
proof -
  define c1 where "c1 = (if start_flag c then stop_thread cb lib c else c)"
  define c2 where "c2 = (if rd_kafka_handle c1 then close_consumer lib c1 else c1)"
  define c3 where "c3 = (if rd_kafka_handle c2
               then (if is_user_manual_commit_offset c2 \<and> is_force_destroy c2 then c2
                     else emit HandleDestroy c2)\<lparr>rd_kafka_handle := False\<rparr>
               else c2)"
  have "in_order cb c1" "wait_commit_msgs c1 = []"
    using assms in_order_stop_thread [of cb c lib] by (auto simp: c1_def)
  then have c2: "in_order cb c2" "wait_commit_msgs c2 = []"
    using in_order_close_consumer [of cb c1 lib] by (auto simp: c2_def)
  have "same_offsets c2 c3" by (simp add: c3_def same_offsets_def)
  with same_offsets_wait have s: "same_offsets c2 (wait_destroyed_loop 5 lib c3)"
    by (rule same_offsets_trans [rotated])
  have "stop cb lib c = wait_destroyed_loop 5 lib c3"
    unfolding stop_def Let_def c1_def c2_def c3_def ..
  with c2 s in_order_same [OF s] show ?thesis by (simp add: same_offsets_def)
qed

lemma latest_idle: "wait_commit_msgs c = [] \<Longrightarrow> latest_offset a (offset_view c) = requested a (calls c)"
  by (cases "proper a") (simp_all add: latest_offset_def offset_view_def)

lemma view_clear:
  "offset_view (clearWaitDestroyMsgs c) = offset_view c" "keyed (clearWaitDestroyMsgs c) = keyed c"
proof -
  have d: "requested a (calls (destroy_all ms d)) = requested a (calls d)" for a ms and d :: "'a offset_tables_scheme"
    by (induction ms arbitrary: d) (simp_all add: requested_one del: calls_destroy_all)
  have "requested a (calls (clearWaitDestroyMsgs c)) = requested a (calls c)" for a
    unfolding clearWaitDestroyMsgs_def
    by (rule foldl_frame) (simp add: d del: calls_destroy_all split: prod.split)
  then show "offset_view (clearWaitDestroyMsgs c) = offset_view c"
    unfolding offset_view_def clearWaitDestroyMsgs_frame by simp
  show "keyed (clearWaitDestroyMsgs c) = keyed c"
    unfolding keyed_def tables_ok_def clearWaitDestroyMsgs_frame ..
qed

section \<open>Properties\<close>

text \<open>C6: The offset tables implement their specification. When every message in the tables is filed under
  the key of its topic and partition, and neither a topic there nor that of the message at hand ends in a
  digit, nor is a partition negative, each of the operations (storing a message, letting it wait, removing
  what waits up to it, the user's commit, the flush of the pending commits, and freeing what waits) does
  to the pending, unconfirmed and requested offsets exactly what the specification says, and keeps every
  entry filed so. Freeing what waits leaves the offsets as they are: it comes last, in the thread's exit.\<close>

theorem offset_tables_refine:
  assumes "keyed c" and "proper (tp_of m)"
  shows "offset_view (addWaitCommitOffset m c) = spec_store m (offset_view c) \<and>
     offset_view (addWaitDestroyMsgs m c) = spec_await m (offset_view c) \<and>
     offset_view (removeWaitDestroyMsgs m c) = spec_confirm m (offset_view c) \<and>
     offset_view (commitOffset (Some m) c) = (if is_user_manual_commit_offset c
       then spec_confirm m (spec_store m (offset_view c)) else offset_view c) \<and>
     offset_view (manualCommitWaitOffset lib face c) =
       (if flush_due lib face c then spec_flush (offset_view c) else offset_view c) \<and>
     offset_view (clearWaitDestroyMsgs c) = offset_view c \<and>
     keyed (addWaitCommitOffset m c) \<and> keyed (addWaitDestroyMsgs m c) \<and>
     keyed (removeWaitDestroyMsgs m c) \<and> keyed (commitOffset (Some m) c) \<and>
     keyed (manualCommitWaitOffset lib face c) \<and> keyed (clearWaitDestroyMsgs c)"
  using view_addWaitCommitOffset [OF assms] view_addWaitDestroyMsgs [OF assms]
    view_removeWaitDestroyMsgs [OF assms] view_manualCommitWaitOffset [OF assms(1), of lib face]
    view_removeWaitDestroyMsgs [OF view_addWaitCommitOffset(2) [OF assms] assms(2)]
    view_clear [of c] assms(1)
  by (simp add: commitOffset_def)

theorem offset_tables_refine_witness:
  "offset_view (addWaitCommitOffset (demo_msg 1 ''t'' 0 7) (consumer_new ''c'' logger_start)) =
     spec_store (demo_msg 1 ''t'' 0 7) (offset_view (consumer_new ''c'' logger_start))"
proof -
  have "keyed (consumer_new ''c'' logger_start)" "proper (tp_of (demo_msg 1 ''t'' 0 7))"
    by (simp_all add: keyed_def tables_ok_def consumer_new_def proper_def tp_of_def topic_of_def
        demo_msg_def c_isdigit_def)
  from offset_tables_refine [OF this, of quiet_lib True] show ?thesis by simp
qed

text \<open>C4: What is committed. When the client commits by itself (neither librdkafka automatically nor the
  user) and no message names a topic that ends in a digit or a negative partition, over every session from
  \<open>init\<close> to \<open>stop\<close>, with any rebalances, the offset whose commit was requested last for a topic and
  partition is that of the newest message that arrived from it without an error; nothing is committed
  for the others.\<close>

theorem stop_commits_newest:
  assumes "consumer_init pt lib lp cp (consumer_new cl lg) = (ok1, c1)"
    and "subscribe lib grp ts c1 = (ok2, c2)" and "start cb lib c2 = (ok3, c3)"
    and "session cb lib c3 c4" and "proper_messages lib"
    and "\<not> is_auto_commit_offset c3" and "\<not> is_user_manual_commit_offset c3"
  shows "requested a (calls (stop cb lib c4)) = newest cb a (calls (stop cb lib c4))"
proof -
  have s: "wait_commit_msgs c3 = []" "wait_destroy_msgs_for_uncommit c3 = []"
    "filter message_call (calls c3) = []"
    using msg_state_start [OF assms(1-3)] by (simp_all add: msg_state_def)
  then have "requested a (calls c3) = None" "newest cb a (calls c3) = None" for a
    using requested_filter [of a "calls c3"] newest_filter [of cb a "calls c3"] by simp_all
  with s(1,2) assms(6,7) have "in_order_sdk cb c3"
    by (simp add: in_order_sdk_def in_order_def keyed_def tables_ok_def latest_idle)
  then have o: "in_order cb c4" using in_order_session assms(4,5) by (simp add: in_order_sdk_def)
  have "in_session c4" using in_session_reachable [OF assms(4)] in_session_start [OF assms(1-3)] by simp
  then have "start_flag c4 \<or> wait_commit_msgs c4 = []"
    using all_freed_idle [of c4] by (auto simp: in_session_def all_freed_def)
  from in_order_stop [OF o this, of lib]
  have "latest_offset a (offset_view (stop cb lib c4)) = newest cb a (calls (stop cb lib c4))"
    "wait_commit_msgs (stop cb lib c4) = []" unfolding in_order_def by blast+
  with latest_idle [of "stop cb lib c4" a] show ?thesis by simp
qed


lemma proper_demo_lib: "proper_messages demo_lib"
  by (simp add: proper_messages_def demo_lib_def demo_msg_def proper_def tp_of_def topic_of_def
      c_isdigit_def)

lemma demo_started_mode: "\<not> is_user_manual_commit_offset demo_started" "\<not> is_auto_commit_offset demo_started"
proof -
  let ?i = "consumer_init demo_pt demo_lib ''log'' ''conf'' (consumer_new '''' logger_start)"
  have i: "?i = (True, snd ?i)"
    using demo_init [of "''log''" "''conf''" logger_start] by (metis (full_types) prod.collapse)
  have "value_matches (getSdkConfig (snd (snd (loadConfig demo_pt ''conf'' '''' config_empty)))
      RD_KAFKA_SDK_USER_MANUAL_COMMIT_OFFSET DEFAULT_FALSE) DEFAULT_FALSE"
    "\<not> strncasecmp_eq ''false'' ''true'' (length ''false'' + 1)" by code_simp+
  then have "\<not> is_user_manual_commit_offset (snd ?i)" "\<not> is_auto_commit_offset (snd ?i)"
    using client_commit_mode [OF _ i, of _ _ "snd (snd (loadConfig demo_pt ''conf'' '''' config_empty))" "''false''"]
    by (simp_all add: demo_lib_def quiet_lib_def prod_eq_iff)
  moreover have "is_user_manual_commit_offset demo_started = is_user_manual_commit_offset (snd ?i)"
    "is_auto_commit_offset demo_started = is_auto_commit_offset (snd ?i)"
    using subscribe_keeps(1) [of demo_lib "''g''" "[''t'']" "snd ?i"]
    by (simp_all add: demo_started_def flags_def start_def Let_def)
  ultimately show "\<not> is_user_manual_commit_offset demo_started" "\<not> is_auto_commit_offset demo_started"
    by simp_all
qed

theorem stop_commits_newest_witness:
  "requested (''t'', 0) (calls (stop True demo_lib (poll_body demo_lib (\<lambda>_. []) demo_started))) =
   newest True (''t'', 0) (calls (stop True demo_lib (poll_body demo_lib (\<lambda>_. []) demo_started)))"
  using stop_commits_newest [OF surjective_pairing surjective_pairing surjective_pairing
      demo_session [unfolded demo_started_def] proper_demo_lib]
    demo_started_mode [unfolded demo_started_def] by (simp add: demo_started_def)

end
