(* ===== verification/At_Least_Once.thy ===== *)
theory At_Least_Once
  imports Handover
begin

text \<open>
  At least once across crashes, for any client that takes messages from a broker and hands them to its
  user. Processes consume one after the other; each may be killed at any call, and leaves the log of the
  calls it made. The next one begins where a commit or an acknowledgement of the one before left the
  partition.

  The locale \<open>delivering_client\<close> is the interface: what a call brings (\<open>arrive\<close>), which text it hands to
  the user (\<open>hand\<close>), which place in which partition it settles (\<open>settles\<close>), and which logs a process
  can leave. Its laws are the account of Handover, at the moment of death, and that only what arrived is
  settled. What is used of the broker is in \<open>in_sequence\<close> and \<open>resumes_at\<close>.
\<close>

section \<open>The broker\<close>

lemma map_filter_append [simp]:
  "List.map_filter f (xs @ ys) = List.map_filter f xs @ List.map_filter f ys"
  by (simp add: List.map_filter_def)

lemma set_map_filter: "y \<in> set (List.map_filter f xs) \<longleftrightarrow> (\<exists>x \<in> set xs. f x = Some y)"
  by (induction xs) (auto simp: List.map_filter_def)

text \<open>The messages that the user has been given: as many of those that arrived as texts were handed over.\<close>

definition handed_items :: "('c \<Rightarrow> 'm option) \<Rightarrow> ('c \<Rightarrow> 't option) \<Rightarrow> 'c list \<Rightarrow> 'm list" where
  "handed_items arrive hand log = take (length (List.map_filter hand log)) (List.map_filter arrive log)"

text \<open>The messages of a partition arrive without gaps from the place where the process begins;
  \<open>stored\<close> are the places that hold a message, and any may arrive again.\<close>

definition in_sequence ::
  "('c \<Rightarrow> 'm option) \<Rightarrow> ('m \<Rightarrow> 'a \<times> int) \<Rightarrow> ('a \<Rightarrow> int set) \<Rightarrow> ('a \<Rightarrow> int) \<Rightarrow> 'c list \<Rightarrow> bool" where
  "in_sequence arrive place stored origin log \<longleftrightarrow>
     (\<forall>pre x suf m a off. log = pre @ x # suf \<and> arrive x = Some m \<and> place m = (a, off) \<longrightarrow>
        (\<forall>k \<in> stored a. origin a \<le> k \<and> k < off \<longrightarrow> (a, k) \<in> place ` set (List.map_filter arrive pre)))"

text \<open>The next process begins in each partition behind a place that this one settled, or where this one
  began: commits may be refused or lost.\<close>

definition resumes_at ::
  "('c \<Rightarrow> ('a \<times> int) option) \<Rightarrow> ('a \<Rightarrow> int) \<Rightarrow> 'c list \<Rightarrow> ('a \<Rightarrow> int) \<Rightarrow> bool" where
  "resumes_at settles origin log reached \<longleftrightarrow>
     (\<forall>a. reached a = origin a \<or> (\<exists>x \<in> set log. settles x = Some (a, reached a - 1)))"

inductive restarts ::
  "('c \<Rightarrow> 'm option) \<Rightarrow> ('m \<Rightarrow> 'a \<times> int) \<Rightarrow> ('c \<Rightarrow> ('a \<times> int) option) \<Rightarrow> ('c list \<Rightarrow> bool) \<Rightarrow>
     ('a \<Rightarrow> int set) \<Rightarrow> ('a \<Rightarrow> int) \<Rightarrow> 'c list list \<Rightarrow> ('a \<Rightarrow> int) \<Rightarrow> bool"
  for arrive place settles process stored origin where
  no_process: "restarts arrive place settles process stored origin [] origin"
| next_process: "restarts arrive place settles process stored origin logs start \<Longrightarrow> process log \<Longrightarrow>
    in_sequence arrive place stored start log \<Longrightarrow> resumes_at settles start log reached \<Longrightarrow>
    restarts arrive place settles process stored origin (logs @ [log]) reached"

lemma one_process:
  "process log \<Longrightarrow> in_sequence arrive place stored origin log \<Longrightarrow> resumes_at settles origin log reached \<Longrightarrow>
     restarts arrive place settles process stored origin [log] reached"
  by (metis append_Nil no_process next_process)

section \<open>The client\<close>

locale delivering_client =
  fixes arrive :: "'c \<Rightarrow> 'm option"
    and content :: "'m \<Rightarrow> 't"
    and hand :: "'c \<Rightarrow> 't option"
    and place :: "'m \<Rightarrow> 'a \<times> int"
    and settles :: "'c \<Rightarrow> ('a \<times> int) option"
    and process :: "'c list \<Rightarrow> bool"
  assumes account: "process log \<Longrightarrow>
      \<exists>b. in_hand (\<lambda>x. map_option content (arrive x)) hand (\<lambda>x. settles x \<noteq> None) b log"
    and own: "process (pre @ x # suf) \<Longrightarrow> settles x = Some p \<Longrightarrow>
      p \<in> place ` set (List.map_filter arrive pre)"
begin

lemma contents_of: "List.map_filter (\<lambda>x. map_option content (arrive x)) log = map content (List.map_filter arrive log)"
  by (induction log) (auto simp: List.map_filter_def)

lemma handed_contents:
  assumes "process log"
  shows "List.map_filter hand log = map content (handed_items arrive hand log)"
proof -
  obtain b where "map content (List.map_filter arrive log) = List.map_filter hand log @ b"
    using account [OF assms] by (auto simp: in_hand_def contents_of)
  then show ?thesis by (simp add: handed_items_def take_map [symmetric])
qed

text \<open>What had arrived when something was settled had been handed over.\<close>

lemma handed_before:
  assumes "process (pre @ x # suf)" and "settles x \<noteq> None" and "m \<in> set (List.map_filter arrive pre)"
  shows "m \<in> set (handed_items arrive hand (pre @ x # suf))"
proof -
  let ?log = "pre @ x # suf"
  from account [OF assms(1)] assms(2)
  have "map content (List.map_filter arrive pre) = List.map_filter hand pre"
    unfolding in_hand_def contents_of by blast
  then have "length (List.map_filter arrive pre) \<le> length (List.map_filter hand ?log)"
    by (metis length_map map_filter_append length_append le_add1)
  moreover have "List.map_filter arrive ?log = List.map_filter arrive pre @ List.map_filter arrive (x # suf)"
    by simp
  ultimately show ?thesis using assms(3) unfolding handed_items_def by (simp add: take_append)
qed

lemma passed_was_handed:
  assumes "process log" and "in_sequence arrive place stored start log"
    and "resumes_at settles start log reached"
    and "k \<in> stored a" and "start a \<le> k" and "k < reached a"
  shows "(a, k) \<in> place ` set (handed_items arrive hand log)"
proof -
  obtain x where x: "x \<in> set log" "settles x = Some (a, reached a - 1)"
    using assms(3,5,6) unfolding resumes_at_def by (metis not_less)
  from split_list [OF x(1)] obtain pre suf where log: "log = pre @ x # suf" by blast
  from own [OF assms(1) [unfolded log] x(2)] obtain m where
    m: "m \<in> set (List.map_filter arrive pre)" "place m = (a, reached a - 1)" by auto
  have "(a, k) \<in> place ` set (List.map_filter arrive pre)"
  proof (cases "k = reached a - 1")
    case True
    with m show ?thesis by (metis image_eqI)
  next
    case False
    from m(1) obtain y where y: "y \<in> set pre" "arrive y = Some m"
      by (auto simp: set_map_filter)
    from split_list [OF y(1)] obtain p1 p2 where pre: "pre = p1 @ y # p2" by blast
    have "(a, k) \<in> place ` set (List.map_filter arrive p1)"
      using assms(2) [unfolded in_sequence_def, rule_format, of p1 y "p2 @ x # suf" m a "reached a - 1" k]
        log pre y(2) m(2) assms(4-6) False by simp
    then show ?thesis unfolding pre by auto
  qed
  then obtain m' where m': "m' \<in> set (List.map_filter arrive pre)" "place m' = (a, k)" by auto
  have "m' \<in> set (handed_items arrive hand log)"
    unfolding log by (rule handed_before [OF assms(1) [unfolded log] _ m'(1)]) (simp add: x(2))
  with m'(2) show ?thesis by (metis image_eqI)
qed

text \<open>However often a process dies, every message between the place where the first began and the place
  where the next would begin was handed to the user of one of them, whole.\<close>

lemma nothing_lost:
  "restarts arrive place settles process stored origin logs reached \<Longrightarrow>
     (\<forall>a. \<forall>k \<in> stored a. origin a \<le> k \<and> k < reached a \<longrightarrow>
        (\<exists>log \<in> set logs. (a, k) \<in> place ` set (handed_items arrive hand log))) \<and>
     (\<forall>log \<in> set logs. List.map_filter hand log = map content (handed_items arrive hand log))"
proof (induction rule: restarts.induct)
  case (next_process logs start log reached)
  have "\<exists>l \<in> set (logs @ [log]). (a, k) \<in> place ` set (handed_items arrive hand l)"
    if "k \<in> stored a" "origin a \<le> k" "k < reached a" for a k
  proof (cases "k < start a")
    case True
    with conjunct1 [OF next_process.IH, rule_format, OF that(1)] that(2) show ?thesis by auto
  next
    case False
    with passed_was_handed [OF next_process.hyps(2-4) that(1) _ that(3)] show ?thesis by simp
  qed
  then show ?case using next_process.IH handed_contents [OF next_process.hyps(2)] by simp
qed simp

end

end
