(* ===== verification/Kafka_Crashes.thy ===== *)
theory Kafka_Crashes
  imports Kafka_Delivery Kafka_Offset_Refinement At_Least_Once
begin

text \<open>
  At least once across crashes, for Kafka (At_Least_Once). A process with a consumer of the callback build
  may be killed at any call: \<open>kafka_log\<close> describes what it leaves behind, a prefix of the log of a session
  that runs to the end of \<open>stop\<close>, where the user may do anything with the consumer that runs, but commits only
  messages that arrived. The interpretation needs two facts of every such log: the account of the texts,
  from Kafka_Delivery, and that what is committed is a message that arrived, the invariant \<open>known\<close>.
\<close>

section \<open>Arrivals and deliveries up to a moment\<close>

fun arriving_message :: "rk_call \<Rightarrow> rk_message option" where
  "arriving_message (PollReturned (Some m)) = (if m_err m = 0 then Some m else None)"
| "arriving_message _ = None"

definition arrived_messages :: "rk_call list \<Rightarrow> rk_message list" where
  "arrived_messages = List.map_filter arriving_message"

lemma arrived_messages_append [simp]:
  "arrived_messages (xs @ ys) = arrived_messages xs @ arrived_messages ys"
  by (simp add: arrived_messages_def)

lemma arriving_eq: "arriving = (\<lambda>x. map_option message_text_of (arriving_message x))"
proof
  fix x
  show "arriving x = map_option message_text_of (arriving_message x)"
    by (cases x rule: arriving_message.cases) simp_all
qed

lemma arrived_message_iff: "m \<in> set (arrived_messages log) \<longleftrightarrow> PollReturned (Some m) \<in> set log \<and> m_err m = 0"
proof -
  have "arriving_message x = Some m \<longleftrightarrow> x = PollReturned (Some m) \<and> m_err m = 0" for x
    by (cases x rule: arriving_message.cases) auto
  then show ?thesis
    by (induction log) (auto simp: arrived_messages_def List.map_filter_def)
qed

section \<open>What is committed\<close>

text \<open>The user knows a message from the callback: what it commits arrived. It may commit a message again
  and again, in the callback or between iterations, and pause and resume what it likes.\<close>

definition commits_arrived :: "(consumer \<Rightarrow> rk_message list) \<Rightarrow> bool" where
  "commits_arrived user \<longleftrightarrow> (\<forall>c. set (user c) \<subseteq> set (arrived_messages (calls c)))"

inductive operating :: "rk_lib \<Rightarrow> consumer \<Rightarrow> consumer \<Rightarrow> bool" for lib where
  operating_start: "operating lib c c"
| operating_poll: "operating lib c c1 \<Longrightarrow> start_flag c1 \<Longrightarrow> commits_arrived user \<Longrightarrow>
    operating lib c (poll_body lib user c1)"
| operating_commit: "operating lib c c1 \<Longrightarrow> m \<in> set (arrived_messages (calls c1)) \<Longrightarrow>
    operating lib c (commitOffset (Some m) c1)"
| operating_pause: "operating lib c c1 \<Longrightarrow> operating lib c (snd (pause lib topics c1))"
| operating_resume: "operating lib c c1 \<Longrightarrow> operating lib c (snd (resume lib topics c1))"

context message_account
begin

lemma good_operating: "operating lib c c' \<Longrightarrow> good none (calls c) \<Longrightarrow> good none (calls c')"
  by (induction rule: operating.induct)
     (simp_all add: good_poll_body good_commitOffset pause_def resume_def Let_def account_plain)

lemma good_stop:
  assumes "start_flag c" and "good none (calls c)"
  shows "good none (calls (stop True lib c))"
  using assms
  by (simp add: stop_split good_stop_after_join poll_thread_exit_def clear_partitions_def
      reset_start_flag_def good_flush)

end

text \<open>Each message that is committed is one that a poll returned before, without an error.\<close>

definition commits_own :: "rk_call list \<Rightarrow> bool" where
  "commits_own log \<longleftrightarrow> (\<forall>pre m suf. log = pre @ CommitMessage m # suf \<longrightarrow> m \<in> set (arrived_messages pre))"

lemma commits_own_Nil [simp]: "commits_own []"
  by (simp add: commits_own_def)

lemma commits_own_snoc:
  "commits_own (log @ [x]) \<longleftrightarrow>
     commits_own log \<and> (\<forall>m. x = CommitMessage m \<longrightarrow> m \<in> set (arrived_messages log))"
  unfolding commits_own_def split_snoc by auto

lemma commits_own_prefix: "commits_own log \<Longrightarrow> prefix p log \<Longrightarrow> commits_own p"
  by (auto simp: commits_own_def prefix_def)

text \<open>This is an invariant, with the same of the messages that wait for their commit.\<close>

definition known :: "consumer \<Rightarrow> bool" where
  "known c \<longleftrightarrow> commits_own (calls c) \<and>
     snd ` set (wait_commit_msgs c) \<subseteq> set (arrived_messages (calls c))"

lemma known_emit [simp]: "known c \<Longrightarrow> \<not> is_commit x \<Longrightarrow> known (emit x c)"
  by (cases x) (auto simp: known_def commits_own_snoc)

lemma known_commit:
  "known c \<Longrightarrow> m \<in> set (arrived_messages (calls c)) \<Longrightarrow> known (emit (CommitMessage m) c)"
  by (auto simp: known_def commits_own_snoc)

lemma known_updates [simp]:
  "known (c\<lparr>last_commit_ms := t\<rparr>) = known c" "known (c\<lparr>has_assigned := b\<rparr>) = known c"
  "known (c\<lparr>topic_partition_set := s\<rparr>) = known c" "known (c\<lparr>start_flag := b\<rparr>) = known c"
  "known (c\<lparr>rd_kafka_handle := b\<rparr>) = known c"
  by (auto simp: known_def)

lemma known_clear: "known c \<Longrightarrow> known (c\<lparr>wait_commit_msgs := []\<rparr>)"
  by (simp add: known_def)

lemma known_flush:
  assumes "known c"
  shows "known (manualCommitWaitOffset lib face c)"
proof -
  let ?step = "\<lambda>c (k, m). emit (MessageDestroy (m_ptr m)) (manualCommitOffset m c)"
  have loop: "known (foldl ?step d xs)"
    if "known d" "snd ` set xs \<subseteq> set (arrived_messages (calls d))" for d and xs :: "(string \<times> rk_message) list"
    using that
  proof (induction xs arbitrary: d)
    case (Cons x xs)
    have "known (?step d x)" using Cons.prems by (auto simp: manualCommitOffset_def known_commit split: prod.split)
    moreover have "snd ` set xs \<subseteq> set (arrived_messages (calls (?step d x)))"
      using Cons.prems(2) by (auto simp: manualCommitOffset_def split: prod.split)
    ultimately show ?case using Cons.IH [of "?step d x"] by simp
  qed simp
  let ?d = "emit GetTimeOfDay c"
  have d: "known ?d" using assms by simp
  have "snd ` set (wait_commit_msgs ?d) \<subseteq> set (arrived_messages (calls ?d))"
    using d unfolding known_def by blast
  from known_clear [OF loop [OF d this]] d show ?thesis
    by (simp add: manualCommitWaitOffset_def getCurrentTimeMs_eq Let_def)
qed

lemma known_rebalances:
  "known c \<Longrightarrow> known (foldl (\<lambda>c ev. rdkafka_rebalance_cb lib ev c) c evs)"
  by (rule foldl_invariant [where I = known])
     (auto simp: rdkafka_rebalance_cb_def Let_def known_flush split: rebalance.split)

lemma known_poll:
  assumes "known c" and "consumer_poll lib c = (mo, c')"
  shows "known c'" "\<And>m. mo = Some m \<Longrightarrow> checkMsg m \<Longrightarrow> m \<in> set (arrived_messages (calls c'))"
  using assms
  by (auto simp: consumer_poll_def Let_def known_rebalances arrived_message_iff checkMsg_def
      split: prod.splits)

lemma known_store:
  assumes "known c" and "m \<in> set (arrived_messages (calls c))"
  shows "known (addWaitCommitOffset m c)"
proof -
  let ?c = "emit (MessageRead (m_ptr m)) c"
  have "known (c'\<lparr>wait_commit_msgs := smap_assign k m (wait_commit_msgs c')\<rparr>)"
    if "known c'" "m \<in> set (arrived_messages (calls c'))" for c' k
    using that by (force simp: known_def dest!: smap_assign_set)
  moreover have "known ?c" "known (emit (MessageDestroy p) ?c)" for p using assms(1) by simp_all
  moreover have "m \<in> set (arrived_messages (calls ?c))"
    "m \<in> set (arrived_messages (calls (emit (MessageDestroy p) ?c)))" for p using assms(2) by simp_all
  ultimately show ?thesis
    by (simp add: addWaitCommitOffset_def Let_def del: calls_emit split: option.split)
qed

lemma known_uncommitted [simp]: "known (c\<lparr>wait_destroy_msgs_for_uncommit := x\<rparr>) = known c"
  by (simp add: known_def)

lemma known_destroy_all: "known c \<Longrightarrow> known (destroy_all ms c)"
  unfolding destroy_all_def by (rule foldl_invariant [where I = known]) simp_all

lemma known_destroy_tables:
  "known c \<Longrightarrow> known (addWaitDestroyMsgs m c)" "known c \<Longrightarrow> known (removeWaitDestroyMsgs m c)"
  by (simp_all add: addWaitDestroyMsgs_def removeWaitDestroyMsgs_def Let_def known_destroy_all
      split: option.split list.split)

lemma arrived_commitOffset:
  "m \<in> set (arrived_messages (calls c)) \<Longrightarrow> m \<in> set (arrived_messages (calls (commitOffset mo c)))"
  by (simp add: commitOffset_def addWaitCommitOffset_def removeWaitDestroyMsgs_def Let_def
      split: option.split list.split)

lemma known_commitOffset:
  "known c \<Longrightarrow> m \<in> set (arrived_messages (calls c)) \<Longrightarrow> known (commitOffset (Some m) c)"
  by (simp add: commitOffset_def known_destroy_tables known_store)

lemma known_commits:
  "known c \<Longrightarrow> set ms \<subseteq> set (arrived_messages (calls c)) \<Longrightarrow> known (run_commits ms c)"
proof (induction ms arbitrary: c)
  case (Cons m ms)
  let ?c = "commitOffset (Some m) c"
  have "set ms \<subseteq> set (arrived_messages (calls ?c))"
    using Cons.prems(2) arrived_commitOffset by auto
  with Cons.IH [of ?c] Cons.prems show ?case
    by (simp add: run_commits_def known_commitOffset)
qed (simp add: run_commits_def)

lemma known_received:
  "known c \<Longrightarrow> commits_arrived user \<Longrightarrow> known (receivedConsumeMsg user m c)"
  by (simp add: receivedConsumeMsg_def Let_def known_commits commits_arrived_def)

lemma known_poll_body:
  assumes "known c" and "commits_arrived user"
  shows "known (poll_body lib user c)"
proof -
  obtain mo c1 where p: "consumer_poll lib c = (mo, c1)" by force
  note k = known_poll [OF assms(1) p]
  note r = known_received [OF _ assms(2)]
  have flush: "known (if b then manualCommitWaitOffset lib False d else d)" if "known d" for b d
    using that known_flush by simp
  show ?thesis
  proof (cases mo)
    case None
    with k(1) p show ?thesis by (simp add: poll_body_def known_flush)
  next
    case (Some m)
    have "known (if \<not> is_user_manual_commit_offset c1 then addWaitCommitOffset m c1
        else addWaitDestroyMsgs m c1)" if "checkMsg m"
      using known_store [OF k(1) k(2) [OF Some that]] known_destroy_tables(1) [OF k(1)] by simp
    with Some k(1) p show ?thesis by (simp add: poll_body_def Let_def r known_flush)
  qed
qed

lemma known_operating: "operating lib c c' \<Longrightarrow> known c \<Longrightarrow> known c'"
  by (induction rule: operating.induct)
     (simp_all add: known_poll_body known_commitOffset pause_def resume_def Let_def)

lemma known_uncommitted_clear: "known c \<Longrightarrow> known (clearWaitDestroyMsgs c)"
  unfolding clearWaitDestroyMsgs_def
  by (rule foldl_invariant [where I = known]) (auto simp: known_destroy_all split: prod.split)

lemma known_stop:
  assumes "known c"
  shows "known (stop True lib c)"
proof -
  have cond: "known (if b then x else y)" if "known x" "known y" for b and x y :: consumer using that by simp
  have thread: "known (stop_thread True lib d)" if "known d" for d
    unfolding stop_thread_def poll_thread_exit_def Let_def
    by (intro cond known_flush known_uncommitted_clear) (simp_all add: that known_flush)
  have close: "known (close_consumer lib d)" if "known d" for d
    using that by (auto simp: close_consumer_def Let_def known_rebalances split: prod.split)
  have wait: "known (wait_destroyed_loop k lib d)" if "known d" for k d
    using that by (induction k arbitrary: d) (simp_all add: Let_def)
  show ?thesis
    unfolding stop_def Let_def known_updates
    by (intro wait cond) (simp_all add: assms thread close)
qed

lemma known_start:
  assumes "consumer_init pt lib lp cp (consumer_new cl lg) = (ok1, c1)"
    and "subscribe lib grp ts c1 = (ok2, c2)" and "start cb lib c2 = (ok3, c3)"
  shows "known c3"
proof -
  have s: "wait_commit_msgs c3 = []" "filter message_call (calls c3) = []"
    using msg_state_start [OF assms(1-3)] by (simp_all add: msg_state_def)
  then have "CommitMessage m \<notin> set (calls c3)" for m
    by (force simp: filter_empty_conv message_call_def)
  then have "commits_own (calls c3)" by (force simp: commits_own_def)
  with s show ?thesis by (simp add: known_def)
qed

section \<open>Processes\<close>

text \<open>What is left of a process: a prefix of the log of a session that ends with \<open>stop\<close>.\<close>

inductive kafka_log :: "'t ptree_lib \<Rightarrow> rk_call list \<Rightarrow> bool" for pt where
  killed: "consumer_init pt lib lp cp (consumer_new cl lg) = (ok1, c1) \<Longrightarrow>
    subscribe lib grp ts c1 = (ok2, c2) \<Longrightarrow> start True lib c2 = (ok3, c3) \<Longrightarrow>
    operating lib c3 c4 \<Longrightarrow> start_flag c4 \<Longrightarrow> prefix log (calls (stop True lib c4)) \<Longrightarrow> kafka_log pt log"

lemma kafka_log_account:
  assumes "kafka_log pt log"
  shows "(\<exists>b. in_hand arriving handing is_commit b log) \<and> commits_own log"
  using assms
proof (cases rule: kafka_log.cases)
  case (killed lib lp cp cl lg ok1 c1 grp ts ok2 c2 ok3 c3 c4)
  note all = texts_in_hand.good_stop [OF killed(5)
      texts_in_hand.good_operating [OF killed(4) texts_in_hand.good_start [OF killed(1-3)]], of lib]
  have "commits_own (calls (stop True lib c4))"
    using known_stop [OF known_operating [OF killed(4) known_start [OF killed(1-3)]], of lib]
    by (simp add: known_def)
  with in_hand_prefix [OF all killed(6)] commits_own_prefix killed(6) show ?thesis by blast
qed

text \<open>\<open>rd_kafka_commit_message\<close> commits the place behind the message.\<close>

definition place_of :: "rk_message \<Rightarrow> topic_partition \<times> int" where
  "place_of m = (tp_of m, m_offset m)"

fun committed_place :: "rk_call \<Rightarrow> (topic_partition \<times> int) option" where
  "committed_place (CommitMessage m) = Some (place_of m)"
| "committed_place _ = None"

lemma committed_place_iff: "(committed_place x \<noteq> None) = is_commit x"
  by (cases x) simp_all

lemma committed_place_SomeD: "committed_place x = Some p \<Longrightarrow> \<exists>m. x = CommitMessage m \<and> p = place_of m"
  by (cases x) auto

interpretation kafka: delivering_client arriving_message message_text_of handing place_of committed_place
  "kafka_log pt" for pt :: "'t ptree_lib"
proof unfold_locales
  fix log pre suf :: "rk_call list" and x p
  show "kafka_log pt log \<Longrightarrow> \<exists>b. in_hand (\<lambda>x. map_option message_text_of (arriving_message x)) handing
      (\<lambda>x. committed_place x \<noteq> None) b log"
    using kafka_log_account unfolding arriving_eq [symmetric] committed_place_iff by blast
  assume l: "kafka_log pt (pre @ x # suf)" "committed_place x = Some p"
  from committed_place_SomeD [OF l(2)] obtain m where "x = CommitMessage m" "p = place_of m" by blast
  with kafka_log_account [OF l(1)] show "p \<in> place_of ` set (List.map_filter arriving_message pre)"
    by (auto simp: commits_own_def arrived_messages_def)
qed

text \<open>C1: With Kafka no message is lost, however often the process dies, as long as offsets move only by
  the commits that the client requests; those that librdkafka makes by itself, in the mode in which it
  commits automatically, are not covered. Let any number of processes consume one after the other in the
  callback build, each killed at any call or ended by \<open>stop\<close>, each beginning behind a message whose commit
  (\<open>rd_kafka_commit_message\<close>) the one before requested, or at the same place. Let the broker deliver the
  messages of a partition without gaps from there, and let the user, which may pause, resume and commit
  between iterations and commit in the callback, commit only messages that arrived. Then every message of
  a partition between the place where the first began and the place where the next would begin has been
  handed to the callback of one of them; and what each callback was given is, in order, what those
  messages say.\<close>

theorem kafka_crashes_lose_nothing:
  assumes "restarts arriving_message place_of committed_place (kafka_log pt) stored origin logs reached"
  shows "(\<forall>a. \<forall>k \<in> stored a. origin a \<le> k \<and> k < reached a \<longrightarrow>
       (\<exists>log \<in> set logs. (a, k) \<in> place_of ` set (handed_items arriving_message handing log))) \<and>
     (\<forall>log \<in> set logs. handed_texts log = map message_text_of (handed_items arriving_message handing log))"
  unfolding handed_texts_def by (rule kafka.nothing_lost [OF assms])

section \<open>Witness\<close>

definition demo_once :: consumer where
  "demo_once = poll_body demo_lib (\<lambda>_. []) demo_started"

text \<open>The messages that came and the commits, made and still to be made.\<close>

definition due :: "consumer \<Rightarrow> rk_call list" where
  "due c = filter message_call (calls c) @ map (\<lambda>x. CommitMessage (snd x)) (wait_commit_msgs c)"

lemma due_emit [simp]: "\<not> message_call x \<Longrightarrow> due (emit x c) = due c"
  by (simp add: due_def)

lemma due_flush: "due (manualCommitWaitOffset lib face c) = due c"
proof -
  have "filter message_call (concat (map (\<lambda>(k, m). [CommitMessage m, MessageDestroy (m_ptr m)]) xs)) =
      map (\<lambda>x. CommitMessage (snd x)) xs" for xs :: "(string \<times> rk_message) list"
    by (induction xs) auto
  then show ?thesis
    by (simp add: due_def manualCommitWaitOffset_def getCurrentTimeMs_eq Let_def calls_commit_loop)
qed

lemma due_stop:
  assumes "start_flag c" and "\<not> is_auto_commit_offset c" and "\<not> is_user_manual_commit_offset c"
  shows "filter message_call (calls (stop True demo_lib c)) = due c"
proof -
  have wait: "due (wait_destroyed_loop k lib d) = due d" for k lib d
    by (induction k arbitrary: d) (simp_all add: Let_def)
  have empty: "wait_commit_msgs (wait_destroyed_loop k lib d) = wait_commit_msgs d" for k lib d
    by (induction k arbitrary: d) (simp_all add: Let_def)
  have upd: "due (d\<lparr>start_flag := b\<rparr>) = due d" "due (d\<lparr>rd_kafka_handle := b\<rparr>) = due d"
    "due (d\<lparr>topic_partition_set := x\<rparr>) = due d" for d b x by (simp_all add: due_def)
  have "wait_commit_msgs (stop True demo_lib c) = []"
    using assms by (simp add: stop_def stop_thread_def poll_thread_exit_def close_consumer_def demo_lib_def
        quiet_lib_def Let_def empty manualCommitWaitOffset_empty frame_simps)
  moreover have "due (stop True demo_lib c) = due c"
    using assms by (simp add: stop_def stop_thread_def poll_thread_exit_def close_consumer_def demo_lib_def
        quiet_lib_def Let_def wait due_flush upd frame_simps)
  ultimately show ?thesis by (simp add: due_def)
qed

text \<open>One poll and \<open>stop\<close>: a message arrives and is committed.\<close>

lemma demo_once_calls:
  "\<exists>p. filter message_call (calls (stop True demo_lib demo_once)) =
     [PollReturned (Some (demo_msg p ''t'' 0 0)), CommitMessage (demo_msg p ''t'' 0 0)]"
proof -
  have "msg_state demo_started = (Some {#}, [], [], [])"
    unfolding demo_started_def
    by (rule msg_state_start [OF surjective_pairing surjective_pairing surjective_pairing])
  then have s: "wait_commit_msgs demo_started = []" "filter message_call (calls demo_started) = []"
    by (simp_all add: msg_state_def)
  let ?T = "long_to_int (consumer_poll_time demo_started)"
  let ?m = "demo_msg (length (calls demo_started)) ''t'' 0 0"
  let ?c1 = "emit (PollReturned (Some ?m)) (emit (ConsumerPoll ?T) demo_started)"
  have p: "consumer_poll demo_lib demo_started = (Some ?m, ?c1)"
    by (simp add: consumer_poll_def demo_lib_def Let_def)
  have c: "demo_once = manualCommitWaitOffset demo_lib False (emit (DeliveryMsg (m_ptr ?m) (topic_of ?m)
      (payload_of ?m) (length (payload_of ?m))) (addWaitCommitOffset ?m ?c1))"
    using p demo_started_mode
    by (simp add: demo_once_def poll_body_def checkMsg_def demo_msg_def receivedConsumeMsg_def Let_def)
  have "due demo_once = [PollReturned (Some ?m), CommitMessage ?m]"
    using s unfolding c due_flush by (simp add: due_def addWaitCommitOffset_def Let_def)
  moreover have "start_flag demo_once" "\<not> is_auto_commit_offset demo_once"
    "\<not> is_user_manual_commit_offset demo_once"
    using demo_started_mode demo_started_flag by (simp_all add: c frame_simps)
  ultimately show ?thesis using due_stop [of demo_once] by auto
qed

lemma demo_operating: "operating demo_lib demo_started (poll_body demo_lib (\<lambda>_. []) demo_started)"
  by (rule operating_poll [OF operating_start]) (simp_all add: commits_arrived_def demo_started_flag)

theorem kafka_crashes_lose_nothing_witness:
  "\<exists>log. restarts arriving_message place_of committed_place (kafka_log demo_pt)
       (\<lambda>a. if a = (''t'', 0) then {0} else {}) (\<lambda>_. 0) [log] ((\<lambda>_. 0)((''t'', 0) := 1)) \<and>
     ((''t'', 0), 0) \<in> place_of ` set (handed_items arriving_message handing log)"
proof -
  let ?stored = "\<lambda>a. if a = (''t'', 0) then {0 :: int} else {}" and ?to = "(\<lambda>_. 0)((''t'', 0) := 1)"
  let ?log = "calls (stop True demo_lib demo_once)"
  obtain p where f: "filter message_call ?log =
      [PollReturned (Some (demo_msg p ''t'' 0 0)), CommitMessage (demo_msg p ''t'' 0 0)]"
    using demo_once_calls by blast
  have k: "kafka_log demo_pt ?log"
    by (rule killed [OF surjective_pairing surjective_pairing surjective_pairing
          demo_operating [unfolded demo_started_def]])
       (use demo_started_mode demo_started_flag in
         \<open>simp_all add: demo_once_def demo_started_def frame_simps\<close>)
  have o: "m_offset m = 0" if "PollReturned (Some m) \<in> set ?log" for m
  proof -
    from that have "PollReturned (Some m) \<in> set (filter message_call ?log)" by simp
    then show ?thesis unfolding f by (simp add: demo_msg_def)
  qed
  have i: "in_sequence arriving_message place_of ?stored (\<lambda>_. 0) ?log"
    unfolding in_sequence_def
  proof (intro allI impI ballI, elim conjE)
    fix pre x suf m a off and k :: int
    assume l: "?log = pre @ x # suf" "arriving_message x = Some m" "place_of m = (a, off)" "k < off"
      and s: "0 \<le> k"
    from l(2) have "x = PollReturned (Some m)" by (cases x rule: arriving_message.cases) (auto split: if_splits)
    with o [of m] l(1) have "m_offset m = 0" by simp
    with l(3,4) s show "(a, k) \<in> place_of ` set (List.map_filter arriving_message pre)"
      by (simp add: place_of_def)
  qed
  have "CommitMessage (demo_msg p ''t'' 0 0) \<in> set (filter message_call ?log)" unfolding f by simp
  then have "CommitMessage (demo_msg p ''t'' 0 0) \<in> set ?log" by simp
  then have r: "resumes_at committed_place (\<lambda>_. 0) ?log ?to"
    unfolding resumes_at_def
    by (auto intro!: bexI [of _ "CommitMessage (demo_msg p ''t'' 0 0)"]
        simp: demo_msg_def place_of_def tp_of_def topic_of_def)
  have n: "restarts arriving_message place_of committed_place (kafka_log demo_pt) ?stored (\<lambda>_. 0) [?log] ?to"
    using k i r by (rule one_process)
  from conjunct1 [OF kafka_crashes_lose_nothing [OF n], rule_format, of "0" "(''t'', 0)"] n
  show ?thesis by auto
qed

end
