(* ===== verification/Kafka_Lifetime.thy ===== *)
theory Kafka_Lifetime
  imports Kafka_Poll_Thread
begin

text \<open>
  The end of a Kafka consumer object (kafka/qbus_consumer.cc). The destructor of \<open>QbusConsumer\<close> deletes
  the implementation, whatever it does; the destructor of the implementation is empty. The poll thread
  holds a bare pointer to it. \<open>thread_touches\<close> says at which of its points the thread reads or writes a
  member through that pointer: the test of \<open>start_flag_\<close>, and each statement of an iteration that names
  the handle, a mode, a table or the callback, but neither freeing a message nor checking one, which only
  concern the message. \<open>object_machine\<close> is the machine of Kafka_Poll_Thread with the memory of the
  implementation: after the delete the thread goes on where it does not touch it, and a touch is a fault,
  after which nothing is known.
\<close>

datatype memory = Held | Deleted

record object_machine =
  om_loop :: "(consumer, poll_pc) loop_machine"
  om_imp :: memory
  om_fault :: bool

definition object_new :: "consumer \<Rightarrow> object_machine" where
  "object_new c = \<lparr>om_loop = loop_start c, om_imp = Held, om_fault = False\<rparr>"

text \<open>A message that is checked without success goes straight to be freed; otherwise the mode is read.\<close>

fun thread_touches :: "poll_pc loop_pc \<Rightarrow> bool" where
  "thread_touches Testing = True"
| "thread_touches (Inside Polling) = True"
| "thread_touches (Inside (Checking m)) = checkMsg m"
| "thread_touches (Inside (Storing m)) = True"
| "thread_touches (Inside (Delivering m free)) = True"
| "thread_touches (Inside (Freeing m)) = False"
| "thread_touches (Inside Flushing) = True"
| "thread_touches (Inside IterationOver) = False"
| "thread_touches Ended = False"

definition poll_machine_step ::
  "rk_lib \<Rightarrow> (rk_call list \<Rightarrow> rk_message list) \<Rightarrow> (consumer, poll_pc) loop_machine \<Rightarrow>
     (consumer, poll_pc) loop_machine \<Rightarrow> bool" where
  "poll_machine_step lib user = loop_step start_flag Polling (poll_transit lib user) reset_start_flag
     clear_partitions (poll_thread_exit lib)"

text \<open>The destructor may be called when no call of \<open>stop\<close> is in progress. After it the user makes no more
  calls, so that only the thread moves.\<close>

inductive object_step ::
  "rk_lib \<Rightarrow> (rk_call list \<Rightarrow> rk_message list) \<Rightarrow> object_machine \<Rightarrow> object_machine \<Rightarrow> bool"
  for lib user where
  works: "om_imp m = Held \<Longrightarrow> poll_machine_step lib user (om_loop m) l \<Longrightarrow>
    object_step lib user m (m\<lparr>om_loop := l\<rparr>)"
| destroys: "om_imp m = Held \<Longrightarrow> lm_control (om_loop m) \<in> {Running, Joined} \<Longrightarrow>
    object_step lib user m (m\<lparr>om_imp := Deleted\<rparr>)"
| works_on: "om_imp m = Deleted \<Longrightarrow> \<not> om_fault m \<Longrightarrow> \<not> thread_touches (lm_thread (om_loop m)) \<Longrightarrow>
    poll_machine_step lib user (om_loop m) l \<Longrightarrow> lm_control l = lm_control (om_loop m) \<Longrightarrow>
    object_step lib user m (m\<lparr>om_loop := l\<rparr>)"
| misuses: "om_imp m = Deleted \<Longrightarrow> \<not> om_fault m \<Longrightarrow> thread_touches (lm_thread (om_loop m)) \<Longrightarrow>
    object_step lib user m (m\<lparr>om_fault := True\<rparr>)"

inductive_cases object_stepE: "object_step lib user m m'"

lemma held_run:
  "(object_step lib user)\<^sup>*\<^sup>* (object_new c) m \<Longrightarrow> om_imp m = Held \<Longrightarrow>
     \<not> om_fault m \<and> (\<exists>k. kafka_machine lib user (loop_start c) k (om_loop m))"
proof (induction rule: rtranclp_induct)
  case base
  then show ?case by (auto simp: object_new_def kafka_machine_def intro: no_step)
next
  case (step m m')
  from step.hyps(2) step.prems step.IH show ?case
    by (auto elim!: object_stepE simp: kafka_machine_def poll_machine_step_def) (blast intro: one_more)
qed

lemma held_thread:
  assumes "start_flag c" and "kafka_machine lib user (loop_start c) k m"
  shows "lm_control m = Running \<Longrightarrow> lm_thread m \<noteq> Ended" "lm_control m = Joined \<Longrightarrow> lm_thread m = Ended"
  using kafka_loop.serial_run [OF assms(2) [unfolded kafka_machine_def] kafka_loop.serial_start [OF assms(1)]]
  by (auto simp: kafka_loop.serial_def split: if_splits)

text \<open>How many steps the thread can make at most before it touches the implementation.\<close>

fun untouched_rank :: "poll_pc loop_pc \<Rightarrow> nat" where
  "untouched_rank (Inside (Checking m)) = (if checkMsg m then 0 else 2)"
| "untouched_rank (Inside (Freeing m)) = 1"
| "untouched_rank (Inside IterationOver) = 1"
| "untouched_rank _ = 0"

definition abandoned :: "object_machine \<Rightarrow> bool" where
  "abandoned m \<longleftrightarrow> om_imp m = Deleted \<and> \<not> om_fault m \<and> lm_thread (om_loop m) \<noteq> Ended"

lemma thread_control:
  assumes "poll_machine_step lib user m l" and "lm_control l = lm_control m"
  shows "lm_thread m \<noteq> Ended"
  using assms unfolding poll_machine_step_def by (auto elim!: loop_step.cases)

lemma untouched_step:
  assumes "poll_machine_step lib user m l" and "lm_control l = lm_control m"
    and "\<not> thread_touches (lm_thread m)"
  shows "untouched_rank (lm_thread l) < untouched_rank (lm_thread m)" "lm_thread l \<noteq> Ended"
  using assms unfolding poll_machine_step_def
  by (auto elim!: loop_step.cases simp: poll_transit_def split: poll_pc.splits prod.splits)

lemma abandoned_moves:
  assumes "abandoned m"
  shows "\<exists>f. object_step lib user m f"
proof (cases "thread_touches (lm_thread (om_loop m))")
  case True
  then show ?thesis using assms misuses unfolding abandoned_def by blast
next
  case False
  then obtain p where p: "lm_thread (om_loop m) = Inside p"
    using assms by (cases "lm_thread (om_loop m)") (auto simp: abandoned_def)
  have "\<exists>l. poll_machine_step lib user (om_loop m) l \<and> lm_control l = lm_control (om_loop m)"
  proof (cases "poll_transit lib user p (lm_state (om_loop m))")
    case None
    with p have "poll_machine_step lib user (om_loop m) ((om_loop m)\<lparr>lm_thread := Testing\<rparr>)"
      unfolding poll_machine_step_def by (rule end_iteration)
    then show ?thesis by (intro exI conjI, assumption) simp
  next
    case (Some x)
    obtain p' s' where "x = (p', s')" by force
    with Some have t: "poll_transit lib user p (lm_state (om_loop m)) = Some (p', s')" by simp
    from p t have "poll_machine_step lib user (om_loop m)
        ((om_loop m)\<lparr>lm_state := s', lm_thread := Inside p'\<rparr>)"
      unfolding poll_machine_step_def by (rule work)
    then show ?thesis by (intro exI conjI, assumption) simp
  qed
  with assms False works_on show ?thesis unfolding abandoned_def by blast
qed

lemma abandoned_step:
  assumes "abandoned m" and "object_step lib user m f"
  shows "om_fault f \<or>
     (abandoned f \<and> untouched_rank (lm_thread (om_loop f)) < untouched_rank (lm_thread (om_loop m)))"
  using assms(2,1) by (cases rule: object_step.cases) (auto simp: abandoned_def dest: untouched_step)

lemma fault_stops: "om_imp m = Deleted \<Longrightarrow> om_fault m \<Longrightarrow> \<not> object_step lib user m f"
  by (auto elim: object_stepE)

lemma abandoned_run:
  assumes "(object_step lib user ^^ k) m f" and "abandoned m"
  shows "k \<le> Suc (untouched_rank (lm_thread (om_loop m))) \<and> (om_fault f \<or> (\<exists>g. object_step lib user f g))"
  using assms
proof (induction k arbitrary: m)
  case 0
  then show ?case using abandoned_moves by auto
next
  case (Suc k)
  from Suc.prems(1) obtain m1 where s: "object_step lib user m m1" "(object_step lib user ^^ k) m1 f"
    by (meson relpowp_Suc_D2)
  have d: "om_imp m1 = Deleted" using s(1) Suc.prems(2) by (auto elim!: object_stepE simp: abandoned_def)
  from abandoned_step [OF Suc.prems(2) s(1)] show ?case
  proof
    assume o: "om_fault m1"
    have "k = 0"
    proof (cases k)
      case (Suc n)
      with s(2) fault_stops [OF d o] show ?thesis by (metis relpowp_Suc_D2)
    qed simp
    with o s(2) show ?thesis by simp
  next
    assume "abandoned m1 \<and> untouched_rank (lm_thread (om_loop m1)) < untouched_rank (lm_thread (om_loop m))"
    with Suc.IH [OF s(2)] show ?thesis by auto
  qed
qed

lemma untouched_rank_bound: "untouched_rank p \<le> 2"
  by (cases p rule: untouched_rank.cases) simp_all

text \<open>C27: The destructor of a Kafka consumer needs \<open>stop\<close> before it. While no call of \<open>stop\<close> is in progress the
  destructor may be entered, wherever the poll thread of a started consumer is. If \<open>stop\<close> was not
  called, the thread goes on, and under every schedule it reads or writes the deleted implementation: no
  run has more than three further steps, and none ends without that access. When \<open>stop\<close> has waited
  for the thread, the destructor ends it all: nothing happens afterwards and nothing is accessed.\<close>

theorem kafka_destructor_needs_stop:
  assumes "start_flag c" and "(object_step lib user)\<^sup>*\<^sup>* (object_new c) m" and "om_imp m = Held"
    and "lm_control (om_loop m) \<in> {Running, Joined}"
  shows "\<exists>d. object_step lib user m d \<and> om_imp d = Deleted \<and> \<not> om_fault d \<and>
     (if lm_control (om_loop m) = Running
      then \<forall>k f. (object_step lib user ^^ k) d f \<longrightarrow>
        k \<le> 3 \<and> (om_fault f \<or> (\<exists>g. object_step lib user f g))
      else (\<forall>f. \<not> object_step lib user d f))"
proof -
  let ?d = "m\<lparr>om_imp := Deleted\<rparr>"
  obtain k where k: "\<not> om_fault m" "kafka_machine lib user (loop_start c) k (om_loop m)"
    using held_run [OF assms(2,3)] by blast
  note t = held_thread [OF assms(1) k(2)]
  have s: "object_step lib user m ?d" using assms(3,4) by (rule destroys)
  show ?thesis
  proof (cases "lm_control (om_loop m) = Running")
    case True
    with t(1) k(1) have a: "abandoned ?d" by (simp add: abandoned_def)
    have "k \<le> 3 \<and> (om_fault f \<or> (\<exists>g. object_step lib user f g))" if "(object_step lib user ^^ k) ?d f" for k f
      using abandoned_run [OF that a] untouched_rank_bound [of "lm_thread (om_loop ?d)"] by auto
    with s True k(1) show ?thesis by (intro exI [of _ ?d]) auto
  next
    case False
    with assms(4) t(2) have e: "lm_control (om_loop m) = Joined" "lm_thread (om_loop m) = Ended" by auto
    have "\<not> object_step lib user ?d f" for f
    proof
      assume "object_step lib user ?d f"
      then show False
        using e thread_control by (cases rule: object_step.cases) fastforce+
    qed
    with s False k(1) show ?thesis by (intro exI [of _ ?d]) auto
  qed
qed

theorem kafka_destructor_needs_stop_witness:
  "\<exists>d f. object_step demo_lib (\<lambda>_. []) (object_new demo_started) d \<and> om_imp d = Deleted \<and>
     \<not> om_fault d \<and> object_step demo_lib (\<lambda>_. []) d f"
proof -
  let ?m = "object_new demo_started"
  have "om_imp ?m = Held" "lm_control (om_loop ?m) \<in> {Running, Joined}" "lm_control (om_loop ?m) = Running"
    by (simp_all add: object_new_def loop_start_def)
  with kafka_destructor_needs_stop [OF demo_started_flag rtranclp.rtrancl_refl, of demo_lib "\<lambda>_. []"]
  obtain d where d: "object_step demo_lib (\<lambda>_. []) ?m d" "om_imp d = Deleted" "\<not> om_fault d"
    and r: "\<forall>k f. (object_step demo_lib (\<lambda>_. []) ^^ k) d f \<longrightarrow>
      k \<le> 3 \<and> (om_fault f \<or> (\<exists>g. object_step demo_lib (\<lambda>_. []) f g))"
    by auto
  from r [rule_format, of 0 d] d show ?thesis by auto
qed

end
