(* ===== verification/Kafka_Producer_Accounts.thy ===== *)
theory Kafka_Producer_Accounts
  imports Kafka_Record_Msg
begin

text \<open>
  What becomes of the messages that an asynchronous Kafka producer accepts (kafka/qbus_producer.cc).
  \<open>sent\<close> reads from the call log what librdkafka took into its queue, by payload and key: the calls
  of \<open>rd_kafka_produce\<close> that it did not refuse, those of \<open>produce\<close> and those that the delivery report
  callback makes to send a failed message again. A report takes one such message out of the queue;
  \<open>honest\<close> says that reports are only served for messages that are in it. \<open>producing\<close> is a producer's
  life from some state on: calls of \<open>produce\<close> and \<open>uninit\<close> in any order, with the multiset of the
  messages for which \<open>produce\<close> returned true and the list of the reports served so far.

  \<open>accounted\<close> is the invariant: what was accepted is in the queue, was reported as delivered, or was
  recorded in the file of failed messages.
\<close>

section \<open>The queue of librdkafka\<close>

type_synonym posting = "string option \<times> string option"

fun sent_from :: "rk_lib \<Rightarrow> rk_call list \<Rightarrow> rk_call list \<Rightarrow> posting multiset" where
  "sent_from lib log [] = {#}"
| "sent_from lib log (x # xs) =
     (case x of
        Produce p k opaque \<Rightarrow> (if rk_produce lib log p k \<noteq> -1 then {#(p, k)#} else {#})
      | _ \<Rightarrow> {#}) + sent_from lib (log @ [x]) xs"

definition sent :: "rk_lib \<Rightarrow> rk_call list \<Rightarrow> posting multiset" where
  "sent lib log = sent_from lib [] log"

definition report_id :: "rk_message \<Rightarrow> posting" where
  "report_id m = (m_payload m, m_key m)"

definition in_queue :: "rk_lib \<Rightarrow> producer \<Rightarrow> rk_message list \<Rightarrow> posting multiset" where
  "in_queue lib c reports = sent lib (calls c) - mset (map report_id reports)"

definition delivered_ok :: "rk_message list \<Rightarrow> posting multiset" where
  "delivered_ok reports = mset (map report_id (filter (\<lambda>m. m_err m = 0) reports))"

definition recorded :: "rk_call list \<Rightarrow> string multiset" where
  "recorded log = mset (concat (map (\<lambda>x. case x of RecordMsg t p \<Rightarrow> [p] | _ \<Rightarrow> []) log))"

definition text_of :: "posting \<Rightarrow> string" where
  "text_of x = (case fst x of Some p \<Rightarrow> p | None \<Rightarrow> '''')"

fun honest :: "rk_lib \<Rightarrow> rk_message list \<Rightarrow> rk_message list \<Rightarrow> producer \<Rightarrow> bool" where
  "honest lib before [] c = True"
| "honest lib before (m # ms) c =
     (report_id m \<in># in_queue lib c before \<and>
      honest lib (before @ [m]) ms (msgDeliveredCallback True m c))"

section \<open>A producer's life\<close>

definition key_arg :: "string \<Rightarrow> string option" where
  "key_arg key = (if length key > 0 then Some key else None)"

text \<open>The state in which \<open>produce\<close> serves reports, and the reports, when the message was taken.\<close>

definition posted :: "rk_lib \<Rightarrow> string \<Rightarrow> string \<Rightarrow> producer \<Rightarrow> bool" where
  "posted lib data key c \<longleftrightarrow> is_init c \<and> producer_handle c \<and>
     rk_produce lib (calls c) (Some data) (key_arg key) \<noteq> -1"

definition after_posting :: "string \<Rightarrow> string \<Rightarrow> producer \<Rightarrow> producer" where
  "after_posting data key c = emit (Produce (Some data) (key_arg key) False)
     (c\<lparr>sync_send_err := RD_KAFKA_PRODUCE_ERROR_INIT_VALUE\<rparr>)"

definition produce_reports :: "rk_lib \<Rightarrow> string \<Rightarrow> string \<Rightarrow> producer \<Rightarrow> rk_message list" where
  "produce_reports lib data key c =
     (if posted lib data key c then rk_poll lib (calls (after_posting data key c)) 0 else [])"

definition closing :: "producer \<Rightarrow> producer" where
  "closing c =
     (let c = c\<lparr>is_init := False\<rparr>;
          c = (if producer_topic c then (emit TopicDestroy c)\<lparr>producer_topic := False\<rparr> else c)
      in if producer_handle c then emit (Flush (flush_timeout_ms c)) c else c)"

definition uninit_reports :: "rk_lib \<Rightarrow> producer \<Rightarrow> rk_message list" where
  "uninit_reports lib c =
     (if producer_handle c
      then fst (rk_flush lib (butlast (calls (closing c))) (flush_timeout_ms c)) else [])"

inductive producing ::
  "rk_lib \<Rightarrow> producer \<Rightarrow> producer \<Rightarrow> posting multiset \<Rightarrow> rk_message list \<Rightarrow> bool" for lib c0 where
  producing_start: "producing lib c0 c0 {#} []"
| producing_produce: "producing lib c0 c accepted reports \<Longrightarrow>
    producer_produce lib data key c = (rt, c') \<Longrightarrow>
    honest lib reports (produce_reports lib data key c) (emit (Poll 0) (after_posting data key c)) \<Longrightarrow>
    producing lib c0 c' ((if rt then {#(Some data, key_arg key)#} else {#}) + accepted)
      (reports @ produce_reports lib data key c)"
| producing_uninit: "producing lib c0 c accepted reports \<Longrightarrow>
    honest lib reports (uninit_reports lib c) (closing c) \<Longrightarrow>
    producing lib c0 (producer_uninit lib c) accepted (reports @ uninit_reports lib c)"

section \<open>What a call adds to the log\<close>

lemma sent_from_append: "sent_from lib log (xs @ ys) = sent_from lib log xs + sent_from lib (log @ xs) ys"
  by (induction xs arbitrary: log) simp_all

lemma sent_append: "sent lib (log @ xs) = sent lib log + sent_from lib log xs"
  by (simp add: sent_def sent_from_append)

lemma recorded_append [simp]: "recorded (log @ xs) = recorded log + recorded xs"
  by (simp add: recorded_def)

lemma produce_split:
  assumes "\<not> is_sync_send c"
  shows "producer_produce lib data key c =
     (if posted lib data key c
      then (True, serve_reports (produce_reports lib data key c) (emit (Poll 0) (after_posting data key c)))
      else (False, if is_init c
        then (if producer_handle c then after_posting data key c
              else c\<lparr>sync_send_err := RD_KAFKA_PRODUCE_ERROR_INIT_VALUE\<rparr>) else c))"
  using assms
  by (simp add: producer_produce_def internalProduce_def posted_def produce_reports_def
      after_posting_def key_arg_def producer_poll_def Let_def)

lemma uninit_split:
  "producer_uninit lib c =
     (if producer_handle c
      then (emit HandleDestroy (serve_reports (uninit_reports lib c) (closing c)))\<lparr>producer_handle := False\<rparr>
      else closing c)"
  by (simp add: producer_uninit_def closing_def uninit_reports_def Let_def split: prod.split)

section \<open>The invariant\<close>

definition never_refuses :: "rk_lib \<Rightarrow> bool" where
  "never_refuses lib \<longleftrightarrow> (\<forall>log p k. rk_produce lib log p k \<noteq> -1)"

definition accounted :: "rk_lib \<Rightarrow> producer \<Rightarrow> posting multiset \<Rightarrow> rk_message list \<Rightarrow> bool" where
  "accounted lib c accepted reports \<longleftrightarrow>
     \<not> is_sync_send c \<and> mset (map report_id reports) \<subseteq># sent lib (calls c) \<and>
     (is_record_msg_for_send_failed c \<longrightarrow> image_mset text_of accepted \<subseteq>#
        image_mset text_of (in_queue lib c reports + delivered_ok reports) + recorded (calls c)) \<and>
     (never_refuses lib \<and> is_init c \<and> producer_handle c \<longrightarrow>
        accepted \<subseteq># in_queue lib c reports + delivered_ok reports)"

text \<open>Calls that post nothing and record nothing.\<close>

lemma accounted_frame:
  assumes "accounted lib c accepted reports" and "calls c' = calls c @ xs"
    and "sent_from lib (calls c) xs = {#}" and "is_sync_send c' = is_sync_send c"
    and "is_record_msg_for_send_failed c' = is_record_msg_for_send_failed c"
    and "is_init c' \<and> producer_handle c' \<longrightarrow> is_init c \<and> producer_handle c"
  shows "accounted lib c' accepted reports"
proof -
  have s: "sent lib (calls c') = sent lib (calls c)" using assms(2,3) by (simp add: sent_append)
  have q: "in_queue lib c' reports = in_queue lib c reports" by (simp add: in_queue_def s)
  have "A \<subseteq># X + recorded (calls c')" if "A \<subseteq># X + recorded (calls c)" for A X
    using that by (simp add: assms(2) subset_mset.add_increasing2 flip: add.assoc)
  with assms(1,4-6) s q show ?thesis unfolding accounted_def by auto
qed

lemma sent_msgDelivered:
  assumes "\<not> is_sync_send c"
  shows "sent lib (calls (msgDeliveredCallback True m c)) = sent lib (calls c) +
     (if m_err m \<noteq> 0 \<and> is_init c \<and> producer_handle c \<and>
        rk_produce lib (calls c) (m_payload m) (m_key m) \<noteq> -1 then {#report_id m#} else {#})"
  using assms by (simp add: calls_msgDelivered sent_append report_calls_def report_id_def)

lemma recorded_msgDelivered:
  "recorded (calls (msgDeliveredCallback True m c)) = recorded (calls c) +
     (if m_err m \<noteq> 0 \<and> is_record_msg_for_send_failed c then {#text_of (report_id m)#} else {#})"
  by (simp add: calls_msgDelivered report_calls_def recorded_def text_of_def report_id_def)

lemma accounted_report:
  assumes "accounted lib c accepted reports" and "report_id m \<in># in_queue lib c reports"
  shows "accounted lib (msgDeliveredCallback True m c) accepted (reports @ [m])"
proof -
  let ?c = "msgDeliveredCallback True m c" and ?i = "report_id m"
  let ?Q = "in_queue lib c reports" and ?D = "delivered_ok reports"
  define E where "E = (if m_err m \<noteq> 0 \<and> is_init c \<and> producer_handle c \<and>
    rk_produce lib (calls c) (m_payload m) (m_key m) \<noteq> -1 then {#?i#} else {#})"
  have sync: "\<not> is_sync_send c" and sub: "mset (map report_id reports) \<subseteq># sent lib (calls c)"
    using assms(1) by (simp_all add: accounted_def)
  obtain Q where Q: "?Q = add_mset ?i Q" using assms(2) by (metis multi_member_split)
  have S: "sent lib (calls c) = mset (map report_id reports) + add_mset ?i Q"
    using sub Q by (metis in_queue_def subset_mset.add_diff_inverse)
  have S': "sent lib (calls ?c) = mset (map report_id reports) + add_mset ?i Q + E"
    using sent_msgDelivered [OF sync, of lib m] S by (simp add: E_def)
  have q: "in_queue lib ?c (reports @ [m]) = Q + E"
    by (simp add: in_queue_def S' add.assoc)
  have d: "delivered_ok (reports @ [m]) = ?D + (if m_err m = 0 then {#?i#} else {#})"
    by (simp add: delivered_ok_def)
  note r = recorded_msgDelivered [of m c]
  show ?thesis
    unfolding accounted_def q d
  proof (intro conjI impI)
    show "\<not> is_sync_send ?c" using sync by simp
    show "mset (map report_id (reports @ [m])) \<subseteq># sent lib (calls ?c)" by (simp add: S')
  next
    assume "is_record_msg_for_send_failed ?c"
    then have rec: "is_record_msg_for_send_failed c" by simp
    then have "image_mset text_of accepted \<subseteq># image_mset text_of (?Q + ?D) + recorded (calls c)"
      using assms(1) by (simp add: accounted_def)
    also have "\<dots> \<subseteq># image_mset text_of (Q + E + (?D + (if m_err m = 0 then {#?i#} else {#}))) +
        recorded (calls ?c)"
      unfolding Q r using rec by (auto simp: add.assoc add.commute intro: subset_mset.add_left_mono)
    finally show "image_mset text_of accepted \<subseteq># \<dots>" .
  next
    assume a: "never_refuses lib \<and> is_init ?c \<and> producer_handle ?c"
    then have "accepted \<subseteq># ?Q + ?D" using assms(1) by (simp add: accounted_def)
    moreover have "m_err m \<noteq> 0 \<Longrightarrow> E = {#?i#}" "m_err m = 0 \<Longrightarrow> E = {#}"
      using a by (simp_all add: E_def never_refuses_def)
    ultimately show "accepted \<subseteq># Q + E + (?D + (if m_err m = 0 then {#?i#} else {#}))"
      by (cases "m_err m = 0") (simp_all add: Q ac_simps)
  qed
qed

lemma accounted_reports:
  "accounted lib c accepted reports \<Longrightarrow> honest lib reports ms c \<Longrightarrow>
     accounted lib (serve_reports ms c) accepted (reports @ ms)"
proof (induction ms arbitrary: c reports)
  case (Cons m ms)
  then have "accounted lib (msgDeliveredCallback True m c) accepted (reports @ [m])"
    by (simp add: accounted_report)
  from Cons.IH [OF this] Cons.prems(2) show ?case by (simp add: serve_reports_def)
qed (simp add: serve_reports_def)

lemma after_posting_frame [simp]:
  "is_sync_send (after_posting data key c) = is_sync_send c"
  "is_record_msg_for_send_failed (after_posting data key c) = is_record_msg_for_send_failed c"
  "is_init (after_posting data key c) = is_init c"
  "producer_handle (after_posting data key c) = producer_handle c"
  by (simp_all add: after_posting_def)

lemma after_posting_calls:
  "calls (after_posting data key c) = calls c @ [Produce (Some data) (key_arg key) False]"
  by (simp add: after_posting_def)

text \<open>Taking a message adds it to both sides.\<close>

lemma accounted_posting:
  assumes "accounted lib c accepted reports" and "posted lib data key c"
  shows "accounted lib (after_posting data key c) ({#(Some data, key_arg key)#} + accepted) reports"
proof -
  let ?c = "after_posting data key c" and ?x = "(Some data, key_arg key)"
  have S: "sent lib (calls ?c) = add_mset ?x (sent lib (calls c))"
    using assms(2) by (simp add: after_posting_calls sent_append posted_def)
  have sub: "mset (map report_id reports) \<subseteq># sent lib (calls c)"
    using assms(1) by (simp add: accounted_def)
  then obtain X where X: "sent lib (calls c) = mset (map report_id reports) + X"
    by (metis subset_mset.add_diff_inverse)
  have q: "in_queue lib ?c reports = add_mset ?x (in_queue lib c reports)"
    by (simp add: in_queue_def S) (simp add: X)
  have "recorded (calls ?c) = recorded (calls c)" by (simp add: after_posting_calls recorded_def)
  moreover have "mset (map report_id reports) \<subseteq># sent lib (calls ?c)"
    by (simp add: S) (simp add: X)
  ultimately show ?thesis using assms(1) by (simp add: accounted_def q add.assoc)
qed

lemma accounted_produce:
  assumes "accounted lib c accepted reports" and "producer_produce lib data key c = (rt, c')"
    and "honest lib reports (produce_reports lib data key c) (emit (Poll 0) (after_posting data key c))"
  shows "accounted lib c' ((if rt then {#(Some data, key_arg key)#} else {#}) + accepted)
     (reports @ produce_reports lib data key c)"
proof -
  have "\<not> is_sync_send c" using assms(1) by (simp add: accounted_def)
  note split = produce_split [OF this, of lib data key]
  show ?thesis
  proof (cases "posted lib data key c")
    case True
    have "accounted lib (emit (Poll 0) (after_posting data key c))
        ({#(Some data, key_arg key)#} + accepted) reports"
      by (rule accounted_frame [OF accounted_posting [OF assms(1) True], where xs = "[Poll 0]"]) simp_all
    from accounted_reports [OF this assms(3)] show ?thesis
      using split True assms(2) by simp
  next
    case False
    have "accounted lib (c\<lparr>sync_send_err := e\<rparr>) accepted reports" for e
      by (rule accounted_frame [OF assms(1), where xs = "[]"]) simp_all
    moreover have "accounted lib (after_posting data key c) accepted reports"
      if "is_init c" "producer_handle c"
      using False that
      by (intro accounted_frame [OF assms(1) after_posting_calls]) (simp_all add: posted_def)
    ultimately show ?thesis
      using split False assms(1,2) by (auto simp: produce_reports_def split: if_splits)
  qed
qed

lemma accounted_uninit:
  assumes "accounted lib c accepted reports" and "honest lib reports (uninit_reports lib c) (closing c)"
  shows "accounted lib (producer_uninit lib c) accepted (reports @ uninit_reports lib c)"
proof -
  have "\<exists>xs. calls (closing c) = calls c @ xs \<and> sent_from lib (calls c) xs = {#}"
    by (simp add: closing_def Let_def)
  moreover have "\<not> is_init (closing c)" "is_sync_send (closing c) = is_sync_send c"
    "is_record_msg_for_send_failed (closing c) = is_record_msg_for_send_failed c"
    by (simp_all add: closing_def Let_def)
  ultimately have c: "accounted lib (closing c) accepted reports"
    by (metis accounted_frame [OF assms(1)])
  show ?thesis
  proof (cases "producer_handle c")
    case True
    have "accounted lib ((emit HandleDestroy d)\<lparr>producer_handle := False\<rparr>) accepted rs"
      if "accounted lib d accepted rs" for d rs
      by (rule accounted_frame [OF that, where xs = "[HandleDestroy]"]) simp_all
    with accounted_reports [OF c assms(2)] True show ?thesis by (simp add: uninit_split)
  next
    case False
    with c show ?thesis by (simp add: uninit_split uninit_reports_def)
  qed
qed

lemma accounted_producing:
  "producing lib c0 c accepted reports \<Longrightarrow> \<not> is_sync_send c0 \<Longrightarrow> accounted lib c accepted reports"
proof (induction rule: producing.induct)
  case producing_start
  then show ?case by (simp add: accounted_def)
next
  case producing_produce
  then show ?case by (intro accounted_produce) simp_all
next
  case producing_uninit
  then show ?case by (intro accounted_uninit) simp_all
qed

lemma producing_record:
  "producing lib c0 c accepted reports \<Longrightarrow>
     \<not> is_sync_send c0 \<Longrightarrow> is_record_msg_for_send_failed c = is_record_msg_for_send_failed c0"
proof (induction rule: producing.induct)
  case (producing_produce c accepted reports data key rt c')
  then have "\<not> is_sync_send c" using accounted_producing by (auto simp: accounted_def)
  from produce_split [OF this, of lib data key] producing_produce show ?case
    by (auto split: if_splits)
next
  case (producing_uninit c accepted reports)
  then show ?case by (simp add: uninit_split) (simp add: closing_def Let_def)
qed simp

section \<open>Property\<close>

text \<open>C8: What becomes of the messages of an asynchronous producer, whatever calls of \<open>produce\<close> and \<open>uninit\<close>
  were made and whatever was reported. If the record of failed messages is on (\<open>enable.record.msg\<close>, which is
  off by default), each message for which \<open>produce\<close> returned true is still in librdkafka's queue, was
  reported as delivered, or its payload was recorded. With the record on or off, as long as the producer
  is initialised and librdkafka refuses no message, each is in the queue or delivered, with its key.
  With the record off a message that librdkafka refuses to take again is lost without a trace.\<close>

theorem producer_loses_nothing:
  assumes "producing lib c0 c accepted reports" and "\<not> is_sync_send c0"
  shows "(is_record_msg_for_send_failed c0 \<longrightarrow> image_mset text_of accepted \<subseteq>#
       image_mset text_of (in_queue lib c reports + delivered_ok reports) + recorded (calls c)) \<and>
     (never_refuses lib \<and> is_init c \<and> producer_handle c \<longrightarrow>
       accepted \<subseteq># in_queue lib c reports + delivered_ok reports)"
  using accounted_producing [OF assms] producing_record [OF assms] by (simp add: accounted_def)

theorem producer_loses_nothing_witness:
  "\<exists>c. producing (quiet_lib\<lparr>rk_poll := \<lambda>_ _. [demo_report ''A'' 1]\<rparr>)
       ((demo_producer False)\<lparr>is_record_msg_for_send_failed := True\<rparr>) c
       {#(Some ''A'', None)#} [demo_report ''A'' 1] \<and>
     {#(Some ''A'', None)#} \<subseteq># in_queue (quiet_lib\<lparr>rk_poll := \<lambda>_ _. [demo_report ''A'' 1]\<rparr>) c
       [demo_report ''A'' 1] + delivered_ok [demo_report ''A'' 1]"
proof -
  let ?lib = "quiet_lib\<lparr>rk_poll := \<lambda>_ _. [demo_report ''A'' 1]\<rparr>"
  let ?c = "(demo_producer False)\<lparr>is_record_msg_for_send_failed := True\<rparr>"
  have p: "posted ?lib ''A'' '''' ?c" "\<not> is_sync_send ?c"
    by (simp_all add: posted_def demo_producer_def producer_new_def quiet_lib_def)
  then have r: "produce_reports ?lib ''A'' '''' ?c = [demo_report ''A'' 1]"
    by (simp add: produce_reports_def)
  obtain c' where c': "producer_produce ?lib ''A'' '''' ?c = (True, c')"
    "is_init c'" "producer_handle c'"
    using produce_split [OF p(2), of ?lib "''A''" "''''"] p(1)
    by (simp add: demo_producer_def producer_new_def)
  have "honest ?lib [] [demo_report ''A'' 1] (emit (Poll 0) (after_posting ''A'' '''' ?c))"
    by (simp add: in_queue_def after_posting_calls sent_def demo_report_def report_id_def key_arg_def
        demo_producer_def producer_new_def quiet_lib_def)
  with producing_produce [OF producing_start c'(1)] r
  have "producing ?lib ?c c' {#(Some ''A'', None)#} [demo_report ''A'' 1]"
    by (simp add: key_arg_def)
  moreover from producer_loses_nothing [OF this p(2)] c'(2,3)
  have "{#(Some ''A'', None)#} \<subseteq># in_queue ?lib c' [demo_report ''A'' 1] + delivered_ok [demo_report ''A'' 1]"
    by (simp add: never_refuses_def quiet_lib_def)
  ultimately show ?thesis by blast
qed

end
