(* ===== verification/Pulsar_Config.thy ===== *)
theory Pulsar_Config
  imports Boost_Ptree Cpp_Strings
begin

text \<open>
  Configuration of the Pulsar clients: \<open>PulsarConfig\<close> (pulsar/pulsar_config.cc), the typed lookups of
  pulsar/property_tree_proxy.h, and the structs \<open>QbusProducerConfig\<close> and \<open>QbusConsumerConfig\<close>. The
  value of a \<open>PulsarConfig\<close> is its property tree; a member function that may throw returns
  \<open>exn + 'a\<close>.
\<close>

section \<open>PulsarConfig\<close>

definition KEY_BROKER :: string where "KEY_BROKER = ''broker''"
definition KEY_SUBSCRIPTION :: string where "KEY_SUBSCRIPTION = ''subscription''"
definition KEY_PERSISTENT :: string where "KEY_PERSISTENT = ''persistent''"
definition KEY_TENANT :: string where "KEY_TENANT = ''tenant''"
definition KEY_NAMESPACE :: string where "KEY_NAMESPACE = ''namespace''"
definition KEY_LOG_LEVEL :: string where "KEY_LOG_LEVEL = ''log.level''"

lemmas pulsar_key_defs = KEY_BROKER_def KEY_SUBSCRIPTION_def KEY_PERSISTENT_def KEY_TENANT_def
  KEY_NAMESPACE_def KEY_LOG_LEVEL_def

definition pc_put :: "'t ptree_lib \<Rightarrow> string \<Rightarrow> string \<Rightarrow> 't \<Rightarrow> 't" where
  "pc_put pt key value config = pt_put pt config key value"

definition pc_loadConfig :: "'t ptree_lib \<Rightarrow> string \<Rightarrow> exn + 't" where
  "pc_loadConfig pt filename =
     (case pt_read_ini pt filename of
        Inl what \<Rightarrow> Inl (ConfigError (''Failed to load config: '' @ what))
      | Inr config \<Rightarrow> Inr config)"

definition pc_broker :: "'t ptree_lib \<Rightarrow> 't \<Rightarrow> exn + string" where
  "pc_broker pt config =
     (case pt_find pt config KEY_BROKER of
        None \<Rightarrow> Inl (ConfigNotFound KEY_BROKER)
      | Some t \<Rightarrow> Inr (''pulsar://'' @ pt_data pt t))"

definition pc_subscription :: "'t ptree_lib \<Rightarrow> 't \<Rightarrow> exn + string" where
  "pc_subscription pt config =
     (case pt_find pt config KEY_SUBSCRIPTION of
        None \<Rightarrow> Inl (ConfigNotFound KEY_SUBSCRIPTION)
      | Some t \<Rightarrow> Inr (pt_data pt t))"

text \<open>\<open>find<bool>\<close> and \<open>find<std::string>\<close>; the first does not catch \<open>ptree_bad_data\<close>.\<close>

definition pc_find_bool :: "'t ptree_lib \<Rightarrow> 't \<Rightarrow> string \<Rightarrow> bool \<Rightarrow> exn + bool" where
  "pc_find_bool pt config key default_value =
     (case pt_find pt config key of
        None \<Rightarrow> Inr default_value
      | Some t \<Rightarrow> (case pt_bool pt t of
                     None \<Rightarrow> Inl (BadData (pt_data pt t))
                   | Some b \<Rightarrow> Inr b))"

definition pc_find_string :: "'t ptree_lib \<Rightarrow> 't \<Rightarrow> string \<Rightarrow> string \<Rightarrow> string" where
  "pc_find_string pt config key default_value =
     (case pt_find pt config key of
        None \<Rightarrow> default_value
      | Some t \<Rightarrow> pt_data pt t)"

definition pc_topic_prefix :: "'t ptree_lib \<Rightarrow> 't \<Rightarrow> exn + string" where
  "pc_topic_prefix pt config =
     (case pc_find_bool pt config KEY_PERSISTENT True of
        Inl e \<Rightarrow> Inl e
      | Inr b \<Rightarrow>
          (let persistent = (if b then ''persistent'' else ''non-persistent'');
               tenant = pc_find_string pt config KEY_TENANT ''public'';
               namespace = pc_find_string pt config KEY_NAMESPACE ''default''
           in Inr (persistent @ ''://'' @ tenant @ ''/'' @ namespace @ ''/'')))"

definition pc_log_level :: "'t ptree_lib \<Rightarrow> 't \<Rightarrow> string" where
  "pc_log_level pt config =
     (case pt_find pt config KEY_LOG_LEVEL of
        None \<Rightarrow> ''info''
      | Some t \<Rightarrow>
          (let level = pt_data pt t in
           if level \<notin> set [''debug'', ''info'', ''warn'', ''error''] then ''info'' else level))"

section \<open>PropertyTreeProxy\<close>

text \<open>Each function returns the value left in its reference argument; bad data leaves it alone.\<close>

definition proxy_config :: "'t ptree_lib \<Rightarrow> 't \<Rightarrow> string \<Rightarrow> string \<Rightarrow> string" where
  "proxy_config pt tree key value =
     (case pt_find pt tree key of None \<Rightarrow> value | Some t \<Rightarrow> pt_data pt t)"

definition proxy_configInt :: "'t ptree_lib \<Rightarrow> 't \<Rightarrow> string \<Rightarrow> int \<Rightarrow> int" where
  "proxy_configInt pt tree key value =
     (case pt_find pt tree key of
        None \<Rightarrow> value
      | Some t \<Rightarrow> (case pt_int pt t of Some i \<Rightarrow> i | None \<Rightarrow> value))"

definition proxy_configBool :: "'t ptree_lib \<Rightarrow> 't \<Rightarrow> string \<Rightarrow> bool \<Rightarrow> bool" where
  "proxy_configBool pt tree key value =
     (case pt_find pt tree key of
        None \<Rightarrow> value
      | Some t \<Rightarrow> (case pt_bool pt t of Some b \<Rightarrow> b | None \<Rightarrow> value))"

definition show_bool :: "bool \<Rightarrow> string" where
  "show_bool b = (if b then ''true'' else ''false'')"

section \<open>QbusConsumerConfig\<close>

datatype initial_position = KEarliest | KLatest

record consumer_config =
  cc_auth_jwt :: string
  cc_initial_position :: initial_position
  cc_poll_timeout_ms :: int
  cc_manual_ack :: bool
  cc_force_stop :: bool
  cc_manual_commit_time_ms :: int

definition consumer_config_default :: consumer_config where
  "consumer_config_default = \<lparr>cc_auth_jwt = '''', cc_initial_position = KLatest,
     cc_poll_timeout_ms = 100, cc_manual_ack = False, cc_force_stop = False,
     cc_manual_commit_time_ms = 200\<rparr>"

definition consumer_config_of :: "'t ptree_lib \<Rightarrow> 't \<Rightarrow> consumer_config" where
  "consumer_config_of pt tree =
     (let conf = consumer_config_default;
          conf = conf\<lparr>cc_auth_jwt := proxy_config pt tree ''auth.jwt'' (cc_auth_jwt conf)\<rparr>;
          desc = proxy_config pt tree ''initial.position'' '''';
          conf = (if desc \<noteq> '''' then
                    (if desc = ''earliest'' then conf\<lparr>cc_initial_position := KEarliest\<rparr>
                     else if desc = ''latest'' then conf\<lparr>cc_initial_position := KLatest\<rparr>
                     else conf)
                  else conf);
          conf = conf\<lparr>cc_poll_timeout_ms :=
                   proxy_configInt pt tree ''poll.timeout.ms'' (cc_poll_timeout_ms conf)\<rparr>;
          conf = conf\<lparr>cc_manual_ack := proxy_configBool pt tree ''manual.ack'' (cc_manual_ack conf)\<rparr>;
          conf = conf\<lparr>cc_force_stop := proxy_configBool pt tree ''force.stop'' (cc_force_stop conf)\<rparr>
      in conf\<lparr>cc_manual_commit_time_ms :=
           proxy_configInt pt tree ''manual.commit.time.ms'' (cc_manual_commit_time_ms conf)\<rparr>)"

fun initial_position_text :: "initial_position \<Rightarrow> string" where
  "initial_position_text KEarliest = ''earliest''"
| "initial_position_text KLatest = ''latest''"

definition consumer_config_to_string :: "consumer_config \<Rightarrow> string" where
  "consumer_config_to_string conf =
     ''initial.position='' @ initial_position_text (cc_initial_position conf) @ [CHR 10] @
     ''manual.ack='' @ show_bool (cc_manual_ack conf) @ [CHR 10] @
     ''force.stop='' @ show_bool (cc_force_stop conf) @ [CHR 10] @
     ''manual.commit.time.ms='' @ show_int (cc_manual_commit_time_ms conf)"

definition pc_consumer_config :: "'t ptree_lib \<Rightarrow> 't \<Rightarrow> consumer_config" where
  "pc_consumer_config pt config =
     (case pt_get_child pt config ''consumer'' of
        Some child \<Rightarrow> consumer_config_of pt child
      | None \<Rightarrow> consumer_config_default)"

section \<open>QbusProducerConfig\<close>

record producer_config =
  pp_auth_jwt :: string
  pp_send_timeout_ms :: int
  pp_timeout_retry_count :: int
  pp_queue_full_retry_count :: int
  pp_queue_full_retry_interval_ms :: int
  pp_max_pending_messages :: int
  pp_batching_enabled :: bool
  pp_batching_max_messages :: int
  pp_batching_max_allowed_size_kbytes :: int
  pp_batching_max_publish_delay_ms :: int
  pp_compression_type :: string

definition producer_config_default :: producer_config where
  "producer_config_default = \<lparr>pp_auth_jwt = '''', pp_send_timeout_ms = 30000,
     pp_timeout_retry_count = 0, pp_queue_full_retry_count = 5,
     pp_queue_full_retry_interval_ms = 10, pp_max_pending_messages = 1000,
     pp_batching_enabled = True, pp_batching_max_messages = 1000,
     pp_batching_max_allowed_size_kbytes = 128, pp_batching_max_publish_delay_ms = 10,
     pp_compression_type = ''None''\<rparr>"

definition producer_config_of :: "'t ptree_lib \<Rightarrow> 't \<Rightarrow> producer_config" where
  "producer_config_of pt tree =
     (let conf = producer_config_default;
          int = proxy_configInt pt tree;
          interval = int ''queue.full.retry.interval.ms'' (pp_queue_full_retry_interval_ms conf)
      in \<lparr>pp_auth_jwt = proxy_config pt tree ''auth.jwt'' (pp_auth_jwt conf),
          pp_send_timeout_ms = int ''send.timeout.ms'' (pp_send_timeout_ms conf),
          pp_timeout_retry_count = int ''timeout.retry.count'' (pp_timeout_retry_count conf),
          pp_queue_full_retry_count = int ''queue.full.retry.count'' (pp_queue_full_retry_count conf),
          pp_queue_full_retry_interval_ms = (if interval < 0 then 0 else interval),
          pp_max_pending_messages = int ''max.pending.messages'' (pp_max_pending_messages conf),
          pp_batching_enabled =
            proxy_configBool pt tree ''batching.enable'' (pp_batching_enabled conf),
          pp_batching_max_messages = int ''batching.max.messages'' (pp_batching_max_messages conf),
          pp_batching_max_allowed_size_kbytes =
            int ''batching.max.allowed.size.kbytes'' (pp_batching_max_allowed_size_kbytes conf),
          pp_batching_max_publish_delay_ms =
            int ''batching.max.publish.delay.ms'' (pp_batching_max_publish_delay_ms conf),
          pp_compression_type =
            proxy_config pt tree ''compression.type'' (pp_compression_type conf)\<rparr>)"

definition producer_config_to_string :: "producer_config \<Rightarrow> string" where
  "producer_config_to_string conf =
     ''send.timeout.ms='' @ show_int (pp_send_timeout_ms conf) @ [CHR 10] @
     ''timeout.retry.count='' @ show_int (pp_timeout_retry_count conf) @ [CHR 10] @
     ''queue.full.retry.count='' @ show_int (pp_queue_full_retry_count conf) @ [CHR 10] @
     ''queue.full.retry.interval.ms='' @ show_int (pp_queue_full_retry_interval_ms conf) @ [CHR 10] @
     ''max.pending.messages='' @ show_int (pp_max_pending_messages conf) @ [CHR 10] @
     ''batching.enable='' @ show_bool (pp_batching_enabled conf) @ [CHR 10] @
     ''batching.max.messages='' @ show_int (pp_batching_max_messages conf) @ [CHR 10] @
     ''batching.max.allowed.size.kbytes='' @
       show_int (pp_batching_max_allowed_size_kbytes conf) @ [CHR 10] @
     ''batching.max.publish.delay.ms='' @
       show_int (pp_batching_max_publish_delay_ms conf) @ [CHR 10] @
     ''compression.type='' @ pp_compression_type conf"

definition pc_producer_config :: "'t ptree_lib \<Rightarrow> 't \<Rightarrow> producer_config" where
  "pc_producer_config pt config =
     (case pt_get_child pt config ''producer'' of
        Some child \<Rightarrow> producer_config_of pt child
      | None \<Rightarrow> producer_config_default)"

section \<open>Lemmas\<close>

text \<open>\<open>put\<close> of the broker: the service URL is the given one, and the rest of the file is as it was.\<close>

lemma broker_put:
  assumes "put_law pt KEY_BROKER"
  shows "pc_broker pt (pc_put pt KEY_BROKER v config) = Inr (''pulsar://'' @ v)"
    and "pc_subscription pt (pc_put pt KEY_BROKER v config) = pc_subscription pt config"
    and "pc_topic_prefix pt (pc_put pt KEY_BROKER v config) = pc_topic_prefix pt config"
    and "pc_log_level pt (pc_put pt KEY_BROKER v config) = pc_log_level pt config"
    and "pc_consumer_config pt (pc_put pt KEY_BROKER v config) = pc_consumer_config pt config"
    and "pc_producer_config pt (pc_put pt KEY_BROKER v config) = pc_producer_config pt config"
proof -
  have found: "\<exists>x. pt_find pt (pt_put pt config KEY_BROKER v) KEY_BROKER = Some x \<and> pt_data pt x = v"
  proof -
    have "case pt_find pt (pt_put pt config KEY_BROKER v) KEY_BROKER of
        Some x \<Rightarrow> pt_data pt x = v | None \<Rightarrow> False" using assms by (simp add: put_law_def)
    then show ?thesis by (simp split: option.splits)
  qed
  have others: "k \<noteq> KEY_BROKER \<Longrightarrow> pt_find pt (pt_put pt config KEY_BROKER v) k = pt_find pt config k"
    "k \<noteq> KEY_BROKER \<Longrightarrow> pt_get_child pt (pt_put pt config KEY_BROKER v) k = pt_get_child pt config k"
    for k using assms by (simp_all add: put_law_def)
  have keys: "KEY_SUBSCRIPTION \<noteq> KEY_BROKER" "KEY_PERSISTENT \<noteq> KEY_BROKER" "KEY_TENANT \<noteq> KEY_BROKER"
    "KEY_NAMESPACE \<noteq> KEY_BROKER" "KEY_LOG_LEVEL \<noteq> KEY_BROKER" "''consumer'' \<noteq> KEY_BROKER"
    "''producer'' \<noteq> KEY_BROKER" by (simp_all add: pulsar_key_defs)
  show "pc_broker pt (pc_put pt KEY_BROKER v config) = Inr (''pulsar://'' @ v)"
    using found by (auto simp: pc_broker_def pc_put_def)
  show "pc_subscription pt (pc_put pt KEY_BROKER v config) = pc_subscription pt config"
    "pc_topic_prefix pt (pc_put pt KEY_BROKER v config) = pc_topic_prefix pt config"
    "pc_log_level pt (pc_put pt KEY_BROKER v config) = pc_log_level pt config"
    "pc_consumer_config pt (pc_put pt KEY_BROKER v config) = pc_consumer_config pt config"
    "pc_producer_config pt (pc_put pt KEY_BROKER v config) = pc_producer_config pt config"
    by (simp_all add: pc_subscription_def pc_topic_prefix_def pc_find_bool_def pc_find_string_def
        pc_log_level_def pc_consumer_config_def pc_producer_config_def pc_put_def others
        keys split: sum.split)
qed

end
