(* ===== verification/Pulsar_Producer.thy ===== *)
theory Pulsar_Producer
  imports Pulsar_Config Pulsar_Lib Std_Map
begin

text \<open>
  The Pulsar producer (pulsar/qbus_producer.cc), the send callback that repeats a send after a timeout
  (pulsar/retryable_send_callback.cc), and the PHP producer with its process-wide map
  (pulsar/qbus_php_producer.cc, pulsar/qbus_producer_map.cc).

  The library keeps a copy of the callback of every message it has accepted; these copies are
  \<open>outstanding\<close>. \<open>pl_send\<close> answers \<open>None\<close> when \<open>sendAsync\<close> returns first and the callback runs later,
  and \<open>Some r\<close> when the callback has run with \<open>r\<close> before it returns. The cell \<open>result_\<close> that the
  copies of one callback share is threaded as an argument and result; it is read once, right after
  \<open>sendAsync\<close>. Logging is left out, and a message is its payload and optional partition key.
\<close>

section \<open>Data and state\<close>

definition toCompressionType :: "string \<Rightarrow> compression" where
  "toCompressionType compression =
     (let compression = lowercase compression in
      if compression = ''none'' then CompressionNone
      else if compression = ''lz4'' then CompressionLZ4
      else if compression = ''zlib'' then CompressionZLib
      else if compression = ''zstd'' then CompressionZSTD
      else CompressionNone)"

record send_callback =
  max_retry_count :: int
  retry_count :: int
  cb_payload :: string
  cb_key :: string
  cb_topic :: string

record pulsar_producer = pl_client +
  prod_topic :: string
  prod_client :: bool
  prod_config :: "producer_config option"
  outstanding :: "send_callback list"

definition pulsar_producer_new :: pulsar_producer where
  "pulsar_producer_new = \<lparr>pl_calls = [], prod_topic = '''', prod_client = False, prod_config = None,
     outstanding = []\<rparr>"

definition the_producer_conf :: "pulsar_producer \<Rightarrow> producer_config" where
  "the_producer_conf p =
     (case prod_config p of Some conf \<Rightarrow> conf | None \<Rightarrow> producer_config_default)"

section \<open>init, uninit\<close>

text \<open>
  The size of a batch is an \<open>int\<close> product converted to \<open>unsigned long\<close>; a product outside the range
  of \<open>int\<close> is undefined in C++, and the definition gives the wrapped one.
\<close>

definition producer_conf_of :: "producer_config \<Rightarrow> pl_producer_conf" where
  "producer_conf_of conf = \<lparr>
     conf_send_timeout = pp_send_timeout_ms conf,
     conf_batching_enabled = pp_batching_enabled conf,
     conf_batching_max_messages = pp_batching_max_messages conf,
     conf_batching_max_bytes = long_to_int (pp_batching_max_allowed_size_kbytes conf * 1024) mod 2 ^ 64,
     conf_batching_max_publish_delay = pp_batching_max_publish_delay_ms conf,
     conf_compression = toCompressionType (pp_compression_type conf),
     conf_max_pending = pp_max_pending_messages conf\<rparr>"

definition create_producer ::
  "pulsar_lib \<Rightarrow> pl_producer_conf \<Rightarrow> string \<Rightarrow> pulsar_producer \<Rightarrow> bool \<times> pulsar_producer" where
  "create_producer lib conf topic p =
     (let p = p\<lparr>prod_topic := topic\<rparr>;
          result = pl_create_producer lib (pl_calls p);
          p = pl_emit (PlCreateProducer topic conf) p
      in if result \<noteq> ResultOk then
           (let p = p\<lparr>prod_config := None\<rparr>;
                p = pl_emit PlCloseClient (pl_emit PlCloseProducer p)
            in (False, p\<lparr>prod_client := False\<rparr>))
         else (True, p))"

definition pulsar_producer_init ::
  "'t ptree_lib \<Rightarrow> pulsar_lib \<Rightarrow> string \<Rightarrow> string \<Rightarrow> string \<Rightarrow> string \<Rightarrow> pulsar_producer \<Rightarrow>
     (exn + bool) \<times> pulsar_producer" where
  "pulsar_producer_init pt lib broker log_path config_path topic p =
     (if prod_client p then (Inr False, p)
      else case pc_loadConfig pt config_path of
             Inl e \<Rightarrow> (Inr False, p)
           | Inr cfg \<Rightarrow>
               (let cfg = (if broker \<noteq> '''' then pc_put pt KEY_BROKER broker cfg else cfg);
                    level = pc_log_level pt cfg;
                    config = pc_producer_config pt cfg;
                    p = p\<lparr>prod_config := Some config\<rparr>
                in case pc_broker pt cfg of
                     Inl e \<Rightarrow> (Inl e, p)
                   | Inr url \<Rightarrow>
                       (let p = (pl_emit (PlClient url (pp_auth_jwt config) level log_path) p)
                                  \<lparr>prod_client := True\<rparr>
                        in case pc_topic_prefix pt cfg of
                             Inl e \<Rightarrow> (Inl e, p)
                           | Inr pre \<Rightarrow>
                               (let (rt, p) = create_producer lib (producer_conf_of config) (pre @ topic) p
                                in (Inr rt, p)))))"

definition pulsar_producer_uninit :: "pulsar_lib \<Rightarrow> pulsar_producer \<Rightarrow> pulsar_producer" where
  "pulsar_producer_uninit lib p =
     (if \<not> prod_client p then p
      else (pl_emit PlCloseClient (pl_emit PlCloseProducer (pl_emit PlFlush p)))\<lparr>prod_client := False\<rparr>)"

section \<open>Sending\<close>

definition createMessage :: "string \<Rightarrow> string \<Rightarrow> pl_call" where
  "createMessage payload key = PlSend payload (if key \<noteq> '''' then Some key else None)"

text \<open>
  The callback, \<open>operator()\<close>: the result is put into the shared cell, and after a timeout the message
  is sent again while retries are left, which may run the copy of the callback at once.
\<close>

function run_callback ::
  "pulsar_lib \<Rightarrow> pl_result \<Rightarrow> send_callback \<Rightarrow> pulsar_producer \<Rightarrow> pl_result \<times> pulsar_producer" where
  "run_callback lib result cb p =
     (if result = ResultTimeout \<and> retry_count cb < max_retry_count cb then
        (let cb = cb\<lparr>retry_count := retry_count cb + 1\<rparr>;
             answer = pl_send lib (pl_calls p);
             p = pl_emit (createMessage (cb_payload cb) (cb_key cb)) p
         in case answer of
              None \<Rightarrow> (result, p\<lparr>outstanding := outstanding p @ [cb]\<rparr>)
            | Some r \<Rightarrow> run_callback lib r cb p)
      else (result, p))"
  by pat_completeness auto

termination
  by (relation "measure (\<lambda>(lib, result, cb, p). nat (max_retry_count cb - retry_count cb))") auto

declare run_callback.simps [simp del]

text \<open>One \<open>sendAsync\<close> of the library with a new callback, and what \<open>callback.result()\<close> then reads.\<close>

definition send_once ::
  "pulsar_lib \<Rightarrow> send_callback \<Rightarrow> pulsar_producer \<Rightarrow> pl_result \<times> pulsar_producer" where
  "send_once lib cb p =
     (let answer = pl_send lib (pl_calls p);
          p = pl_emit (createMessage (cb_payload cb) (cb_key cb)) p
      in case answer of
           None \<Rightarrow> (ResultOk, p\<lparr>outstanding := outstanding p @ [cb]\<rparr>)
         | Some r \<Rightarrow> run_callback lib r cb p)"

text \<open>The constructor of the callback; a new callback reads \<open>ResultOk\<close> from its cell (see \<open>send_once\<close>).\<close>

definition RetryableSendCallback :: "int \<Rightarrow> int \<Rightarrow> string \<Rightarrow> string \<Rightarrow> string \<Rightarrow> send_callback" where
  "RetryableSendCallback max_retries retries payload key topic =
     \<lparr>max_retry_count = max_retries, retry_count = retries, cb_payload = payload, cb_key = key,
      cb_topic = topic\<rparr>"

declare RetryableSendCallback_def [simp]

fun send_loop ::
  "nat \<Rightarrow> pulsar_lib \<Rightarrow> string \<Rightarrow> string \<Rightarrow> pulsar_producer \<Rightarrow> pl_result \<times> pulsar_producer" where
  "send_loop 0 lib payload key p = (ResultProducerQueueIsFull, p)"
| "send_loop (Suc n) lib payload key p =
     (let callback = RetryableSendCallback (pp_timeout_retry_count (the_producer_conf p)) 0 payload key
                       (prod_topic p);
          (result, p) = send_once lib callback p
      in if result = ResultOk then (ResultOk, p)
         else if result = ResultProducerQueueIsFull then
           send_loop n lib payload key
             (pl_emit (PlSleep (pp_queue_full_retry_interval_ms (the_producer_conf p))) p)
         else (result, p))"

text \<open>\<open>i\<close> counts from 0 up to \<open>queue_full_retry_count\<close>.\<close>

definition pulsar_sendAsync ::
  "pulsar_lib \<Rightarrow> string \<Rightarrow> string \<Rightarrow> pulsar_producer \<Rightarrow> pl_result \<times> pulsar_producer" where
  "pulsar_sendAsync lib payload key p =
     send_loop (nat (pp_queue_full_retry_count (the_producer_conf p))) lib payload key p"

definition pulsar_produce ::
  "pulsar_lib \<Rightarrow> string \<Rightarrow> nat \<Rightarrow> string \<Rightarrow> pulsar_producer \<Rightarrow> bool \<times> pulsar_producer" where
  "pulsar_produce lib data data_len key p =
     (if \<not> prod_client p then (False, p)
      else
        (let payload = take data_len data;
             (result, p) = pulsar_sendAsync lib payload key p
         in if result \<noteq> ResultOk then (False, p) else (True, p)))"

text \<open>The library reports the result of the outstanding message number \<open>i\<close>.\<close>

definition complete_send :: "pulsar_lib \<Rightarrow> nat \<Rightarrow> pl_result \<Rightarrow> pulsar_producer \<Rightarrow> pulsar_producer" where
  "complete_send lib i r p =
     (if i < length (outstanding p)
      then snd (run_callback lib r (outstanding p ! i)
             (p\<lparr>outstanding := take i (outstanding p) @ drop (Suc i) (outstanding p)\<rparr>))
      else p)"

definition complete_sends :: "pulsar_lib \<Rightarrow> (nat \<times> pl_result) list \<Rightarrow> pulsar_producer \<Rightarrow> pulsar_producer" where
  "complete_sends lib reports p = foldl (\<lambda>p (i, r). complete_send lib i r p) p reports"

section \<open>The PHP producer\<close>

text \<open>
  The map owns its producers and never removes one, so that a \<open>shared_ptr\<close> into it is a key. The
  hash map is kept sorted; its order shows nowhere, since each producer has its own client.
\<close>

type_synonym producer_map = "(string \<times> pulsar_producer) list"

definition newProducerKey :: "string \<Rightarrow> string \<Rightarrow> string \<Rightarrow> string" where
  "newProducerKey broker topic config_path = broker @ topic @ config_path"

definition producer_map_at :: "string \<Rightarrow> producer_map \<Rightarrow> pulsar_producer \<times> producer_map" where
  "producer_map_at key m =
     (case map_of m key of
        Some p \<Rightarrow> (p, m)
      | None \<Rightarrow> (pulsar_producer_new, smap_insert key pulsar_producer_new m))"

definition pulsar_php_init ::
  "'t ptree_lib \<Rightarrow> pulsar_lib \<Rightarrow> string \<Rightarrow> string \<Rightarrow> string \<Rightarrow> string \<Rightarrow> string option \<Rightarrow> producer_map \<Rightarrow>
     (exn + bool) \<times> string option \<times> producer_map" where
  "pulsar_php_init pt lib broker log_path config_path topic me m =
     (let key = newProducerKey broker topic config_path in
      case me of
        None \<Rightarrow>
          (let (p, m) = producer_map_at key m;
               (result, p) = pulsar_producer_init pt lib broker log_path config_path topic p
           in (result, Some key, smap_assign key p m))
      | Some k \<Rightarrow> (Inr True, me, m))"

definition pulsar_php_uninit :: "producer_map \<Rightarrow> producer_map" where
  "pulsar_php_uninit m = m"

definition pulsar_php_produce ::
  "pulsar_lib \<Rightarrow> string \<Rightarrow> nat \<Rightarrow> string \<Rightarrow> string option \<Rightarrow> producer_map \<Rightarrow> bool \<times> producer_map" where
  "pulsar_php_produce lib data data_len key me m =
     (case me of
        None \<Rightarrow> (False, m)
      | Some k \<Rightarrow>
          (case map_of m k of
             None \<Rightarrow> (False, m)
           | Some p \<Rightarrow> (let (rt, p) = pulsar_produce lib data data_len key p
                        in (rt, smap_assign k p m))))"

definition producer_map_destroy :: "pulsar_lib \<Rightarrow> producer_map \<Rightarrow> producer_map" where
  "producer_map_destroy lib m = map (\<lambda>(k, p). (k, pulsar_producer_uninit lib p)) m"

end
