(* ===== verification/Producer_Maps.thy ===== *)
theory Producer_Maps
  imports Kafka_Producer_Props Pulsar_Producer Lock_Machine
begin

text \<open>
  The process-wide maps of the builds without callbacks, used by several threads. Kafka: \<open>init\<close> of
  kafka/qbus_producer.cc holds \<open>kRmtx\<close> from the search to the insertion, while \<open>produce\<close> of other objects
  goes on without it; the statements of \<open>init\<close> are the transitions of \<open>init_transit\<close>, and Lock_Machine
  interleaves them. Pulsar: \<open>operator[]\<close> of pulsar/qbus_producer_map.cc takes no lock; its search and its
  insertion are steps that any thread may come between (\<open>lookup_step\<close>). There an implementation is known
  by its address, which Pulsar_Producer leaves out.
\<close>

section \<open>Kafka: init under kRmtx\<close>

text \<open>A call of \<open>init\<close>: the number of the object, then its arguments.\<close>

record init_call =
  ic_object :: nat
  ic_cluster :: string
  ic_log_path :: string
  ic_config_path :: string
  ic_topic :: string

definition init_key :: "init_call \<Rightarrow> string" where
  "init_key ic = ic_cluster ic @ ic_topic ic @ ic_config_path ic"

text \<open>\<open>bound\<close>: the key and the address of the implementation of an object whose last \<open>init\<close> was
  successful.\<close>

record php_objects =
  po_world :: producer_world
  po_pointer :: "nat \<Rightarrow> imp_pointer"
  po_bound :: "nat \<Rightarrow> (string \<times> nat) option"

datatype init_pc = Searching init_call | Allocated init_call nat | Initialised init_call nat bool | InitOver

definition init_transit ::
  "'t ptree_lib \<Rightarrow> rk_lib \<Rightarrow> init_pc \<Rightarrow> php_objects \<Rightarrow> (init_pc \<times> php_objects) option" where
  "init_transit pt lib l s =
     (let w = po_world s in
      case l of
        Searching ic \<Rightarrow>
          (case map_of (kRmb w) (init_key ic) of
             Some a \<Rightarrow>
               Some (InitOver, s\<lparr>po_pointer := (po_pointer s)(ic_object ic := Pointer a),
                                 po_bound := (po_bound s)(ic_object ic \<mapsto> (init_key ic, a))\<rparr>)
           | None \<Rightarrow>
               Some (Allocated ic (next_address w),
                     s\<lparr>po_world := w\<lparr>next_address := Suc (next_address w)\<rparr>,
                       po_pointer := (po_pointer s)(ic_object ic := Pointer (next_address w))\<rparr>))
      | Allocated ic a \<Rightarrow>
          (let (rt, p) = producer_init pt lib (ic_cluster ic) (ic_log_path ic) (ic_topic ic)
                           (ic_config_path ic) (producer_new (world_logger w))
           in Some (Initialised ic a rt,
                    s\<lparr>po_world := w\<lparr>heap := smap_assign a p (heap w), world_logger := logger p\<rparr>\<rparr>))
      | Initialised ic a rt \<Rightarrow>
          Some (InitOver,
            if rt then s\<lparr>po_world := w\<lparr>kRmb := smap_insert (init_key ic) a (kRmb w)\<rparr>,
                         po_bound := (po_bound s)(ic_object ic \<mapsto> (init_key ic, a))\<rparr>
            else s\<lparr>po_world := w\<lparr>heap := filter (\<lambda>x. fst x \<noteq> a) (heap w)\<rparr>,
                   po_bound := (po_bound s)(ic_object ic := None)\<rparr>)
      | InitOver \<Rightarrow> None)"

text \<open>\<open>init\<close> in one piece, with the definition of Kafka_Producer.\<close>

definition php_init_object ::
  "'t ptree_lib \<Rightarrow> rk_lib \<Rightarrow> init_call \<Rightarrow> php_objects \<Rightarrow> php_objects" where
  "php_init_object pt lib ic s =
     (let (rt, ptr, w) = PhpProducer_init pt lib (ic_cluster ic) (ic_log_path ic) (ic_config_path ic)
                           (ic_topic ic) (po_pointer s (ic_object ic)) (po_world s)
      in s\<lparr>po_world := w, po_pointer := (po_pointer s)(ic_object ic := ptr),
           po_bound := (po_bound s)(ic_object ic :=
             (if rt then (case ptr of Pointer a \<Rightarrow> Some (init_key ic, a) | Indeterminate \<Rightarrow> None)
              else None))\<rparr>)"

fun init_rest :: "'t ptree_lib \<Rightarrow> rk_lib \<Rightarrow> init_pc \<Rightarrow> php_objects \<Rightarrow> php_objects" where
  "init_rest pt lib (Searching ic) s = php_init_object pt lib ic s"
| "init_rest pt lib (Allocated ic a) s =
     (case init_transit pt lib (Allocated ic a) s of
        None \<Rightarrow> s
      | Some (l, s) \<Rightarrow> (case init_transit pt lib l s of None \<Rightarrow> s | Some (_, s) \<Rightarrow> s))"
| "init_rest pt lib (Initialised ic a rt) s =
     (case init_transit pt lib (Initialised ic a rt) s of None \<Rightarrow> s | Some (_, s) \<Rightarrow> s)"
| "init_rest pt lib InitOver s = s"

fun init_rank :: "init_pc \<Rightarrow> php_objects \<Rightarrow> nat" where
  "init_rank (Searching ic) s = 3"
| "init_rank (Allocated ic a) s = 2"
| "init_rank (Initialised ic a rt) s = 1"
| "init_rank InitOver s = 0"

text \<open>What goes on outside the lock: \<open>produce\<close> of the object \<open>i\<close>, with its data and key. A call through
  a pointer that leads nowhere is undefined and does nothing here.\<close>

definition produces :: "rk_lib \<Rightarrow> nat \<times> string option \<times> string \<Rightarrow> php_objects \<Rightarrow> php_objects" where
  "produces lib x s =
     (case PhpProducer_produce lib (fst (snd x)) (snd (snd x)) (po_pointer s (fst x)) (po_world s) of
        None \<Rightarrow> s | Some (rt, w) \<Rightarrow> s\<lparr>po_world := w\<rparr>)"

text \<open>What the mutex guards.\<close>

definition registry ::
  "php_objects \<Rightarrow> (string \<times> nat) list \<times> nat \<times> logger_state \<times> (nat \<Rightarrow> imp_pointer) \<times>
     (nat \<Rightarrow> (string \<times> nat) option)" where
  "registry s = (kRmb (po_world s), next_address (po_world s), world_logger (po_world s), po_pointer s,
     po_bound s)"

lemma registry_produces: "registry (produces lib x s) = registry s"
  by (auto simp: produces_def registry_def PhpProducer_produce_def Let_def
      split: option.splits if_splits imp_pointer.splits prod.splits)

interpretation inits: critical_sections "produces lib" Searching "init_transit pt lib" registry
  "init_rest pt lib" init_rank for pt :: "'t ptree_lib" and lib
proof unfold_locales
  fix x s
  show "registry (produces lib x s) = registry s" by (rule registry_produces)
next
  fix l s t
  assume "registry s = registry t"
  then show "registry (init_rest pt lib l s) = registry (init_rest pt lib l t)"
    by (cases l) (auto simp: registry_def php_init_object_def PhpProducer_init_def init_transit_def Let_def
        split: option.split prod.split)
next
  fix l s
  assume "init_transit pt lib l s = None"
  then show "init_rest pt lib l s = s"
    by (cases l) (auto simp: init_transit_def Let_def split: option.splits prod.splits)
next
  fix l l' s s'
  assume t: "init_transit pt lib l s = Some (l', s')"
  then show "init_rest pt lib l' s' = init_rest pt lib l s"
    by (cases l) (auto simp: init_transit_def php_init_object_def PhpProducer_init_def Let_def
        init_key_def split: option.splits prod.splits if_splits)
  show "init_rank l' s' < init_rank l s"
    using t by (cases l) (auto simp: init_transit_def Let_def split: option.splits prod.splits if_splits)
qed

section \<open>One implementation for each key\<close>

definition bound_ok :: "php_objects \<Rightarrow> bool" where
  "bound_ok s \<longleftrightarrow> smap_ok (kRmb (po_world s)) \<and>
     (\<forall>i k a. po_bound s i = Some (k, a) \<longrightarrow>
        map_of (kRmb (po_world s)) k = Some a \<and> po_pointer s i = Pointer a)"

lemma bound_ok_registry: "registry s = registry t \<Longrightarrow> bound_ok s = bound_ok t"
  by (simp add: registry_def bound_ok_def)

text \<open>The map only gains keys.\<close>

definition extends :: "php_objects \<Rightarrow> php_objects \<Rightarrow> bool" where
  "extends s t \<longleftrightarrow> (\<forall>k a. map_of (kRmb (po_world s)) k = Some a \<longrightarrow> map_of (kRmb (po_world t)) k = Some a)"

lemma init_object_ok:
  assumes "bound_ok s"
  shows "bound_ok (php_init_object pt lib ic s) \<and> extends s (php_init_object pt lib ic s)"
proof (cases "map_of (kRmb (po_world s)) (init_key ic)")
  case None
  let ?w = "po_world s"
  obtain rt p where p: "producer_init pt lib (ic_cluster ic) (ic_log_path ic) (ic_topic ic)
      (ic_config_path ic) (producer_new (world_logger ?w)) = (rt, p)" by force
  have k: "map_of (smap_insert (init_key ic) a (kRmb ?w)) = (map_of (kRmb ?w))(init_key ic \<mapsto> a)" for a
    using assms None by (simp add: bound_ok_def map_of_smap_insert)
  show ?thesis
  proof (cases rt)
    case True
    with None p k assms show ?thesis
      by (auto simp: php_init_object_def PhpProducer_init_def init_key_def bound_ok_def extends_def Let_def
          map_invariants)
  next
    case False
    with None p assms show ?thesis
      by (auto simp: php_init_object_def PhpProducer_init_def init_key_def bound_ok_def extends_def Let_def)
  qed
next
  case (Some a)
  with assms show ?thesis
    by (auto simp: php_init_object_def PhpProducer_init_def init_key_def bound_ok_def extends_def Let_def)
qed

text \<open>The items of the threads, in one piece each.\<close>

definition php_item ::
  "'t ptree_lib \<Rightarrow> rk_lib \<Rightarrow> nat \<times> (nat \<times> string option \<times> string, init_call) item \<Rightarrow> php_objects \<Rightarrow>
     php_objects" where
  "php_item pt lib x s =
     (case snd x of Plain f \<Rightarrow> produces lib f s | Guarded ic \<Rightarrow> php_init_object pt lib ic s)"

lemma item_run_php: "critical_sections.item_run (produces lib) Searching (init_rest pt lib) = php_item pt lib"
  by (auto simp: inits.item_run_def php_item_def fun_eq_iff split: item.split)

lemma items_ok:
  "bound_ok s \<Longrightarrow> bound_ok (fold (php_item pt lib) tr s) \<and> extends s (fold (php_item pt lib) tr s)"
proof (induction tr arbitrary: s)
  case Nil
  then show ?case by (simp add: extends_def)
next
  case (Cons x tr)
  have "bound_ok (php_item pt lib x s) \<and> extends s (php_item pt lib x s)"
  proof (cases "snd x")
    case (Plain f)
    from registry_produces [of lib f s] have "kRmb (po_world (produces lib f s)) = kRmb (po_world s)"
      by (simp add: registry_def)
    with Plain Cons.prems bound_ok_registry [OF registry_produces [of lib f s]] show ?thesis
      by (simp add: php_item_def extends_def)
  next
    case (Guarded ic)
    with init_object_ok [OF Cons.prems] show ?thesis by (simp add: php_item_def)
  qed
  with Cons.IH [of "php_item pt lib x s"] show ?case by (auto simp: extends_def)
qed

text \<open>C28: With \<open>kRmtx\<close> the objects of the build without callbacks may be initialised and used by any
  number of threads at once. However the statements of \<open>init\<close> interleave with each other and with
  \<open>produce\<close> of other objects, whenever the mutex is free the map, the addresses handed out, the pointers
  and the results are those of the calls one after the other in the order in which they took the mutex.\<close>

theorem php_inits_serialise:
  assumes "machine_run (produces lib) Searching (init_transit pt lib) m tr m'" and "at_rest m"
    and "owner m' = None"
  shows "registry (shared m') = registry (fold (php_item pt lib) tr (shared m)) \<and>
     (\<forall>i. code m i = items_of i tr @ code m' i)"
  using inits.serialised(1) [OF assms] code_run [OF assms(1)] by (simp add: item_run_php)

definition demo_call :: "nat \<Rightarrow> init_call" where
  "demo_call i = \<lparr>ic_object = i, ic_cluster = ''h:1'', ic_log_path = '''', ic_config_path = ''c'', ic_topic = ''t''\<rparr>"

definition demo_objects ::
  "(php_objects, init_pc, nat \<times> string option \<times> string, init_call) machine" where
  "demo_objects = \<lparr>shared = \<lparr>po_world = world_start, po_pointer = (\<lambda>_. PhpProducer_new), po_bound = (\<lambda>_. None)\<rparr>,
     owner = None, inside = (\<lambda>_. None),
     code = (\<lambda>i. if i = 0 then [Guarded (demo_call 0)] else if i = 1 then [Guarded (demo_call 1)] else [])\<rparr>"

definition demo_php_file :: "ini ptree_lib" where
  "demo_php_file = ini_lib (\<lambda>_. Inr (Ini [] []))"

lemma demo_objects_runs:
  "\<exists>m'. machine_run (produces quiet_lib) Searching (init_transit demo_php_file quiet_lib) demo_objects
     [(1, Guarded (demo_call 1)), (0, Guarded (demo_call 0))] m' \<and> at_rest m' \<and> owner m' = None"
proof -
  let ?tr = "[(1, Guarded (demo_call 1)), (0, Guarded (demo_call 0))] ::
    (nat \<times> (nat \<times> string option \<times> string, init_call) item) list"
  have r: "at_rest demo_objects" by (simp add: demo_objects_def at_rest_def)
  have "\<forall>i. \<exists>rest. code demo_objects i = items_of i ?tr @ rest" by (auto simp: demo_objects_def)
  from inits.serial_run [OF r this, of quiet_lib demo_php_file] show ?thesis by (auto simp: at_rest_def)
qed

theorem php_inits_serialise_witness:
  "\<exists>m'. machine_run (produces quiet_lib) Searching (init_transit demo_php_file quiet_lib)
       demo_objects [(1, Guarded (demo_call 1)), (0, Guarded (demo_call 0))] m' \<and>
     registry (shared m') = registry (php_init_object demo_php_file quiet_lib (demo_call 0)
       (php_init_object demo_php_file quiet_lib (demo_call 1) (shared demo_objects)))"
proof -
  obtain m' where m': "machine_run (produces quiet_lib) Searching (init_transit demo_php_file quiet_lib)
      demo_objects [(1, Guarded (demo_call 1)), (0, Guarded (demo_call 0))] m'" "owner m' = None"
    using demo_objects_runs by blast
  have "at_rest demo_objects" by (simp add: demo_objects_def at_rest_def)
  from php_inits_serialise [OF m'(1) this m'(2)] m'(1) show ?thesis by (auto simp: php_item_def)
qed

text \<open>C17: No key ever has two implementations. After any interleaved use by any number of
  threads, at each moment when the mutex is free, an object whose last \<open>init\<close> succeeded points to the
  implementation that the map has for its key, hence two such objects with the same key share it; and a
  key that is in the map keeps its implementation for good.\<close>

theorem php_objects_share:
  assumes "machine_run (produces lib) Searching (init_transit pt lib) m tr m'" and "at_rest m"
    and "owner m' = None" and "bound_ok (shared m)" and "s = shared m'"
  shows "(\<forall>i k a. po_bound s i = Some (k, a) \<longrightarrow>
       map_of (kRmb (po_world s)) k = Some a \<and> po_pointer s i = Pointer a) \<and>
     (\<forall>i j k a b. po_bound s i = Some (k, a) \<and> po_bound s j = Some (k, b) \<longrightarrow> po_pointer s i = po_pointer s j) \<and>
     (\<forall>k a. map_of (kRmb (po_world (shared m))) k = Some a \<longrightarrow> map_of (kRmb (po_world s)) k = Some a)"
proof -
  let ?t = "fold (php_item pt lib) tr (shared m)"
  have r: "registry s = registry ?t"
    using inits.serialised(1) [OF assms(1-3)] by (simp add: item_run_php assms(5))
  from items_ok [OF assms(4), of pt lib tr] bound_ok_registry [OF r]
  have "bound_ok s" "extends (shared m) s" using r by (simp_all add: extends_def registry_def)
  then show ?thesis unfolding bound_ok_def extends_def by (metis option.inject)
qed

lemma demo_init_ok:
  "fst (producer_init demo_php_file quiet_lib ''h:1'' lp t ''c'' (producer_new lg))"
  by (simp add: producer_init_def producer_initRdKafkaConfig_def producer_initRdKafkaHandle_def
      demo_php_file_def ini_lib_def quiet_lib_def loadConfig_def find_char_def Let_def split: prod.split)

theorem php_objects_share_witness:
  "\<exists>m'. machine_run (produces quiet_lib) Searching (init_transit demo_php_file quiet_lib)
       demo_objects [(1, Guarded (demo_call 1)), (0, Guarded (demo_call 0))] m' \<and>
     po_pointer (shared m') 0 = Pointer 1 \<and> po_pointer (shared m') 1 = Pointer 1"
proof -
  obtain m' where m': "machine_run (produces quiet_lib) Searching (init_transit demo_php_file quiet_lib)
      demo_objects [(1, Guarded (demo_call 1)), (0, Guarded (demo_call 0))] m'" "owner m' = None"
    using demo_objects_runs by blast
  have r: "at_rest demo_objects" "bound_ok (shared demo_objects)"
    by (simp_all add: demo_objects_def at_rest_def bound_ok_def world_start_def)
  have "registry (shared m') = registry (php_init_object demo_php_file quiet_lib (demo_call 0)
       (php_init_object demo_php_file quiet_lib (demo_call 1) (shared demo_objects)))"
    using inits.serialised(1) [OF m'(1) r(1) m'(2)] by (simp add: item_run_php php_item_def)
  moreover obtain p where "producer_init demo_php_file quiet_lib ''h:1'' [] ''t'' ''c''
      (producer_new logger_start) = (True, p)"
    using demo_init_ok [of "[]" "''t''" logger_start] by (metis prod.collapse)
  ultimately have "po_bound (shared m') 0 = Some (''h:1tc'', 1)"
    "po_bound (shared m') 1 = Some (''h:1tc'', 1)"
    by (auto simp: registry_def php_init_object_def PhpProducer_init_def demo_call_def demo_objects_def
        init_key_def world_start_def Let_def)
  with conjunct1 [OF php_objects_share [OF m'(1) r(1) m'(2) r(2) refl], rule_format]
  have "po_pointer (shared m') 0 = Pointer 1" "po_pointer (shared m') 1 = Pointer 1" by simp_all
  with m'(1) show ?thesis by (intro exI [of _ m']) simp
qed

section \<open>Pulsar: operator[] without a lock\<close>

text \<open>The map with the addresses of its producers, and where each thread is in \<open>operator[]\<close>.\<close>

datatype lookup_pc = LookUp string | Emplace string nat | GotProducer nat | NoCall

record shared_map =
  sm_map :: "(string \<times> nat) list"
  sm_next :: nat
  sm_thread :: "nat \<Rightarrow> lookup_pc"

text \<open>\<open>emplace\<close> keeps an entry that is there; the caller gets the producer that it has made.\<close>

inductive lookup_step :: "shared_map \<Rightarrow> nat \<Rightarrow> shared_map \<Rightarrow> bool" where
  found: "sm_thread s i = LookUp k \<Longrightarrow> map_of (sm_map s) k = Some a \<Longrightarrow>
    lookup_step s i (s\<lparr>sm_thread := (sm_thread s)(i := GotProducer a)\<rparr>)"
| missing: "sm_thread s i = LookUp k \<Longrightarrow> map_of (sm_map s) k = None \<Longrightarrow>
    lookup_step s i (s\<lparr>sm_next := Suc (sm_next s),
      sm_thread := (sm_thread s)(i := Emplace k (sm_next s))\<rparr>)"
| emplace: "sm_thread s i = Emplace k a \<Longrightarrow>
    lookup_step s i (s\<lparr>sm_map := smap_insert k a (sm_map s),
      sm_thread := (sm_thread s)(i := GotProducer a)\<rparr>)"

inductive_simps lookup_step_iff: "lookup_step s i s'"

inductive lookup_run :: "shared_map \<Rightarrow> nat list \<Rightarrow> shared_map \<Rightarrow> bool" where
  run_none: "lookup_run s [] s"
| run_more: "lookup_step s i s1 \<Longrightarrow> lookup_run s1 is s2 \<Longrightarrow> lookup_run s (i # is) s2"

inductive_simps lookup_run_simps: "lookup_run s [] s'" "lookup_run s (i # is) s'"

definition two_lookups :: "string \<Rightarrow> (string \<times> nat) list \<Rightarrow> nat \<Rightarrow> shared_map" where
  "two_lookups k m a = \<lparr>sm_map = m, sm_next = a,
     sm_thread = (\<lambda>i. if i < 2 then LookUp k else NoCall)\<rparr>"

text \<open>C29: Without a lock two PHP objects may get two producers for one key. When a thread
  searches between the search and the insertion of another, the two get different producers and the
  map keeps the first, so that its destructor never flushes and closes the second; when one of the calls
  ends before the other begins, both get the one producer that is in the map.\<close>

theorem pulsar_map_race:
  assumes "smap_ok m" and "map_of m k = None"
  shows "(\<exists>s. lookup_run (two_lookups k m a) [0, 1, 0, 1] s \<and> sm_thread s 0 = GotProducer a \<and>
       sm_thread s 1 = GotProducer (Suc a) \<and> map_of (sm_map s) = (map_of m)(k \<mapsto> a)) \<and>
     (\<forall>s. lookup_run (two_lookups k m a) [0, 0, 1] s \<longrightarrow> sm_thread s 0 = GotProducer a \<and>
       sm_thread s 1 = GotProducer a \<and> map_of (sm_map s) = (map_of m)(k \<mapsto> a))"
proof (intro conjI allI impI)
  have ins: "map_of (smap_insert k b m) = (map_of m)(k \<mapsto> b)" for b
    using assms by (simp add: map_of_smap_insert)
  have twice: "map_of (smap_insert k b (smap_insert k a m)) = (map_of m)(k \<mapsto> a)" for b
    using assms ins [of a] by (simp add: map_of_smap_insert map_invariants)
  show "\<exists>s. lookup_run (two_lookups k m a) [0, 1, 0, 1] s \<and> sm_thread s 0 = GotProducer a \<and>
       sm_thread s 1 = GotProducer (Suc a) \<and> map_of (sm_map s) = (map_of m)(k \<mapsto> a)"
    using assms twice
    by (simp add: lookup_run_simps lookup_step_iff two_lookups_def)
  fix s
  assume r: "lookup_run (two_lookups k m a) [0, 0, 1] s"
  show "sm_thread s 0 = GotProducer a" "sm_thread s 1 = GotProducer a"
    "map_of (sm_map s) = (map_of m)(k \<mapsto> a)"
    using r assms ins
    by (auto simp: lookup_run_simps lookup_step_iff two_lookups_def)
qed

theorem pulsar_map_race_witness:
  "\<exists>s. lookup_run (two_lookups ''htc'' [] 1) [0, 1, 0, 1] s \<and> sm_thread s 0 = GotProducer 1 \<and>
     sm_thread s 1 = GotProducer 2"
  using pulsar_map_race [OF smap_ok_Nil, of "''htc''" 1] by auto

end
