(* ===== verification/Pulsar_Consumer.thy ===== *)
theory Pulsar_Consumer
  imports Pulsar_Config Pulsar_Lib Std_Map
begin

text \<open>
  The Pulsar consumer (pulsar/qbus_consumer.cc) and its PHP variant (pulsar/qbus_php_consumer.cc).
  The consumer remembers, per topic, the id of the last message it received and acknowledges it
  cumulatively when the timer's interval has passed; \<open>consume_body\<close> is one iteration of the loop
  that \<open>start\<close> runs in a thread. \<open>user\<close> is the callback: it maps the state in which it is called to
  the message infos that it passes to \<open>commitOffset\<close>.

  \<open>init\<close> catches only the exceptions of \<open>loadConfig\<close>; its result is \<open>exn + bool\<close>, and the state is
  the one in which the exception left the object.
\<close>

section \<open>Topic names\<close>

definition removePartitionSuffix :: "string \<Rightarrow> string" where
  "removePartitionSuffix topic =
     (case rfind topic ''-partition-'' of
        Some pos \<Rightarrow> (if c_isdigit (last topic) then take pos topic else topic)
      | None \<Rightarrow> topic)"

section \<open>State\<close>

record pulsar_consumer = pl_client +
  client :: bool
  has_subscribed :: bool
  consumer_cb :: bool                     \<comment> \<open>\<open>consumer_cb_\<close> is not NULL\<close>
  subscription_initial_position :: "initial_position option"
  topic_prefix :: string
  default_subscription :: string
  consumer_conf :: "consumer_config option"
  running :: bool
  topic_latest_msg_id_map :: "(string \<times> message_id) list"
  timer_state :: timer

definition pulsar_consumer_new :: pulsar_consumer where
  "pulsar_consumer_new = \<lparr>
     pl_calls = [], client = False, has_subscribed = False, consumer_cb = False,
     subscription_initial_position = None, topic_prefix = '''', default_subscription = '''',
     consumer_conf = None, running = False, topic_latest_msg_id_map = [],
     timer_state = timer_new\<rparr>"

text \<open>\<open>assert\<close> and the arrow operator: the configuration exists once \<open>init\<close> has run.\<close>

definition the_conf :: "pulsar_consumer \<Rightarrow> consumer_config" where
  "the_conf c = (case consumer_conf c of Some conf \<Rightarrow> conf | None \<Rightarrow> consumer_config_default)"

section \<open>init\<close>

definition pulsar_init_client ::
  "'t ptree_lib \<Rightarrow> 't \<Rightarrow> string \<Rightarrow> pulsar_consumer \<Rightarrow> (exn + bool) \<times> pulsar_consumer" where
  "pulsar_init_client pt cfg log_path c =
     (let level = pc_log_level pt cfg;
          conf = pc_consumer_config pt cfg;
          c = c\<lparr>consumer_conf := Some conf\<rparr>
      in case pc_broker pt cfg of
           Inl e \<Rightarrow> (Inl e, c)
         | Inr url \<Rightarrow>
             (let c = (pl_emit (PlClient url (cc_auth_jwt conf) level log_path) c)\<lparr>client := True\<rparr>
              in case pc_topic_prefix pt cfg of
                   Inl e \<Rightarrow> (Inl e, c)
                 | Inr pre \<Rightarrow>
                     (let c = c\<lparr>topic_prefix := pre\<rparr> in
                      case pc_subscription pt cfg of
                        Inl e \<Rightarrow> (Inl e, c)
                      | Inr sub \<Rightarrow>
                          (let c = c\<lparr>default_subscription := sub\<rparr>;
                               c = c\<lparr>subscription_initial_position := Some (cc_initial_position conf)\<rparr>;
                               c = c\<lparr>timer_state :=
                                       Timer_setIntervalMs (cc_manual_commit_time_ms conf) (timer_state c)\<rparr>
                           in (Inr True, c\<lparr>consumer_cb := True\<rparr>)))))"

definition pulsar_init ::
  "'t ptree_lib \<Rightarrow> string \<Rightarrow> string \<Rightarrow> string \<Rightarrow> pulsar_consumer \<Rightarrow> (exn + bool) \<times> pulsar_consumer" where
  "pulsar_init pt broker log_path config_path c =
     (if client c then (Inr False, c)
      else case pc_loadConfig pt config_path of
             Inl e \<Rightarrow> (Inr False, c)
           | Inr cfg \<Rightarrow>
               pulsar_init_client pt
                 (if broker \<noteq> '''' then pc_put pt KEY_BROKER broker cfg else cfg) log_path c)"

section \<open>subscribe, start\<close>

definition pulsar_subscribe ::
  "pulsar_lib \<Rightarrow> string \<Rightarrow> string list \<Rightarrow> pulsar_consumer \<Rightarrow> bool \<times> pulsar_consumer" where
  "pulsar_subscribe lib subscription topics c =
     (if \<not> client c then (False, c)
      else
        (let full_topics = map (\<lambda>topic. topic_prefix c @ topic) topics;
             actual_subscription = (if subscription = '''' then default_subscription c else subscription);
             result = pl_subscribe lib (pl_calls c);
             c = pl_emit (PlSubscribe full_topics actual_subscription) c
         in if result \<noteq> ResultOk then (False, c) else (True, c\<lparr>has_subscribed := True\<rparr>)))"

definition pulsar_subscribeOne ::
  "pulsar_lib \<Rightarrow> string \<Rightarrow> string \<Rightarrow> pulsar_consumer \<Rightarrow> bool \<times> pulsar_consumer" where
  "pulsar_subscribeOne lib subscription topic c =
     (if \<not> client c then (False, c)
      else
        (let actual_subscription = (if subscription = '''' then default_subscription c else subscription);
             result = pl_subscribe lib (pl_calls c);
             c = pl_emit (PlSubscribeOne (topic_prefix c @ topic) actual_subscription) c
         in if result \<noteq> ResultOk then (False, c) else (True, c\<lparr>has_subscribed := True\<rparr>)))"

definition timer_start :: "pulsar_lib \<Rightarrow> pulsar_consumer \<Rightarrow> pulsar_consumer" where
  "timer_start lib c =
     (let now = pl_now lib (pl_calls c)
      in (pl_emit PlNow c)\<lparr>timer_state := Timer_start now (timer_state c)\<rparr>)"

text \<open>\<open>start\<close> and the first action of the thread it makes, \<open>timer_.start()\<close>.\<close>

definition pulsar_start :: "pulsar_lib \<Rightarrow> pulsar_consumer \<Rightarrow> bool \<times> pulsar_consumer" where
  "pulsar_start lib c =
     (if \<not> client c then (False, c)
      else if running c then (False, c)
      else if \<not> has_subscribed c then (False, c)
      else (True, timer_start lib (c\<lparr>running := True\<rparr>)))"

section \<open>Acknowledging\<close>

definition acknowledge ::
  "pulsar_lib \<Rightarrow> message_id \<Rightarrow> pulsar_consumer \<Rightarrow> bool \<times> pulsar_consumer" where
  "acknowledge lib mid c =
     (let result = pl_ack lib (pl_calls c) mid
      in (result = ResultOk, pl_emit (PlAck mid) c))"

definition ack_topic :: "pulsar_lib \<Rightarrow> pulsar_consumer \<Rightarrow> string \<Rightarrow> pulsar_consumer" where
  "ack_topic lib c topic =
     (case map_of (topic_latest_msg_id_map c) topic of
        None \<Rightarrow> c
      | Some mid \<Rightarrow>
          (if mid \<noteq> None then
             (let (ok, c) = acknowledge lib mid c in
              if ok then c\<lparr>topic_latest_msg_id_map :=
                             smap_assign topic None (topic_latest_msg_id_map c)\<rparr>
              else c)
           else c))"

definition acknowledgeAll :: "pulsar_lib \<Rightarrow> pulsar_consumer \<Rightarrow> pulsar_consumer" where
  "acknowledgeAll lib c =
     foldl (ack_topic lib) c (pl_order lib (map fst (topic_latest_msg_id_map c)))"

definition checkTimeThenAcknowledgeAll :: "pulsar_lib \<Rightarrow> pulsar_consumer \<Rightarrow> pulsar_consumer" where
  "checkTimeThenAcknowledgeAll lib c =
     (if cc_manual_ack (the_conf c) then c
      else
        (let now = pl_now lib (pl_calls c);
             (interval_ms, t) = Timer_stop now (timer_state c);
             c = (pl_emit PlNow c)\<lparr>timer_state := t\<rparr>
         in if interval_ms \<ge> timer_interval_ms (timer_state c) then acknowledgeAll lib c else c))"

definition pulsar_commitOffset :: "pulsar_lib \<Rightarrow> pulsar_info \<Rightarrow> pulsar_consumer \<Rightarrow> pulsar_consumer" where
  "pulsar_commitOffset lib info c =
     (if \<not> client c then c
      else snd (acknowledge lib (pl_deserialize lib (pi_msg_id info)) c))"

section \<open>The consume loop\<close>

text \<open>\<open>consume(Message&)\<close>: the message, if the result is \<open>ResultOk\<close>.\<close>

definition consume_msg ::
  "pulsar_lib \<Rightarrow> pulsar_consumer \<Rightarrow> pl_result \<times> pl_message \<times> pulsar_consumer" where
  "consume_msg lib c =
     (let timeout = cc_poll_timeout_ms (the_conf c);
          (result, msg) = pl_receive lib (pl_calls c) timeout;
          c = pl_emit (PlReceive timeout) c;
          c = pl_emit (PlReceived result (if result = ResultOk then Some msg else None)) c;
          c = (if result = ResultOk
               then c\<lparr>topic_latest_msg_id_map :=
                        smap_assign (pm_topic msg) (pm_id msg) (topic_latest_msg_id_map c)\<rparr>
               else c)
      in (result, msg, c))"

definition convertMessage :: "pulsar_lib \<Rightarrow> pl_message \<Rightarrow> pulsar_info" where
  "convertMessage lib msg =
     \<lparr>pi_topic = removePartitionSuffix (pm_topic msg), pi_msg = pm_data msg,
      pi_msg_len = length (pm_data msg), pi_msg_id = pl_serialize lib (pm_id msg)\<rparr>"

definition user_commits :: "pulsar_lib \<Rightarrow> pulsar_info list \<Rightarrow> pulsar_consumer \<Rightarrow> pulsar_consumer" where
  "user_commits lib infos c = foldl (\<lambda>c info. pulsar_commitOffset lib info c) c infos"

definition deliver_msg ::
  "pulsar_lib \<Rightarrow> (pulsar_consumer \<Rightarrow> pulsar_info list) \<Rightarrow> pl_message \<Rightarrow> pulsar_consumer \<Rightarrow>
     pulsar_consumer" where
  "deliver_msg lib user msg c =
     (let c = (if cc_manual_ack (the_conf c)
               then pl_emit (PlDeliverForCommit (pm_id msg) (convertMessage lib msg)) c
               else pl_emit (PlDeliver (pm_id msg) (removePartitionSuffix (pm_topic msg)) (pm_data msg)
                              (length (pm_data msg))) c)
      in user_commits lib (user c) c)"

definition consume_body ::
  "pulsar_lib \<Rightarrow> (pulsar_consumer \<Rightarrow> pulsar_info list) \<Rightarrow> pulsar_consumer \<Rightarrow> pulsar_consumer" where
  "consume_body lib user c =
     (let (result, msg, c) = consume_msg lib c;
          c = (if result = ResultOk then deliver_msg lib user msg c else c)
      in checkTimeThenAcknowledgeAll lib c)"

fun consume_loop ::
  "nat \<Rightarrow> pulsar_lib \<Rightarrow> (pulsar_consumer \<Rightarrow> pulsar_info list) \<Rightarrow> pulsar_consumer \<Rightarrow> pulsar_consumer" where
  "consume_loop 0 lib user c = c"
| "consume_loop (Suc n) lib user c = consume_loop n lib user (consume_body lib user c)"

section \<open>stop and the destructor\<close>

text \<open>
  Without \<open>force.stop\<close> the call waits for the thread, which is then past its last iteration; with it
  the state may be one in the middle of an iteration.
\<close>

definition pulsar_stop :: "pulsar_lib \<Rightarrow> pulsar_consumer \<Rightarrow> pulsar_consumer" where
  "pulsar_stop lib c =
     (if \<not> client c then c
      else if \<not> running c then c
      else acknowledgeAll lib (c\<lparr>running := False\<rparr>))"

definition pulsar_destroy :: "pulsar_lib \<Rightarrow> pulsar_consumer \<Rightarrow> pulsar_consumer" where
  "pulsar_destroy lib c =
     (if client c
      then pl_emit PlCloseClient (pl_emit PlCloseConsumer (acknowledgeAll lib c))
      else c)"

definition pulsar_pause :: "string list \<Rightarrow> pulsar_consumer \<Rightarrow> bool \<times> pulsar_consumer" where
  "pulsar_pause topics c = (False, c)"

definition pulsar_resume :: "string list \<Rightarrow> pulsar_consumer \<Rightarrow> bool \<times> pulsar_consumer" where
  "pulsar_resume topics c = (False, c)"

definition pulsar_consume :: "pulsar_consumer \<Rightarrow> bool \<times> pulsar_info option \<times> pulsar_consumer" where
  "pulsar_consume c = (False, None, c)"

section \<open>The PHP consumer\<close>

text \<open>Its member \<open>consumer_\<close> is a consumer, the only state; four functions call the same function of it,
  and a proof about them is one about that function.\<close>

definition php_init ::
  "'t ptree_lib \<Rightarrow> string \<Rightarrow> string \<Rightarrow> string \<Rightarrow> pulsar_consumer \<Rightarrow> (exn + bool) \<times> pulsar_consumer" where
  [simp]: "php_init pt cluster_name log_path config_path c =
     pulsar_init pt cluster_name log_path config_path c"

definition php_subscribe ::
  "pulsar_lib \<Rightarrow> string \<Rightarrow> string list \<Rightarrow> pulsar_consumer \<Rightarrow> bool \<times> pulsar_consumer" where
  [simp]: "php_subscribe lib subscription topics c = pulsar_subscribe lib subscription topics c"

definition php_subscribeOne ::
  "pulsar_lib \<Rightarrow> string \<Rightarrow> string \<Rightarrow> pulsar_consumer \<Rightarrow> bool \<times> pulsar_consumer" where
  [simp]: "php_subscribeOne lib subscription topic c = pulsar_subscribeOne lib subscription topic c"

definition php_commitOffset :: "pulsar_lib \<Rightarrow> pulsar_info \<Rightarrow> pulsar_consumer \<Rightarrow> pulsar_consumer" where
  [simp]: "php_commitOffset lib info c = pulsar_commitOffset lib info c"

definition php_start :: "pulsar_lib \<Rightarrow> pulsar_consumer \<Rightarrow> bool \<times> pulsar_consumer" where
  "php_start lib c =
     (if \<not> client c then (False, c)
      else if running c then (False, c)
      else if \<not> has_subscribed c then (False, c)
      else (True, (timer_start lib c)\<lparr>running := True\<rparr>))"

definition php_stop :: "pulsar_consumer \<Rightarrow> pulsar_consumer" where
  "php_stop c = (if \<not> client c then c else if \<not> running c then c else c\<lparr>running := False\<rparr>)"

definition php_pause :: "string list \<Rightarrow> pulsar_consumer \<Rightarrow> (exn + bool) \<times> pulsar_consumer" where
  "php_pause topics c = (Inl (ThrownText ''PHP not supported''), c)"

definition php_resume :: "string list \<Rightarrow> pulsar_consumer \<Rightarrow> (exn + bool) \<times> pulsar_consumer" where
  "php_resume topics c = (Inl (ThrownText ''PHP not supported''), c)"

text \<open>The deferred acknowledgement runs when the function returns, after the info was filled.\<close>

definition php_consume ::
  "pulsar_lib \<Rightarrow> pulsar_consumer \<Rightarrow> bool \<times> pulsar_info option \<times> pulsar_consumer" where
  "php_consume lib c =
     (if \<not> running c then (False, None, c)
      else
        (let (result, msg, c) = consume_msg lib c;
             (rt, info) = (if result \<noteq> ResultOk then (False, None)
                           else (True, Some (convertMessage lib msg)))
         in (rt, info, checkTimeThenAcknowledgeAll lib c)))"

end
