(* ===== verification/Pulsar_Consumer_Props.thy ===== *)
theory Pulsar_Consumer_Props
  imports Pulsar_Consumer Qbus_Interface
begin

text \<open>
  Properties of the Pulsar consumer: topic names, initialisation, the acknowledgements of the loop
  and of \<open>stop\<close>, and what \<open>commitOffset\<close> acknowledges.
\<close>

section \<open>Topic names\<close>

lemma show_nat_no_minus: "CHR ''-'' \<notin> set (show_nat n)"
  using show_nat_digits [of "CHR ''-''" n] by auto

lemma rfind_partition_suffix:
  "rfind (t @ ''-partition-'' @ show_nat n) ''-partition-'' = Some (length t)"
proof (rule rfind_append_last)
  fix i
  assume i: "i \<le> length (''-partition-'' @ show_nat n)" "0 < i"
  show "\<not> prefix ''-partition-'' (drop i (''-partition-'' @ show_nat n))"
  proof (cases "i < 11")
    case True
    then have "i = 1 \<or> i = 2 \<or> i = 3 \<or> i = 4 \<or> i = 5 \<or> i = 6 \<or> i = 7 \<or> i = 8 \<or> i = 9 \<or> i = 10"
      using i(2) by arith
    moreover have "\<not> prefix ''partition-'' (show_nat n)"
      using show_nat_no_minus [of n] by (auto simp: prefix_def)
    ultimately show ?thesis by (elim disjE) (simp_all add: numeral_eq_Suc)
  next
    case False
    then have "drop i ''-partition-'' = []" by simp
    then have "drop i (''-partition-'' @ show_nat n) = drop (i - 11) (show_nat n)"
      by (subst drop_append) (simp add: numeral_eq_Suc)
    moreover have "CHR ''-'' \<notin> set (drop (i - 11) (show_nat n))"
      using show_nat_no_minus [of n] in_set_dropD by metis
    ultimately show ?thesis by (auto simp: prefix_def)
  qed
qed simp_all

text \<open>For every topic and partition number, the topic that the callback and \<open>QbusMsgContentInfo\<close>
  report is the one that was subscribed: \<open>removePartitionSuffix\<close> undoes the suffix that Pulsar puts
  on the name of a partition, whatever the topic's name contains.\<close>

theorem removePartitionSuffix_partition:
  "removePartitionSuffix (t @ ''-partition-'' @ show_nat n) = t"
proof -
  have "c_isdigit (last (t @ ''-partition-'' @ show_nat n))"
    using show_nat_digits [OF last_in_set [OF show_nat_ne [of n]]] by simp
  then show ?thesis
    using rfind_partition_suffix [of t n] by (simp add: removePartitionSuffix_def)
qed

lemma rfind_sublist: "pat \<noteq> [] \<Longrightarrow> rfind s pat = None \<longleftrightarrow> \<not> sublist pat s"
  by (induction s) (auto simp: sublist_Cons_right split: option.split)

lemma rfind_less: "pat \<noteq> [] \<Longrightarrow> rfind s pat = Some i \<Longrightarrow> i < length s"
  by (induction s arbitrary: i) (auto split: option.splits if_splits)

text \<open>A topic that is not partitioned is reported under its own name unless it contains
  \<open>-partition-\<close> and ends in a digit; such a name is cut.\<close>

theorem removePartitionSuffix_plain:
  "removePartitionSuffix topic = topic \<longleftrightarrow>
     \<not> (sublist ''-partition-'' topic \<and> c_isdigit (last topic))"
proof (cases "rfind topic ''-partition-''")
  case None
  with rfind_sublist [of "''-partition-''" topic] show ?thesis
    by (simp add: removePartitionSuffix_def)
next
  case (Some pos)
  then have "pos < length topic" using rfind_less [of "''-partition-''" topic pos] by simp
  then have "length (take pos topic) \<noteq> length topic" by simp
  then have "take pos topic \<noteq> topic" by metis
  with Some rfind_sublist [of "''-partition-''" topic] show ?thesis
    by (simp add: removePartitionSuffix_def)
qed

section \<open>Acknowledging\<close>

text \<open>The ids that wait for an acknowledgement, in a given order of the topics.\<close>

definition pending :: "(string \<rightharpoonup> message_id) \<Rightarrow> string list \<Rightarrow> message_id list" where
  "pending m ks = concat (map (\<lambda>k. case m k of Some (Some i) \<Rightarrow> [Some i] | _ \<Rightarrow> []) ks)"

lemma ack_topic_calls:
  "pl_calls (ack_topic lib c k) = pl_calls c @ map PlAck (pending (map_of (topic_latest_msg_id_map c)) [k])"
  by (simp add: ack_topic_def acknowledge_def pending_def Let_def split: option.split)

lemma ack_topic_other:
  "k' \<noteq> k \<Longrightarrow> map_of (topic_latest_msg_id_map (ack_topic lib c k)) k' =
     map_of (topic_latest_msg_id_map c) k'"
  by (simp add: ack_topic_def acknowledge_def Let_def map_of_smap_assign pl_emit_def
      split: option.split)

lemma ack_topic_same:
  "map_of (topic_latest_msg_id_map (ack_topic lib c k)) k =
     (case map_of (topic_latest_msg_id_map c) k of
        Some (Some i) \<Rightarrow> (if pl_ack lib (pl_calls c) (Some i) = ResultOk then Some None else Some (Some i))
      | x \<Rightarrow> x)"
  by (simp add: ack_topic_def acknowledge_def Let_def map_of_smap_assign pl_emit_def
      split: option.split)

lemma ack_topic_frame [simp]:
  "client (ack_topic lib c k) = client c" "running (ack_topic lib c k) = running c"
  "consumer_conf (ack_topic lib c k) = consumer_conf c"
  "timer_state (ack_topic lib c k) = timer_state c"
  by (simp_all add: ack_topic_def acknowledge_def Let_def pl_emit_def split: option.split)

lemma acknowledgeAll_frame [simp]:
  "client (acknowledgeAll lib c) = client c" "running (acknowledgeAll lib c) = running c"
  "consumer_conf (acknowledgeAll lib c) = consumer_conf c"
  "timer_state (acknowledgeAll lib c) = timer_state c"
  unfolding acknowledgeAll_def by (simp_all add: foldl_frame)

lemma pending_cong: "(\<And>k. k \<in> set ks \<Longrightarrow> m k = m' k) \<Longrightarrow> pending m ks = pending m' ks"
  unfolding pending_def by (metis (no_types, lifting) map_eq_conv)

lemma ack_fold_calls:
  "distinct ks \<Longrightarrow> pl_calls (foldl (ack_topic lib) c ks) =
     pl_calls c @ map PlAck (pending (map_of (topic_latest_msg_id_map c)) ks)"
proof (induction ks arbitrary: c)
  case (Cons k ks)
  have "pending (map_of (topic_latest_msg_id_map (ack_topic lib c k))) ks =
      pending (map_of (topic_latest_msg_id_map c)) ks"
    by (rule pending_cong, rule ack_topic_other) (use Cons.prems in auto)
  with Cons show ?case by (simp add: ack_topic_calls) (simp add: pending_def)
qed (simp add: pending_def)

lemma ack_fold_map:
  "map_of (topic_latest_msg_id_map (foldl (ack_topic lib) c ks)) k = map_of (topic_latest_msg_id_map c) k \<or>
   map_of (topic_latest_msg_id_map (foldl (ack_topic lib) c ks)) k = Some None"
proof (induction ks arbitrary: c)
  case (Cons k' ks)
  have "map_of (topic_latest_msg_id_map (ack_topic lib c k')) k \<in>
      {map_of (topic_latest_msg_id_map c) k, Some None}"
    using ack_topic_other [of k k' lib c] ack_topic_same [of lib c k]
    by (cases "k = k'") (auto split: option.splits if_splits)
  with Cons.IH [of "ack_topic lib c k'"] show ?case by auto
qed simp

lemma ack_fold_accepted:
  assumes "\<forall>log i. pl_ack lib log i = ResultOk" and "k \<in> set ks"
    and "map_of (topic_latest_msg_id_map c) k \<noteq> None"
  shows "map_of (topic_latest_msg_id_map (foldl (ack_topic lib) c ks)) k = Some None"
  using assms(2,3)
proof (induction ks arbitrary: c)
  case (Cons k' ks)
  show ?case
  proof (cases "k = k'")
    case True
    have "map_of (topic_latest_msg_id_map (ack_topic lib c k)) k = Some None"
      using ack_topic_same [of lib c k] assms(1) Cons.prems(2) by (auto split: option.splits)
    then show ?thesis
      using ack_fold_map [of lib "ack_topic lib c k" ks k] True by auto
  next
    case False
    with Cons show ?thesis using ack_topic_other [of k k' lib c] by simp
  qed
qed simp

definition map_ok :: "pulsar_consumer \<Rightarrow> bool" where
  "map_ok c \<longleftrightarrow> smap_ok (topic_latest_msg_id_map c)"

lemma order_distinct:
  assumes "order_law lib" and "map_ok c"
  shows "distinct (pl_order lib (map fst (topic_latest_msg_id_map c)))"
    and "set (pl_order lib (map fst (topic_latest_msg_id_map c))) = dom (map_of (topic_latest_msg_id_map c))"
proof -
  have m: "mset (pl_order lib (map fst (topic_latest_msg_id_map c))) =
      mset (map fst (topic_latest_msg_id_map c))"
    using assms(1) by (simp add: order_law_def)
  then show "distinct (pl_order lib (map fst (topic_latest_msg_id_map c)))"
    using assms(2) smap_ok_distinct by (metis map_ok_def mset_eq_imp_distinct_iff)
  from m show "set (pl_order lib (map fst (topic_latest_msg_id_map c))) =
      dom (map_of (topic_latest_msg_id_map c))"
    by (metis dom_map_of_conv_image_fst list.set_map mset_eq_setD)
qed

text \<open>C23: \<open>acknowledgeAll\<close>, in whatever order the hash map is traversed, each entry once, requests the
  acknowledgement of each id that waits in the map exactly once, and of nothing else; an entry of the map
  is only ever emptied. When the library accepts every acknowledgement, no id waits any longer.\<close>

theorem acknowledgeAll_each_once:
  assumes "order_law lib" and "map_ok c"
  shows "\<exists>ids. pl_calls (acknowledgeAll lib c) = pl_calls c @ map PlAck ids \<and>
      mset ids = image_mset (\<lambda>k. the (map_of (topic_latest_msg_id_map c) k))
        (mset_set {k. \<exists>i. map_of (topic_latest_msg_id_map c) k = Some (Some i)}) \<and>
      (\<forall>k. map_of (topic_latest_msg_id_map (acknowledgeAll lib c)) k \<in>
         {map_of (topic_latest_msg_id_map c) k, Some None}) \<and>
      ((\<forall>log i. pl_ack lib log i = ResultOk) \<longrightarrow>
         (\<forall>k i. map_of (topic_latest_msg_id_map (acknowledgeAll lib c)) k \<noteq> Some (Some i)))"
proof -
  let ?m = "map_of (topic_latest_msg_id_map c)"
  let ?ks = "pl_order lib (map fst (topic_latest_msg_id_map c))"
  note d = order_distinct [OF assms]
  have p: "mset (pending ?m ks) = image_mset (\<lambda>k. the (?m k))
      (mset_set {k \<in> set ks. \<exists>i. ?m k = Some (Some i)})" if "distinct ks" for ks
    using that
  proof (induction ks)
    case (Cons k ks)
    show ?case
    proof (cases "\<exists>i. ?m k = Some (Some i)")
      case True
      then obtain i where i: "?m k = Some (Some i)" by blast
      then have "{x \<in> set (k # ks). \<exists>i. ?m x = Some (Some i)} =
          insert k {x \<in> set ks. \<exists>i. ?m x = Some (Some i)}" by auto
      with Cons i show ?thesis by (simp add: pending_def)
    next
      case False
      then have "{x \<in> set (k # ks). \<exists>i. ?m x = Some (Some i)} =
          {x \<in> set ks. \<exists>i. ?m x = Some (Some i)}" by auto
      with Cons False show ?thesis by (auto simp: pending_def split: option.splits)
    qed
  qed (simp add: pending_def)
  have "{k \<in> set ?ks. \<exists>i. ?m k = Some (Some i)} = {k. \<exists>i. ?m k = Some (Some i)}"
    unfolding d(2) by auto
  with p [OF d(1)] have "mset (pending ?m ?ks) = image_mset (\<lambda>k. the (?m k))
      (mset_set {k. \<exists>i. ?m k = Some (Some i)})" by simp
  moreover have "pl_calls (acknowledgeAll lib c) = pl_calls c @ map PlAck (pending ?m ?ks)"
    unfolding acknowledgeAll_def by (rule ack_fold_calls [OF d(1)])
  moreover have "map_of (topic_latest_msg_id_map (acknowledgeAll lib c)) k \<in> {?m k, Some None}" for k
    unfolding acknowledgeAll_def using ack_fold_map [of lib c ?ks k] by simp
  moreover have "map_of (topic_latest_msg_id_map (acknowledgeAll lib c)) k \<noteq> Some (Some i)"
    if "\<forall>log i. pl_ack lib log i = ResultOk" for k i
  proof (cases "?m k")
    case None
    with calculation(3) [of k] show ?thesis by auto
  next
    case (Some x)
    then have "k \<in> set ?ks" unfolding d(2) by blast
    with ack_fold_accepted [OF that, of k ?ks c] Some show ?thesis
      by (simp add: acknowledgeAll_def)
  qed
  ultimately show ?thesis by blast
qed

theorem acknowledgeAll_each_once_witness:
  "\<exists>ids. pl_calls (acknowledgeAll quiet_pulsar (pulsar_consumer_new
       \<lparr>topic_latest_msg_id_map := [(''a'', Some 3), (''b'', None)]\<rparr>)) = map PlAck ids"
  using acknowledgeAll_each_once [OF quiet_pulsar_laws(2),
      of "pulsar_consumer_new\<lparr>topic_latest_msg_id_map := [(''a'', Some 3), (''b'', None)]\<rparr>"]
  by (auto simp: map_ok_def smap_ok_def pulsar_consumer_new_def)

section \<open>Delivery before acknowledgement\<close>

definition delivered :: "pl_call list \<Rightarrow> message_id set" where
  "delivered log = {i. \<exists>x \<in> set log. (\<exists>t p n. x = PlDeliver i t p n) \<or> (\<exists>info. x = PlDeliverForCommit i info)}"

definition acked_after_delivery :: "pl_call list \<Rightarrow> bool" where
  "acked_after_delivery log \<longleftrightarrow> (\<forall>xs i ys. log = xs @ PlAck i # ys \<longrightarrow> i \<in> delivered xs)"

lemma delivered_append [simp]: "delivered (a @ b) = delivered a \<union> delivered b"
  unfolding delivered_def set_append by blast

lemma delivered_simps [simp]:
  "delivered [] = {}" "delivered [PlDeliver i t p n] = {i}" "delivered [PlDeliverForCommit i info] = {i}"
  "delivered (map PlAck ids) = {}" "delivered [PlNow] = {}" "delivered [PlReceive k] = {}"
  "delivered [PlReceived r m] = {}" "delivered [PlReceive k, PlReceived r m] = {}"
  by (auto simp: delivered_def)

lemma acked_after_snoc:
  "acked_after_delivery (log @ [x]) \<longleftrightarrow>
     acked_after_delivery log \<and> (\<forall>i. x = PlAck i \<longrightarrow> i \<in> delivered log)"
proof
  assume a: "acked_after_delivery (log @ [x])"
  have "i \<in> delivered xs" if "log = xs @ PlAck i # ys" for xs i ys
    using a that by (auto simp: acked_after_delivery_def)
  with a show "acked_after_delivery log \<and> (\<forall>i. x = PlAck i \<longrightarrow> i \<in> delivered log)"
    by (auto simp: acked_after_delivery_def)
next
  assume a: "acked_after_delivery log \<and> (\<forall>i. x = PlAck i \<longrightarrow> i \<in> delivered log)"
  have "i \<in> delivered xs" if "log @ [x] = xs @ PlAck i # ys" for xs i ys
    using a that by (cases ys rule: rev_cases) (auto simp: acked_after_delivery_def)
  then show "acked_after_delivery (log @ [x])" by (auto simp: acked_after_delivery_def)
qed

lemma acked_after_acks:
  "acked_after_delivery log \<Longrightarrow> set ids \<subseteq> delivered log \<Longrightarrow> acked_after_delivery (log @ map PlAck ids)"
proof (induction ids rule: rev_induct)
  case (snoc i ids)
  then show ?case by (simp add: acked_after_snoc flip: append_assoc)
qed simp

text \<open>The state between two iterations of the loop in automatic mode.\<close>

definition auto_ok :: "pulsar_consumer \<Rightarrow> bool" where
  "auto_ok c \<longleftrightarrow> map_ok c \<and> acked_after_delivery (pl_calls c) \<and>
     (\<forall>k i. map_of (topic_latest_msg_id_map c) k = Some (Some i) \<longrightarrow> Some i \<in> delivered (pl_calls c))"

lemma set_pending: "Some i \<in> set (pending m ks) \<Longrightarrow> \<exists>k. m k = Some (Some i)"
  by (auto simp: pending_def split: option.splits)

lemma pending_Some: "x \<in> set (pending m ks) \<Longrightarrow> \<exists>i. x = Some i"
  by (auto simp: pending_def split: option.splits)

lemma map_ok_ack_topic: "map_ok c \<Longrightarrow> map_ok (ack_topic lib c k)"
  by (simp add: map_ok_def ack_topic_def acknowledge_def Let_def pl_emit_def map_invariants
      split: option.split)

lemma map_ok_acknowledgeAll: "map_ok c \<Longrightarrow> map_ok (acknowledgeAll lib c)"
  unfolding acknowledgeAll_def by (rule foldl_invariant) (auto intro: map_ok_ack_topic)

lemma acknowledgeAll_calls:
  "order_law lib \<Longrightarrow> map_ok c \<Longrightarrow> pl_calls (acknowledgeAll lib c) = pl_calls c @
     map PlAck (pending (map_of (topic_latest_msg_id_map c))
       (pl_order lib (map fst (topic_latest_msg_id_map c))))"
  unfolding acknowledgeAll_def by (intro ack_fold_calls order_distinct)

lemma auto_ok_acknowledgeAll:
  assumes "order_law lib" and "auto_ok c"
  shows "auto_ok (acknowledgeAll lib c)"
proof -
  let ?p = "pending (map_of (topic_latest_msg_id_map c))
       (pl_order lib (map fst (topic_latest_msg_id_map c)))"
  have m: "map_ok c" using assms(2) by (simp add: auto_ok_def)
  note calls = acknowledgeAll_calls [OF assms(1) m]
  have "x \<in> delivered (pl_calls c)" if "x \<in> set ?p" for x
    using that pending_Some [OF that] set_pending assms(2) by (fastforce simp: auto_ok_def)
  then have "acked_after_delivery (pl_calls (acknowledgeAll lib c))"
    using assms(2) unfolding calls by (intro acked_after_acks) (auto simp: auto_ok_def)
  moreover have "Some i \<in> delivered (pl_calls (acknowledgeAll lib c))"
    if "map_of (topic_latest_msg_id_map (acknowledgeAll lib c)) k = Some (Some i)" for k i
    using that assms(2) ack_fold_map [of lib c "pl_order lib (map fst (topic_latest_msg_id_map c))" k]
    by (auto simp: calls auto_ok_def acknowledgeAll_def [symmetric])
  ultimately show ?thesis using map_ok_acknowledgeAll [OF m, of lib] by (simp add: auto_ok_def)
qed

lemma auto_ok_emit: "auto_ok c \<Longrightarrow> (\<And>i. x \<noteq> PlAck i) \<Longrightarrow> auto_ok (pl_emit x c)"
  by (simp add: auto_ok_def map_ok_def acked_after_snoc pl_emit_def)

lemma auto_ok_deliver:
  assumes "auto_ok c" and "delivered [x] = {mid}" and "\<And>i. x \<noteq> PlAck i"
  shows "auto_ok (pl_emit x
    (c\<lparr>topic_latest_msg_id_map := smap_assign k mid (topic_latest_msg_id_map c)\<rparr>))"
  using assms
  by (simp add: auto_ok_def map_ok_def acked_after_snoc map_invariants map_of_smap_assign pl_emit_def)

lemma auto_ok_timer [simp]: "auto_ok (c\<lparr>timer_state := t\<rparr>) = auto_ok c"
  "auto_ok (c\<lparr>running := b\<rparr>) = auto_ok c"
  by (simp_all add: auto_ok_def map_ok_def)

lemma auto_ok_checkTime:
  "order_law lib \<Longrightarrow> auto_ok c \<Longrightarrow> auto_ok (checkTimeThenAcknowledgeAll lib c)"
  by (simp add: checkTimeThenAcknowledgeAll_def Let_def auto_ok_acknowledgeAll auto_ok_emit
      split: prod.split)

lemma checkTime_frame [simp]:
  "consumer_conf (checkTimeThenAcknowledgeAll lib c) = consumer_conf c"
  "client (checkTimeThenAcknowledgeAll lib c) = client c"
  "running (checkTimeThenAcknowledgeAll lib c) = running c"
  by (simp_all add: checkTimeThenAcknowledgeAll_def Let_def pl_emit_def split: prod.split)

lemma user_commits_Nil [simp]: "user_commits lib [] c = c"
  by (simp add: user_commits_def)

lemma auto_ok_consume_body:
  assumes "order_law lib" and "auto_ok c"
  shows "auto_ok (consume_body lib (\<lambda>_. []) c)"
proof -
  obtain result msg where r: "pl_receive lib (pl_calls c) (cc_poll_timeout_ms (the_conf c)) = (result, msg)"
    by force
  let ?c = "pl_emit (PlReceived result (if result = ResultOk then Some msg else None))
    (pl_emit (PlReceive (cc_poll_timeout_ms (the_conf c))) c)"
  have e: "auto_ok ?c" using assms(2) by (intro auto_ok_emit) auto
  show ?thesis
  proof (cases "result = ResultOk")
    case False
    with r e show ?thesis
      by (simp add: consume_body_def consume_msg_def Let_def auto_ok_checkTime [OF assms(1)])
  next
    case True
    let ?d = "?c\<lparr>topic_latest_msg_id_map := smap_assign (pm_topic msg) (pm_id msg) (topic_latest_msg_id_map ?c)\<rparr>"
    have "auto_ok (deliver_msg lib (\<lambda>_. []) msg ?d)"
      using auto_ok_deliver [OF e, of _ "pm_id msg" "pm_topic msg"]
      by (simp add: deliver_msg_def Let_def)
    with r True show ?thesis
      by (simp add: consume_body_def consume_msg_def Let_def auto_ok_checkTime [OF assms(1)])
  qed
qed

lemma auto_ok_consume_loop:
  "order_law lib \<Longrightarrow> auto_ok c \<Longrightarrow> auto_ok (consume_loop n lib (\<lambda>_. []) c)"
  by (induction n arbitrary: c) (simp_all add: auto_ok_consume_body)

lemma auto_ok_stop: "order_law lib \<Longrightarrow> auto_ok c \<Longrightarrow> auto_ok (pulsar_stop lib c)"
  by (simp add: pulsar_stop_def auto_ok_acknowledgeAll)

lemma auto_ok_fields [simp]:
  "auto_ok (c\<lparr>client := b\<rparr>) = auto_ok c" "auto_ok (c\<lparr>has_subscribed := b\<rparr>) = auto_ok c"
  "auto_ok (c\<lparr>consumer_cb := b\<rparr>) = auto_ok c" "auto_ok (c\<lparr>topic_prefix := s\<rparr>) = auto_ok c"
  "auto_ok (c\<lparr>default_subscription := s\<rparr>) = auto_ok c" "auto_ok (c\<lparr>consumer_conf := conf\<rparr>) = auto_ok c"
  "auto_ok (c\<lparr>subscription_initial_position := p\<rparr>) = auto_ok c"
  by (simp_all add: auto_ok_def map_ok_def)

lemma auto_ok_new: "auto_ok pulsar_consumer_new"
  by (simp add: auto_ok_def map_ok_def pulsar_consumer_new_def acked_after_delivery_def)

lemma auto_ok_init: "auto_ok c \<Longrightarrow> auto_ok (snd (pulsar_init pt b lp cp c))"
  by (simp add: pulsar_init_def pulsar_init_client_def Let_def auto_ok_emit split: sum.split)

lemma auto_ok_subscribe: "auto_ok c \<Longrightarrow> auto_ok (snd (pulsar_subscribe lib s ts c))"
  by (simp add: pulsar_subscribe_def Let_def auto_ok_emit)

lemma auto_ok_start: "auto_ok c \<Longrightarrow> auto_ok (snd (pulsar_start lib c))"
  by (simp add: pulsar_start_def timer_start_def Let_def auto_ok_emit)

text \<open>At least once, in automatic mode: over a whole run, from a new object through \<open>init\<close>,
  \<open>subscribe\<close>, \<open>start\<close>, any number of iterations and \<open>stop\<close> (without \<open>force.stop\<close>), every id that is
  acknowledged belongs to a message that was delivered to the callback before.\<close>

theorem acknowledged_only_after_delivery:
  assumes "order_law lib"
    and "pulsar_init pt broker lp cp pulsar_consumer_new = (rt1, c1)"
    and "pulsar_subscribe lib sub topics c1 = (rt2, c2)"
    and "pulsar_start lib c2 = (rt3, c3)"
  shows "acked_after_delivery (pl_calls (pulsar_stop lib (consume_loop n lib (\<lambda>_. []) c3)))"
proof -
  have "auto_ok c3"
    using auto_ok_init [OF auto_ok_new, of pt broker lp cp] auto_ok_subscribe [of c1 lib sub topics]
      auto_ok_start [of c2 lib] assms(2-4) by simp
  then have "auto_ok (pulsar_stop lib (consume_loop n lib (\<lambda>_. []) c3))"
    by (intro auto_ok_stop auto_ok_consume_loop assms(1))
  then show ?thesis by (simp add: auto_ok_def)
qed

definition demo_pulsar :: pulsar_lib where
  "demo_pulsar = quiet_pulsar\<lparr>pl_receive := \<lambda>log _.
     (ResultOk, \<lparr>pm_topic = ''t-partition-0'', pm_id = Some (length log), pm_data = ''x''\<rparr>)\<rparr>"

lemma demo_pulsar_laws: "order_law demo_pulsar" "id_law demo_pulsar"
  using quiet_pulsar_laws by (simp_all add: demo_pulsar_def order_law_def id_law_def)

definition pulsar_file :: "bool \<Rightarrow> ini ptree_lib" where
  "pulsar_file manual = ini_lib (\<lambda>_. Inr (Ini ''''
     [(''broker'', ini_value ''h:6650''), (''subscription'', ini_value ''s''),
      (''consumer'', Ini '''' [(''manual.ack'', ini_value (if manual then ''true'' else ''false''))])]))"

definition pulsar_running :: "bool \<Rightarrow> pulsar_consumer" where
  "pulsar_running manual = snd (pulsar_start demo_pulsar (snd (pulsar_subscribe demo_pulsar '''' [''t'']
     (snd (pulsar_init (pulsar_file manual) '''' '''' ''c'' pulsar_consumer_new)))))"

theorem acknowledged_only_after_delivery_witness:
  "acked_after_delivery (pl_calls (pulsar_stop demo_pulsar
     (consume_loop 2 demo_pulsar (\<lambda>_. []) (pulsar_running False))))"
  unfolding pulsar_running_def
  by (rule acknowledged_only_after_delivery [OF demo_pulsar_laws(1) surjective_pairing
        surjective_pairing surjective_pairing])

section \<open>Manual mode\<close>

lemma manual_loop_calls:
  assumes "cc_manual_ack (the_conf c)"
  shows "consume_body lib (\<lambda>_. []) c =
     (let (result, msg, c1) = consume_msg lib c in
      if result = ResultOk then pl_emit (PlDeliverForCommit (pm_id msg) (convertMessage lib msg)) c1 else c1)"
proof -
  obtain result msg c1 where m: "consume_msg lib c = (result, msg, c1)" by (cases "consume_msg lib c")
  then have "the_conf c1 = the_conf c"
    by (auto simp: consume_msg_def Let_def the_conf_def pl_emit_def split: prod.splits)
  with m assms show ?thesis
    by (simp add: consume_body_def deliver_msg_def Let_def checkTimeThenAcknowledgeAll_def
        the_conf_def pl_emit_def)
qed

text \<open>The id of the last message received on each topic, read off the log.\<close>

fun note_received :: "(string \<rightharpoonup> message_id) \<Rightarrow> pl_call \<Rightarrow> (string \<rightharpoonup> message_id)" where
  "note_received m (PlReceived r (Some msg)) = m(pm_topic msg \<mapsto> pm_id msg)"
| "note_received m _ = m"

definition latest :: "pl_call list \<Rightarrow> (string \<rightharpoonup> message_id)" where
  "latest log = foldl note_received Map.empty log"

lemma latest_simps [simp]: "latest [] = Map.empty" "latest (log @ [x]) = note_received (latest log) x"
  by (simp_all add: latest_def)

definition manual_ok :: "pulsar_consumer \<Rightarrow> bool" where
  "manual_ok c \<longleftrightarrow> map_ok c \<and> map_of (topic_latest_msg_id_map c) = latest (pl_calls c) \<and>
     (\<forall>i. PlAck i \<notin> set (pl_calls c))"

lemma manual_ok_emit:
  "manual_ok c \<Longrightarrow> (\<And>i. x \<noteq> PlAck i) \<Longrightarrow> (\<And>m. note_received m x = m) \<Longrightarrow> manual_ok (pl_emit x c)"
  by (auto simp: manual_ok_def map_ok_def pl_emit_def)

lemma manual_ok_fields [simp]:
  "manual_ok (c\<lparr>client := b\<rparr>) = manual_ok c" "manual_ok (c\<lparr>has_subscribed := b\<rparr>) = manual_ok c"
  "manual_ok (c\<lparr>consumer_cb := b\<rparr>) = manual_ok c" "manual_ok (c\<lparr>topic_prefix := s\<rparr>) = manual_ok c"
  "manual_ok (c\<lparr>default_subscription := s\<rparr>) = manual_ok c"
  "manual_ok (c\<lparr>consumer_conf := conf\<rparr>) = manual_ok c"
  "manual_ok (c\<lparr>subscription_initial_position := p\<rparr>) = manual_ok c"
  "manual_ok (c\<lparr>timer_state := t\<rparr>) = manual_ok c" "manual_ok (c\<lparr>running := b\<rparr>) = manual_ok c"
  by (simp_all add: manual_ok_def map_ok_def)

lemma manual_ok_new: "manual_ok pulsar_consumer_new"
  by (simp add: manual_ok_def map_ok_def pulsar_consumer_new_def)

lemma manual_ok_init: "manual_ok c \<Longrightarrow> manual_ok (snd (pulsar_init pt b lp cp c))"
  by (simp add: pulsar_init_def pulsar_init_client_def Let_def manual_ok_emit split: sum.split)

lemma manual_ok_subscribe: "manual_ok c \<Longrightarrow> manual_ok (snd (pulsar_subscribe lib s ts c))"
  by (simp add: pulsar_subscribe_def Let_def manual_ok_emit)

lemma manual_ok_start: "manual_ok c \<Longrightarrow> manual_ok (snd (pulsar_start lib c))"
  by (simp add: pulsar_start_def timer_start_def Let_def manual_ok_emit)

lemma consume_msg_conf:
  "consume_msg lib c = (r, msg, c1) \<Longrightarrow> consumer_conf c1 = consumer_conf c \<and>
     client c1 = client c \<and> running c1 = running c"
  by (cases "r = ResultOk") (auto simp: consume_msg_def Let_def pl_emit_def split: prod.splits)

lemma manual_ok_consume_msg:
  assumes "manual_ok c" and "consume_msg lib c = (r, msg, c1)"
  shows "manual_ok c1"
proof -
  have "map_of (smap_assign k v m) = (map_of m)(k \<mapsto> v)" for k :: string and v :: message_id and m
    by (rule map_of_smap_assign)
  with assms show ?thesis
    by (cases "r = ResultOk") (auto simp: consume_msg_def Let_def pl_emit_def manual_ok_def map_ok_def
        latest_def map_invariants split: prod.splits)
qed

lemma manual_ok_consume_body:
  assumes "cc_manual_ack (the_conf c)" and "manual_ok c"
  shows "manual_ok (consume_body lib (\<lambda>_. []) c)"
    and "consumer_conf (consume_body lib (\<lambda>_. []) c) = consumer_conf c"
    and "client (consume_body lib (\<lambda>_. []) c) = client c"
    and "running (consume_body lib (\<lambda>_. []) c) = running c"
proof -
  obtain r msg c1 where m: "consume_msg lib c = (r, msg, c1)" by (cases "consume_msg lib c")
  note k = manual_ok_consume_msg [OF assms(2) m] consume_msg_conf [OF m]
  have "manual_ok (pl_emit (PlDeliverForCommit i info) c1)" for i info
    using k(1) by (intro manual_ok_emit) auto
  then show "manual_ok (consume_body lib (\<lambda>_. []) c)"
    using manual_loop_calls [OF assms(1), of lib] m k(1) by simp
  show "consumer_conf (consume_body lib (\<lambda>_. []) c) = consumer_conf c"
    "client (consume_body lib (\<lambda>_. []) c) = client c"
    "running (consume_body lib (\<lambda>_. []) c) = running c"
    using manual_loop_calls [OF assms(1), of lib] m k(2) by (simp_all add: pl_emit_def)
qed

lemma manual_ok_consume_loop:
  assumes "cc_manual_ack (the_conf c)" and "manual_ok c"
  shows "manual_ok (consume_loop n lib (\<lambda>_. []) c) \<and>
     client (consume_loop n lib (\<lambda>_. []) c) = client c \<and>
     running (consume_loop n lib (\<lambda>_. []) c) = running c"
  using assms
proof (induction n arbitrary: c)
  case (Suc n)
  note b = manual_ok_consume_body [OF Suc.prems, of lib]
  have "cc_manual_ack (the_conf (consume_body lib (\<lambda>_. []) c))"
    using Suc.prems(1) b(2) by (simp add: the_conf_def)
  from Suc.IH [OF this b(1)] show ?case using b(3,4) by simp
qed simp

lemma set_pending_iff:
  "x \<in> set (pending m ks) \<longleftrightarrow> (\<exists>i. x = Some i \<and> (\<exists>k \<in> set ks. m k = Some (Some i)))"
  by (force simp: pending_def split: option.splits)

text \<open>With \<open>manual.ack\<close> the loop acknowledges nothing by itself, but \<open>stop\<close> acknowledges the last
  message received on every topic, whether or not the user committed it: the acknowledgements it makes
  are exactly those of the ids that the log shows last on each topic, here for a callback that
  committed nothing at all.\<close>

theorem manual_stop_acknowledges_uncommitted:
  assumes "order_law lib"
    and "pulsar_init pt broker lp cp pulsar_consumer_new = (rt1, c1)"
    and "pulsar_subscribe lib sub topics c1 = (rt2, c2)"
    and "pulsar_start lib c2 = (True, c3)"
    and "cc_manual_ack (the_conf c3)"
    and c4: "c4 = consume_loop n lib (\<lambda>_. []) c3"
  shows "(\<forall>i. PlAck i \<notin> set (pl_calls c4)) \<and>
     (\<exists>ids. pl_calls (pulsar_stop lib c4) = pl_calls c4 @ map PlAck ids \<and>
        set ids = {Some i | i. \<exists>topic. latest (pl_calls c4) topic = Some (Some i)})"
proof -
  have "manual_ok c3"
    using manual_ok_init [OF manual_ok_new, of pt broker lp cp] manual_ok_subscribe [of c1 lib sub topics]
      manual_ok_start [of c2 lib] assms(2-4) by simp
  moreover have "client c3" "running c3"
    using assms(4) by (auto simp: pulsar_start_def timer_start_def Let_def pl_emit_def split: if_splits)
  ultimately have c4: "manual_ok c4" "client c4" "running c4"
    using manual_ok_consume_loop [OF assms(5)] by (simp_all add: c4)
  let ?c = "c4\<lparr>running := False\<rparr>"
  have ok: "map_ok ?c" using c4(1) by (simp add: manual_ok_def map_ok_def)
  have "set (pending (latest (pl_calls c4)) (pl_order lib (map fst (topic_latest_msg_id_map c4)))) =
      {Some i | i. \<exists>topic. latest (pl_calls c4) topic = Some (Some i)}"
    using order_distinct(2) [OF assms(1) ok] c4(1)
    by (fastforce simp: set_pending_iff manual_ok_def dom_def)
  then show ?thesis
    using acknowledgeAll_calls [OF assms(1) ok] c4 by (auto simp: pulsar_stop_def manual_ok_def)
qed


lemmas pulsar_run_defs = pulsar_init_def pulsar_init_client_def pulsar_subscribe_def pulsar_start_def
  timer_start_def pulsar_consumer_new_def pl_emit_def pc_put_def pc_loadConfig_def pc_broker_def
  pc_log_level_def pc_consumer_config_def consumer_config_of_def consumer_config_default_def
  proxy_config_def proxy_configInt_def proxy_configBool_def pc_topic_prefix_def pc_find_bool_def
  pc_find_string_def pc_subscription_def pulsar_key_defs ini_lib_def ini_value_def pulsar_file_def
  quiet_pulsar_def demo_pulsar_def the_conf_def

lemma pulsar_running_starts:
  "fst (pulsar_start demo_pulsar (snd (pulsar_subscribe demo_pulsar [] [''t'']
     (snd (pulsar_init (pulsar_file manual) [] [] ''c'' pulsar_consumer_new)))))"
  "cc_manual_ack (the_conf (pulsar_running manual)) = manual"
  by (simp_all add: pulsar_running_def pulsar_run_defs Let_def)

theorem manual_stop_acknowledges_uncommitted_witness:
  "\<exists>ids. pl_calls (pulsar_stop demo_pulsar (consume_loop 2 demo_pulsar (\<lambda>_. []) (pulsar_running True))) =
     pl_calls (consume_loop 2 demo_pulsar (\<lambda>_. []) (pulsar_running True)) @ map PlAck ids"
proof -
  have "pulsar_start demo_pulsar (snd (pulsar_subscribe demo_pulsar [] [''t'']
     (snd (pulsar_init (pulsar_file True) [] [] ''c'' pulsar_consumer_new)))) = (True, pulsar_running True)"
    using pulsar_running_starts(1) [of True] unfolding pulsar_running_def by (metis prod.collapse)
  from manual_stop_acknowledges_uncommitted [OF demo_pulsar_laws(1) surjective_pairing
      surjective_pairing this _ refl, of 2]
  show ?thesis using pulsar_running_starts(2) [of True] by blast
qed


section \<open>The interval of the acknowledgements\<close>

lemma sdiv_ge_iff:
  assumes "0 < (k :: int)" and "0 < b"
  shows "k \<le> a sdiv b \<longleftrightarrow> k * b \<le> a"
proof (cases "0 \<le> a")
  case True
  then have "a sdiv b = a div b" using assms(2) by (rule sdiv_nonneg)
  moreover have "k \<le> a div b \<longleftrightarrow> k * b \<le> a"
  proof
    have "a div b * b \<le> a"
      using div_mult_mod_eq [of a b] pos_mod_sign [OF assms(2), of a] by linarith
    moreover assume "k \<le> a div b"
    then have "k * b \<le> a div b * b" using assms(2) by (simp add: mult_right_mono)
    ultimately show "k * b \<le> a" by linarith
  next
    assume "k * b \<le> a"
    then have "k * b div b \<le> a div b" using assms(2) by (rule zdiv_mono1)
    then show "k \<le> a div b" using assms(2) by simp
  qed
  ultimately show ?thesis by simp
next
  case False
  then have "a sdiv b = - (- a div b)" using assms(2) by (intro sdiv_nonpos) auto
  moreover have "0 \<le> - a div b" using False assms(2) by (simp add: pos_imp_zdiv_nonneg_iff)
  moreover have "0 < k * b" using assms by simp
  ultimately show ?thesis using False assms(1) by linarith
qed

lemma acknowledge_when_due:
  assumes "\<not> cc_manual_ack (the_conf c)" and "0 < timer_interval_ms (timer_state c)"
  shows "checkTimeThenAcknowledgeAll lib c =
     (if timer_interval_ms (timer_state c) * 1000000 \<le>
           pl_now lib (pl_calls c) - timer_before (timer_state c)
      then acknowledgeAll lib ((pl_emit PlNow c)\<lparr>timer_state :=
             (timer_state c)\<lparr>timer_before := pl_now lib (pl_calls c)\<rparr>\<rparr>)
      else pl_emit PlNow c)"
  using assms sdiv_ge_iff [OF assms(2), of 1000000]
  by (auto simp: checkTimeThenAcknowledgeAll_def Timer_stop_def Let_def sdiv_sdiv pl_emit_def)

text \<open>C38: In automatic mode the ids that wait are acknowledged at the end of an iteration exactly when at
  least \<open>manual.commit.time.ms\<close> whole milliseconds have passed since the last time, in spite of the two
  truncating divisions; then the interval starts anew, and otherwise nothing but the clock is touched.\<close>

theorem acknowledge_interval:
  assumes "\<not> cc_manual_ack (the_conf c)" and "0 < timer_interval_ms (timer_state c)"
    and "now = pl_now lib (pl_calls c)"
  shows "checkTimeThenAcknowledgeAll lib c =
     (if timer_interval_ms (timer_state c) * 1000000 \<le> now - timer_before (timer_state c)
      then acknowledgeAll lib ((pl_emit PlNow c)\<lparr>timer_state := (timer_state c)\<lparr>timer_before := now\<rparr>\<rparr>)
      else pl_emit PlNow c)"
  using acknowledge_when_due [OF assms(1,2)] assms(3) by simp

theorem acknowledge_interval_witness:
  "checkTimeThenAcknowledgeAll quiet_pulsar (pulsar_consumer_new\<lparr>consumer_conf := Some consumer_config_default\<rparr>) =
     pl_emit PlNow (pulsar_consumer_new\<lparr>consumer_conf := Some consumer_config_default\<rparr>)"
  using acknowledge_interval [of "pulsar_consumer_new\<lparr>consumer_conf := Some consumer_config_default\<rparr>" 0 quiet_pulsar]
  by (simp add: pulsar_consumer_new_def the_conf_def consumer_config_default_def timer_new_def quiet_pulsar_def)

section \<open>Commits of the user\<close>

text \<open>Committing the info of a message acknowledges the message itself: the id survives
  \<open>convertMessage\<close> and \<open>deserialize\<close>, whatever the topic was renamed to. The consumer does not note the
  commit, so that the id, if it is the last of its topic, is acknowledged once more by \<open>stop\<close>.\<close>

theorem commit_acknowledges_message:
  assumes "id_law lib" and "order_law lib" and "map_ok c" and "client c" and "running c"
    and "map_of (topic_latest_msg_id_map c) (pm_topic msg) = Some (pm_id msg)" and "pm_id msg = Some i"
  shows "pulsar_commitOffset lib (convertMessage lib msg) c = pl_emit (PlAck (pm_id msg)) c \<and>
     (\<exists>ids. pl_calls (pulsar_stop lib (pulsar_commitOffset lib (convertMessage lib msg) c)) =
        pl_calls c @ PlAck (pm_id msg) # map PlAck ids \<and> pm_id msg \<in> set ids)"
proof -
  have e: "pulsar_commitOffset lib (convertMessage lib msg) c = pl_emit (PlAck (pm_id msg)) c"
    using assms(1,4) by (simp add: pulsar_commitOffset_def convertMessage_def acknowledge_def id_law_def)
  let ?d = "(pl_emit (PlAck (pm_id msg)) c)\<lparr>running := False\<rparr>"
  have d: "map_ok ?d" "topic_latest_msg_id_map ?d = topic_latest_msg_id_map c"
    using assms(3) by (simp_all add: map_ok_def pl_emit_def)
  have "pm_topic msg \<in> set (pl_order lib (map fst (topic_latest_msg_id_map c)))"
    using order_distinct(2) [OF assms(2,3)] assms(6) by auto
  then have "pm_id msg \<in> set (pending (map_of (topic_latest_msg_id_map c))
      (pl_order lib (map fst (topic_latest_msg_id_map c))))"
    using assms(6,7) by (auto simp: set_pending_iff)
  then have "\<exists>ids. pl_calls (acknowledgeAll lib ?d) = pl_calls c @ PlAck (pm_id msg) # map PlAck ids \<and>
      pm_id msg \<in> set ids"
    using acknowledgeAll_calls [OF assms(2) d(1)] d(2) by auto
  moreover have "pulsar_stop lib (pl_emit (PlAck (pm_id msg)) c) = acknowledgeAll lib ?d"
    using assms(4,5) by (simp add: pulsar_stop_def pl_emit_def)
  ultimately show ?thesis by (simp add: e)
qed

theorem commit_acknowledges_message_witness:
  "pl_calls (pulsar_commitOffset demo_pulsar
      (convertMessage demo_pulsar \<lparr>pm_topic = ''t-partition-0'', pm_id = Some 9, pm_data = ''x''\<rparr>)
      (pulsar_consumer_new\<lparr>client := True, running := True,
         topic_latest_msg_id_map := [(''t-partition-0'', Some 9)]\<rparr>)) = [PlAck (Some 9)]"
  using commit_acknowledges_message [OF demo_pulsar_laws(2,1), of "pulsar_consumer_new\<lparr>client := True,
      running := True, topic_latest_msg_id_map := [(''t-partition-0'', Some 9)]\<rparr>"
      "\<lparr>pm_topic = ''t-partition-0'', pm_id = Some 9, pm_data = ''x''\<rparr>" 9]
  by (simp add: map_ok_def smap_ok_def pulsar_consumer_new_def pl_emit_def)

section \<open>force.stop\<close>

text \<open>With \<open>force.stop\<close> the caller may run \<open>stop\<close> while an iteration is between receiving a message
  and delivering it. Then the message is acknowledged although it was not delivered.\<close>

theorem force_stop_acknowledges_undelivered:
  assumes "order_law lib" and "map_ok c" and "client c" and "running c"
    and "consume_msg lib c = (ResultOk, msg, c1)" and "pm_id msg = Some i"
  shows "PlAck (Some i) \<in> set (drop (length (pl_calls c1)) (pl_calls (pulsar_stop lib c1))) \<and>
     delivered (pl_calls (pulsar_stop lib c1)) = delivered (pl_calls c)"
proof -
  have c1: "client c1" "running c1" "delivered (pl_calls c1) = delivered (pl_calls c)"
      "map_of (topic_latest_msg_id_map c1) (pm_topic msg) = Some (Some i)"
      "map_ok (c1\<lparr>running := False\<rparr>)"
    using assms(2-6)
    by (auto simp: consume_msg_def Let_def pl_emit_def map_of_smap_assign map_ok_def map_invariants
        split: prod.splits)
  have "pm_topic msg \<in> set (pl_order lib (map fst (topic_latest_msg_id_map c1)))"
    using order_distinct(2) [OF assms(1) c1(5)] c1(4) by auto
  then have "Some i \<in> set (pending (map_of (topic_latest_msg_id_map c1))
      (pl_order lib (map fst (topic_latest_msg_id_map c1))))"
    using c1(4) by (auto simp: set_pending_iff)
  then show ?thesis
    using acknowledgeAll_calls [OF assms(1) c1(5)] c1(1-3) by (simp add: pulsar_stop_def)
qed

theorem force_stop_acknowledges_undelivered_witness:
  "PlAck (Some 0) \<in> set (pl_calls (pulsar_stop demo_pulsar
     (snd (snd (consume_msg demo_pulsar (pulsar_consumer_new\<lparr>client := True, running := True\<rparr>))))))"
  using force_stop_acknowledges_undelivered [OF demo_pulsar_laws(1),
      of "pulsar_consumer_new\<lparr>client := True, running := True\<rparr>"
      "\<lparr>pm_topic = ''t-partition-0'', pm_id = Some 0, pm_data = ''x''\<rparr>" _ 0]
  by (auto simp: map_ok_def pulsar_consumer_new_def consume_msg_def demo_pulsar_def pl_emit_def
      dest: in_set_dropD)


section \<open>init\<close>

text \<open>The broker that the caller passes has priority over the file, and the rest of the file counts as
  it is: \<open>init\<close> succeeds exactly when \<open>persistent\<close> is a boolean and \<open>subscription\<close> is there, and then
  the client connects to \<open>pulsar://\<close> and that broker, with the settings of the file.\<close>

theorem pulsar_init_precedence:
  assumes "put_law pt KEY_BROKER" and "\<not> client c" and "pt_read_ini pt cp = Inr cfg"
    and "broker \<noteq> ''''"
  shows "((\<exists>c'. pulsar_init pt broker lp cp c = (Inr True, c')) \<longleftrightarrow>
       (\<exists>pre sub. pc_topic_prefix pt cfg = Inr pre \<and> pc_subscription pt cfg = Inr sub)) \<and>
     (\<forall>c'. pulsar_init pt broker lp cp c = (Inr True, c') \<longrightarrow>
       client c' \<and> consumer_cb c' \<and> consumer_conf c' = Some (pc_consumer_config pt cfg) \<and>
       pl_calls c' = pl_calls c @ [PlClient (''pulsar://'' @ broker)
         (cc_auth_jwt (pc_consumer_config pt cfg)) (pc_log_level pt cfg) lp] \<and>
       pc_topic_prefix pt cfg = Inr (topic_prefix c') \<and>
       pc_subscription pt cfg = Inr (default_subscription c') \<and>
       timer_interval_ms (timer_state c') = cc_manual_commit_time_ms (pc_consumer_config pt cfg))"
  using assms broker_put [OF assms(1), of broker cfg]
  by (auto simp: pulsar_init_def pulsar_init_client_def pc_loadConfig_def Let_def pl_emit_def
      Timer_setIntervalMs_def split: sum.splits)

theorem pulsar_init_precedence_witness:
  "\<exists>c'. pulsar_init (pulsar_file True) ''k:1'' '''' ''c'' pulsar_consumer_new = (Inr True, c')"
proof -
  obtain cfg where cfg: "pt_read_ini (pulsar_file True) ''c'' = Inr cfg"
      "pc_topic_prefix (pulsar_file True) cfg = Inr ''persistent://public/default/''"
      "pc_subscription (pulsar_file True) cfg = Inr ''s''"
    by (simp add: pulsar_run_defs)
  have "put_law (pulsar_file True) KEY_BROKER" by (simp add: pulsar_file_def put_law_ini_lib)
  from pulsar_init_precedence [OF this _ cfg(1), of pulsar_consumer_new "''k:1''" "''''"] cfg(2,3)
  show ?thesis by (simp add: pulsar_consumer_new_def)
qed

text \<open>A configuration file without \<open>subscription\<close> makes \<open>init\<close> throw, since only errors of reading
  the file are caught, and leaves an object that counts as initialised but has no callback: every later
  \<open>init\<close> is refused, while \<open>subscribe\<close> with an explicit subscription and \<open>start\<close> go through, so that
  the loop calls a null callback for the first message.\<close>

theorem pulsar_init_half_initialised:
  assumes "\<not> client c" and "\<not> consumer_cb c" and "\<not> running c" and "pt_read_ini pt cp = Inr cfg"
    and "pc_broker pt cfg = Inr url" and "pc_topic_prefix pt cfg = Inr pre"
    and "pc_subscription pt cfg = Inl e"
  shows "\<exists>c1. pulsar_init pt '''' lp cp c = (Inl e, c1) \<and> \<not> consumer_cb c1 \<and>
     (\<forall>broker lp' cp'. pulsar_init pt broker lp' cp' c1 = (Inr False, c1)) \<and>
     (\<forall>lib sub topics. pl_subscribe lib (pl_calls c1) = ResultOk \<longrightarrow>
        (\<exists>c2 c3. pulsar_subscribe lib sub topics c1 = (True, c2) \<and> pulsar_start lib c2 = (True, c3) \<and>
           \<not> consumer_cb c3))"
  using assms
  by (simp add: pulsar_init_def pulsar_init_client_def pc_loadConfig_def Let_def pl_emit_def
      pulsar_subscribe_def pulsar_start_def timer_start_def)

theorem pulsar_init_half_initialised_witness:
  "fst (pulsar_init (ini_lib (\<lambda>_. Inr (Ini '''' [(''broker'', ini_value ''h:6650'')]))) '''' '''' ''c''
      pulsar_consumer_new) = Inl (ConfigNotFound ''subscription'')"
proof -
  let ?cfg = "Ini '''' [(''broker'', ini_value ''h:6650'')]"
  let ?pt = "ini_lib (\<lambda>_. Inr ?cfg)"
  have "pt_read_ini ?pt ''c'' = Inr ?cfg" "pc_broker ?pt ?cfg = Inr ''pulsar://h:6650''"
      "pc_topic_prefix ?pt ?cfg = Inr ''persistent://public/default/''"
      "pc_subscription ?pt ?cfg = Inl (ConfigNotFound ''subscription'')"
    by (simp_all add: pulsar_run_defs)
  from pulsar_init_half_initialised [OF _ _ _ this, of pulsar_consumer_new "''''"]
  show ?thesis by (auto simp: pulsar_consumer_new_def)
qed

section \<open>The PHP consumer\<close>

text \<open>The PHP consumer acknowledges when \<open>consume\<close> returns: if the interval has passed, the id of the
  message that is being handed out is acknowledged before the caller has seen it, and \<open>stop\<close> then
  acknowledges nothing that still waits.\<close>

theorem php_consume_acknowledges_returned:
  assumes "order_law lib" and "map_ok c" and "running c" and "client c"
    and "\<not> cc_manual_ack (the_conf c)" and "0 < timer_interval_ms (timer_state c)"
    and "consume_msg lib c = (ResultOk, msg, c1)" and "pm_id msg = Some i"
    and "timer_interval_ms (timer_state c) * 1000000 \<le> pl_now lib (pl_calls c1) - timer_before (timer_state c)"
  shows "\<exists>c2 ids. php_consume lib c = (True, Some (convertMessage lib msg), c2) \<and>
     pl_calls c2 = pl_calls c1 @ PlNow # map PlAck ids \<and> Some i \<in> set ids \<and>
     pl_calls (php_stop c2) = pl_calls c2"
proof -
  have c1: "timer_state c1 = timer_state c" "the_conf c1 = the_conf c"
      "map_of (topic_latest_msg_id_map c1) (pm_topic msg) = Some (Some i)" "map_ok c1"
    using assms(2,7,8)
    by (auto simp: consume_msg_def Let_def pl_emit_def map_of_smap_assign map_ok_def map_invariants
        the_conf_def split: prod.splits)
  let ?d = "(pl_emit PlNow c1)\<lparr>timer_state := (timer_state c1)\<lparr>timer_before := pl_now lib (pl_calls c1)\<rparr>\<rparr>"
  have d: "map_ok ?d" "topic_latest_msg_id_map ?d = topic_latest_msg_id_map c1"
    using c1(4) by (simp_all add: map_ok_def pl_emit_def)
  have "pm_topic msg \<in> set (pl_order lib (map fst (topic_latest_msg_id_map ?d)))"
    using order_distinct(2) [OF assms(1) d(1)] c1(3) d(2) by auto
  then have "Some i \<in> set (pending (map_of (topic_latest_msg_id_map ?d))
      (pl_order lib (map fst (topic_latest_msg_id_map ?d))))"
    using c1(3) d(2) by (auto simp: set_pending_iff)
  moreover have "checkTimeThenAcknowledgeAll lib c1 = acknowledgeAll lib ?d"
    using acknowledge_when_due [of c1 lib] assms(5,6,9) c1(1,2) by simp
  ultimately show ?thesis
    using acknowledgeAll_calls [OF assms(1) d(1)] assms(3,4,7)
    by (auto simp: php_consume_def php_stop_def)
qed


theorem php_consume_acknowledges_returned_witness:
  "\<exists>c1 c2 ids. php_consume (demo_pulsar\<lparr>pl_now := \<lambda>_. 1000000000\<rparr>) (pulsar_running False) =
       (True, Some (convertMessage (demo_pulsar\<lparr>pl_now := \<lambda>_. 1000000000\<rparr>)
          \<lparr>pm_topic = ''t-partition-0'', pm_id = Some 3, pm_data = ''x''\<rparr>), c2) \<and>
     pl_calls c2 = c1 @ map PlAck ids \<and> Some 3 \<in> set ids"
proof -
  let ?lib = "demo_pulsar\<lparr>pl_now := \<lambda>_. 1000000000\<rparr>"
  let ?c = "pulsar_running False"
  obtain c1 where c1: "consume_msg ?lib ?c =
      (ResultOk, \<lparr>pm_topic = ''t-partition-0'', pm_id = Some 3, pm_data = ''x''\<rparr>, c1)"
    by (simp add: consume_msg_def pulsar_running_def pulsar_run_defs Let_def)
  have laws: "order_law ?lib" using demo_pulsar_laws(1) by (simp add: order_law_def)
  have c: "map_ok ?c" "running ?c" "client ?c" "\<not> cc_manual_ack (the_conf ?c)"
      "timer_interval_ms (timer_state ?c) = 200" "timer_before (timer_state ?c) = 0"
    by (simp_all add: pulsar_running_def pulsar_run_defs map_ok_def Let_def Timer_setIntervalMs_def
        Timer_start_def timer_new_def)
  from php_consume_acknowledges_returned [OF laws c(1-4) _ c1 _, of 3] c(5,6)
  obtain c2 ids where "php_consume ?lib ?c = (True, Some (convertMessage ?lib
          \<lparr>pm_topic = ''t-partition-0'', pm_id = Some 3, pm_data = ''x''\<rparr>), c2)"
      "pl_calls c2 = (pl_calls c1 @ [PlNow]) @ map PlAck ids" "Some 3 \<in> set ids"
    by auto
  then show ?thesis by blast
qed

section \<open>The interface\<close>

definition pulsar_control :: "pulsar_lib \<Rightarrow> pulsar_consumer control_ops" where
  "pulsar_control lib = \<lparr>op_start = pulsar_start lib, op_stop = pulsar_stop lib,
     op_pause = pulsar_pause, op_resume = pulsar_resume\<rparr>"

text \<open>An exception counts as a refusal.\<close>

definition accepted :: "exn + bool \<Rightarrow> bool" where
  "accepted r = (case r of Inl e \<Rightarrow> False | Inr b \<Rightarrow> b)"

definition php_control :: "pulsar_lib \<Rightarrow> pulsar_consumer control_ops" where
  "php_control lib = \<lparr>op_start = php_start lib, op_stop = php_stop,
     op_pause = (\<lambda>ts c. (accepted (fst (php_pause ts c)), snd (php_pause ts c))),
     op_resume = (\<lambda>ts c. (accepted (fst (php_resume ts c)), snd (php_resume ts c)))\<rparr>"

definition runs_initialised :: "pulsar_consumer \<Rightarrow> bool" where
  "runs_initialised c \<longleftrightarrow> (running c \<longrightarrow> client c)"

interpretation pulsar_consumer_imp: consumer_interface runs_initialised running "pulsar_control lib"
  for lib :: pulsar_lib
  by unfold_locales
    (auto simp: runs_initialised_def pulsar_control_def pulsar_start_def pulsar_stop_def pulsar_pause_def
      pulsar_resume_def timer_start_def pl_emit_def)

interpretation php_consumer_imp: consumer_interface runs_initialised running "php_control lib"
  for lib :: pulsar_lib
  by unfold_locales
    (auto simp: runs_initialised_def php_control_def php_start_def php_stop_def php_pause_def
      php_resume_def timer_start_def pl_emit_def accepted_def)

end
