(* ===== verification/Pulsar_Newest.thy ===== *)
theory Pulsar_Newest
  imports Pulsar_Consumer_Props
begin

text \<open>
  What the Pulsar consumer has acknowledged when it is stopped, in every mode and with any callback.
  \<open>latest\<close> (Pulsar_Consumer_Props) reads the id of the newest message of each topic off the log of
  calls; \<open>tracked\<close> relates the map of the consumer to it: an id is in the map or was acknowledged.
\<close>

definition noted :: "pl_call list \<Rightarrow> (string \<rightharpoonup> message_id) \<Rightarrow> string \<Rightarrow> bool" where
  "noted log m t =
     (case latest log t of
        None \<Rightarrow> m t = None
      | Some mid \<Rightarrow> m t = Some mid \<or> (m t = Some None \<and> PlAck mid \<in> set log))"

definition tracked :: "pulsar_consumer \<Rightarrow> bool" where
  "tracked c \<longleftrightarrow> map_ok c \<and> (\<forall>t. noted (pl_calls c) (map_of (topic_latest_msg_id_map c)) t)"

section \<open>Preservation\<close>

lemma latest_append_acks [simp]: "latest (log @ map PlAck ids) = latest log"
  by (induction ids arbitrary: log) (simp_all add: latest_def)

lemma noted_call: "noted log m t \<Longrightarrow> note_received (latest log) x = latest log \<Longrightarrow> noted (log @ [x]) m t"
  by (auto simp: noted_def split: option.split)

lemma noted_received:
  "noted log m t \<Longrightarrow> noted (log @ [PlReceived r (Some msg)]) (m(pm_topic msg \<mapsto> pm_id msg)) t"
  by (auto simp: noted_def split: option.split)

lemma tracked_emit:
  "tracked c \<Longrightarrow> (\<And>m. note_received m x = m) \<Longrightarrow> tracked (pl_emit x c)"
  by (simp add: tracked_def map_ok_def pl_emit_def noted_call)

lemma tracked_fields [simp]:
  "tracked (c\<lparr>client := b\<rparr>) = tracked c" "tracked (c\<lparr>has_subscribed := b\<rparr>) = tracked c"
  "tracked (c\<lparr>consumer_cb := b\<rparr>) = tracked c" "tracked (c\<lparr>topic_prefix := s\<rparr>) = tracked c"
  "tracked (c\<lparr>default_subscription := s\<rparr>) = tracked c"
  "tracked (c\<lparr>consumer_conf := conf\<rparr>) = tracked c"
  "tracked (c\<lparr>subscription_initial_position := p\<rparr>) = tracked c"
  "tracked (c\<lparr>timer_state := t\<rparr>) = tracked c" "tracked (c\<lparr>running := b\<rparr>) = tracked c"
  by (simp_all add: tracked_def map_ok_def)

lemma tracked_new: "tracked pulsar_consumer_new"
  by (simp add: tracked_def noted_def map_ok_def pulsar_consumer_new_def)

lemma tracked_init: "tracked c \<Longrightarrow> tracked (snd (pulsar_init pt b lp cp c))"
  by (simp add: pulsar_init_def pulsar_init_client_def Let_def tracked_emit split: sum.split)

lemma tracked_subscribe: "tracked c \<Longrightarrow> tracked (snd (pulsar_subscribe lib s ts c))"
  by (simp add: pulsar_subscribe_def Let_def tracked_emit)

lemma tracked_subscribeOne: "tracked c \<Longrightarrow> tracked (snd (pulsar_subscribeOne lib s t c))"
  by (simp add: pulsar_subscribeOne_def Let_def tracked_emit)

lemma tracked_start: "tracked c \<Longrightarrow> tracked (snd (pulsar_start lib c))"
  by (simp add: pulsar_start_def timer_start_def Let_def tracked_emit)

lemma tracked_ack_topic:
  assumes "tracked c"
  shows "tracked (ack_topic lib c k)"
proof (cases "map_of (topic_latest_msg_id_map c) k")
  case None
  then show ?thesis using assms by (simp add: ack_topic_def)
next
  case (Some mid)
  have l: "latest (pl_calls (ack_topic lib c k)) = latest (pl_calls c)" by (simp add: ack_topic_calls)
  have s: "set (pl_calls c) \<subseteq> set (pl_calls (ack_topic lib c k))" by (simp add: ack_topic_calls)
  have p: "PlAck (Some i) \<in> set (pl_calls (ack_topic lib c k))" if "mid = Some i" for i
    using that Some by (simp add: ack_topic_calls pending_def)
  have "noted (pl_calls (ack_topic lib c k)) (map_of (topic_latest_msg_id_map (ack_topic lib c k))) t" for t
  proof -
    have n: "noted (pl_calls c) (map_of (topic_latest_msg_id_map c)) t"
      using assms by (simp add: tracked_def)
    show ?thesis
    proof (cases "t = k")
      case True
      with n Some s p l show ?thesis
        by (cases mid) (auto simp: noted_def ack_topic_same split: option.splits)
    next
      case False
      with n s l show ?thesis by (auto simp: noted_def ack_topic_other split: option.splits)
    qed
  qed
  with map_ok_ack_topic [of c lib k] assms show ?thesis by (simp add: tracked_def)
qed

lemma tracked_acknowledgeAll: "tracked c \<Longrightarrow> tracked (acknowledgeAll lib c)"
  unfolding acknowledgeAll_def by (rule foldl_invariant [where I = tracked]) (auto intro: tracked_ack_topic)

lemma tracked_checkTime: "tracked c \<Longrightarrow> tracked (checkTimeThenAcknowledgeAll lib c)"
  by (simp add: checkTimeThenAcknowledgeAll_def Let_def tracked_acknowledgeAll tracked_emit split: prod.split)

lemma tracked_user_commits: "tracked c \<Longrightarrow> tracked (user_commits lib infos c)"
  unfolding user_commits_def
  by (rule foldl_invariant [where I = tracked])
     (auto simp: pulsar_commitOffset_def acknowledge_def Let_def intro: tracked_emit)

lemma tracked_consume_msg:
  assumes "tracked c" and "consume_msg lib c = (r, msg, c1)"
  shows "tracked c1"
proof -
  let ?c = "pl_emit (PlReceive (cc_poll_timeout_ms (the_conf c))) c"
  have e: "tracked ?c" using assms(1) by (intro tracked_emit) simp_all
  show ?thesis
  proof (cases "r = ResultOk")
    case True
    with assms(2) have "c1 = (pl_emit (PlReceived r (Some msg)) ?c)
        \<lparr>topic_latest_msg_id_map := smap_assign (pm_topic msg) (pm_id msg) (topic_latest_msg_id_map ?c)\<rparr>"
      by (auto simp: consume_msg_def Let_def pl_emit_def split: prod.splits)
    with e show ?thesis
      by (simp only: tracked_def) (simp add: map_ok_def map_invariants map_of_smap_assign pl_emit_def
          noted_received flip: append_assoc del: append.simps)
  next
    case False
    with assms(2) have "c1 = pl_emit (PlReceived r None) ?c"
      by (auto simp: consume_msg_def Let_def split: prod.splits)
    with tracked_emit [OF e, of "PlReceived r None"] show ?thesis by simp
  qed
qed

lemma tracked_consume_body:
  assumes "tracked c"
  shows "tracked (consume_body lib user c)"
proof -
  obtain r msg c1 where m: "consume_msg lib c = (r, msg, c1)" by (cases "consume_msg lib c")
  from tracked_consume_msg [OF assms m] have "tracked (deliver_msg lib user msg c1)" "tracked c1"
    by (simp_all add: deliver_msg_def Let_def tracked_user_commits tracked_emit)
  with m show ?thesis by (simp add: consume_body_def tracked_checkTime)
qed

lemma consume_body_frame:
  "client (consume_body lib user c) = client c" "running (consume_body lib user c) = running c"
proof -
  obtain r msg c1 where m: "consume_msg lib c = (r, msg, c1)" by (cases "consume_msg lib c")
  have "client (user_commits lib is d) = client d \<and> running (user_commits lib is d) = running d" for "is" d
    unfolding user_commits_def
    by (rule foldl_invariant [where I = "\<lambda>x. client x = client d \<and> running x = running d"])
       (auto simp: pulsar_commitOffset_def acknowledge_def Let_def pl_emit_def)
  with m consume_msg_conf [OF m] show "client (consume_body lib user c) = client c"
    "running (consume_body lib user c) = running c"
    by (simp_all add: consume_body_def deliver_msg_def Let_def pl_emit_def)
qed

lemma tracked_consume_loop:
  assumes "tracked c"
  shows "tracked (consume_loop n lib user c)" "client (consume_loop n lib user c) = client c"
    "running (consume_loop n lib user c) = running c"
  using assms by (induction n arbitrary: c) (simp_all add: tracked_consume_body consume_body_frame)

section \<open>After acknowledging\<close>

lemma acknowledgeAll_latest:
  assumes "order_law lib" and "tracked c" and "latest (pl_calls c) t = Some (Some i)"
  shows "PlAck (Some i) \<in> set (pl_calls (acknowledgeAll lib c))"
proof -
  have m: "map_ok c" using assms(2) by (simp add: tracked_def)
  note calls = acknowledgeAll_calls [OF assms(1) m]
  have "map_of (topic_latest_msg_id_map c) t = Some (Some i) \<or> PlAck (Some i) \<in> set (pl_calls c)"
    using assms(2,3) unfolding tracked_def noted_def by (auto dest!: spec [of _ t])
  moreover have "Some i \<in> set (pending (map_of (topic_latest_msg_id_map c))
      (pl_order lib (map fst (topic_latest_msg_id_map c))))"
    if "map_of (topic_latest_msg_id_map c) t = Some (Some i)"
    unfolding set_pending_iff order_distinct(2) [OF assms(1) m] using that by auto
  ultimately show ?thesis by (auto simp: calls)
qed

text \<open>What is received last on a topic and was acknowledged stays so under further acknowledgements.\<close>

definition newest_acked :: "pl_call list \<Rightarrow> bool" where
  "newest_acked log \<longleftrightarrow> (\<forall>t i. latest log t = Some (Some i) \<longrightarrow> PlAck (Some i) \<in> set log)"

lemma newest_acked_acknowledgeAll:
  assumes "order_law lib" and "tracked c"
  shows "newest_acked (pl_calls (acknowledgeAll lib c))"
proof -
  have "latest (pl_calls (acknowledgeAll lib c)) = latest (pl_calls c)"
    using assms by (simp add: acknowledgeAll_calls tracked_def)
  with acknowledgeAll_latest [OF assms] show ?thesis by (simp add: newest_acked_def)
qed

lemma newest_acked_stop:
  assumes "order_law lib" and "tracked c" and "client c" and "running c"
  shows "newest_acked (pl_calls (pulsar_stop lib c))"
  using newest_acked_acknowledgeAll [OF assms(1), of "c\<lparr>running := False\<rparr>"] assms(2-4)
  by (simp add: pulsar_stop_def)

text \<open>The newest message is not changed by acknowledging.\<close>

lemma latest_acknowledgeAll:
  "order_law lib \<Longrightarrow> tracked c \<Longrightarrow> latest (pl_calls (acknowledgeAll lib c)) = latest (pl_calls c)"
  by (simp add: acknowledgeAll_calls tracked_def)

lemma latest_stop: "order_law lib \<Longrightarrow> tracked c \<Longrightarrow> latest (pl_calls (pulsar_stop lib c)) = latest (pl_calls c)"
  by (simp add: pulsar_stop_def latest_acknowledgeAll)

lemma latest_checkTime:
  "order_law lib \<Longrightarrow> tracked c \<Longrightarrow>
     latest (pl_calls (checkTimeThenAcknowledgeAll lib c)) = latest (pl_calls c)"
  by (simp add: checkTimeThenAcknowledgeAll_def Let_def latest_acknowledgeAll tracked_emit pl_emit_def [of PlNow]
      split: prod.split) (simp add: latest_acknowledgeAll tracked_emit [unfolded pl_emit_def])

lemma latest_demo_body:
  assumes "tracked c"
  shows "latest (pl_calls (consume_body demo_pulsar (\<lambda>_. []) c)) ''t-partition-0'' =
     Some (Some (length (pl_calls c)))"
proof -
  obtain r msg c1 where m: "consume_msg demo_pulsar c = (r, msg, c1)" by (cases "consume_msg demo_pulsar c")
  then have r: "r = ResultOk" "latest (pl_calls c1) ''t-partition-0'' = Some (Some (length (pl_calls c)))"
    by (auto simp: consume_msg_def demo_pulsar_def Let_def pl_emit_def latest_def)
  have "latest (pl_calls (deliver_msg demo_pulsar (\<lambda>_. []) msg c1)) = latest (pl_calls c1)"
    by (simp add: deliver_msg_def Let_def pl_emit_def)
  moreover have "tracked (deliver_msg demo_pulsar (\<lambda>_. []) msg c1)"
    using tracked_consume_msg [OF assms m]
    by (simp add: deliver_msg_def Let_def tracked_user_commits tracked_emit)
  ultimately show ?thesis
    using m r by (simp add: consume_body_def latest_checkTime [OF demo_pulsar_laws(1)])
qed

section \<open>Property\<close>

text \<open>No message is left behind: in every mode, with any callback and whatever the client library
  answers, when \<open>stop\<close> of a started consumer returns, the newest message of every topic, as the log
  shows it, has been acknowledged, and with it, since the acknowledgements are cumulative, all that
  were received before it.\<close>

theorem stop_acknowledges_newest:
  assumes "order_law lib"
    and "pulsar_init pt broker lp cp pulsar_consumer_new = (rt1, c1)"
    and "pulsar_subscribe lib sub topics c1 = (rt2, c2)"
    and "pulsar_start lib c2 = (True, c3)"
    and "c = pulsar_stop lib (consume_loop n lib user c3)"
  shows "\<not> running c \<and>
     (\<forall>t i. latest (pl_calls c) t = Some (Some i) \<longrightarrow> PlAck (Some i) \<in> set (pl_calls c))"
proof -
  have t: "tracked c3"
    using tracked_init [OF tracked_new, of pt broker lp cp] tracked_subscribe [of c1 lib sub topics]
      tracked_start [of c2 lib] assms(2-4) by simp
  have r: "client c3" "running c3"
    using assms(4) by (auto simp: pulsar_start_def timer_start_def Let_def pl_emit_def split: if_splits)
  note l = tracked_consume_loop [OF t, of n lib user]
  from newest_acked_stop [OF assms(1) l(1)] l(2,3) r
  show ?thesis by (simp add: assms(5) newest_acked_def pulsar_stop_def)
qed

theorem stop_acknowledges_newest_witness:
  "\<exists>i. latest (pl_calls (pulsar_stop demo_pulsar
        (consume_loop 1 demo_pulsar (\<lambda>_. []) (pulsar_running False)))) ''t-partition-0'' = Some (Some i) \<and>
     PlAck (Some i) \<in> set (pl_calls (pulsar_stop demo_pulsar
        (consume_loop 1 demo_pulsar (\<lambda>_. []) (pulsar_running False))))"
proof -
  let ?c1 = "snd (pulsar_init (pulsar_file False) [] [] ''c'' pulsar_consumer_new)"
  let ?c2 = "snd (pulsar_subscribe demo_pulsar [] [''t''] ?c1)"
  have s: "pulsar_start demo_pulsar ?c2 = (True, pulsar_running False)"
    using pulsar_running_starts(1) [of False] unfolding pulsar_running_def by (metis prod.collapse)
  have t: "tracked (pulsar_running False)"
    unfolding pulsar_running_def
    by (intro tracked_start tracked_subscribe tracked_init tracked_new)
  have l: "latest (pl_calls (pulsar_stop demo_pulsar
      (consume_loop 1 demo_pulsar (\<lambda>_. []) (pulsar_running False)))) ''t-partition-0'' =
      Some (Some (length (pl_calls (pulsar_running False))))"
    using latest_demo_body [OF t]
      latest_stop [OF demo_pulsar_laws(1) tracked_consume_body [OF t, of demo_pulsar "\<lambda>_. []"]]
    by simp
  from stop_acknowledges_newest [OF demo_pulsar_laws(1) surjective_pairing surjective_pairing s refl,
      of 1 "\<lambda>_. []"] l
  show ?thesis by blast
qed

end
