(* ===== verification/Pulsar_Threads.thy ===== *)
theory Pulsar_Threads
  imports Loop_Thread Pulsar_Newest
begin

text \<open>
  The loop thread of the Pulsar consumer beside the thread that calls \<open>start\<close> and \<open>stop\<close>
  (pulsar/qbus_consumer.cc). An iteration of \<open>consumeLoop\<close> is cut where another thread may come
  between: before the message is received, before the callback runs and before the deferred
  acknowledgement.

  First part: without \<open>force.stop\<close> the call of \<open>stop\<close> is an instance of \<open>stoppable_loop\<close>, hence
  every interleaving leaves what \<open>pulsar_stop\<close> after some number of whole iterations leaves.
  Second part: the calls of \<open>start\<close> and \<open>stop\<close> in any order, with the future of the loop and
  \<open>force.stop\<close>. The callback decides by the calls that were made so far.
\<close>

section \<open>One iteration, cut into steps\<close>

datatype iteration = Receiving | Delivering pl_message | Checking | IterationDone

definition loop_transit ::
  "pulsar_lib \<Rightarrow> (pl_call list \<Rightarrow> pulsar_info list) \<Rightarrow> iteration \<Rightarrow> pulsar_consumer \<Rightarrow>
     (iteration \<times> pulsar_consumer) option" where
  "loop_transit lib user l c =
     (case l of
        Receiving \<Rightarrow>
          (let (result, msg, c) = consume_msg lib c
           in Some (if result = ResultOk then Delivering msg else Checking, c))
      | Delivering msg \<Rightarrow> Some (Checking, deliver_msg lib (\<lambda>c. user (pl_calls c)) msg c)
      | Checking \<Rightarrow> Some (IterationDone, checkTimeThenAcknowledgeAll lib c)
      | IterationDone \<Rightarrow> None)"

definition loop_rest ::
  "pulsar_lib \<Rightarrow> (pl_call list \<Rightarrow> pulsar_info list) \<Rightarrow> iteration \<Rightarrow> pulsar_consumer \<Rightarrow>
     pulsar_consumer" where
  "loop_rest lib user l c =
     (case l of
        Receiving \<Rightarrow> consume_body lib (\<lambda>c. user (pl_calls c)) c
      | Delivering msg \<Rightarrow>
          checkTimeThenAcknowledgeAll lib (deliver_msg lib (\<lambda>c. user (pl_calls c)) msg c)
      | Checking \<Rightarrow> checkTimeThenAcknowledgeAll lib c
      | IterationDone \<Rightarrow> c)"

fun steps_rank :: "iteration \<Rightarrow> nat" where
  "steps_rank Receiving = 3"
| "steps_rank (Delivering msg) = 2"
| "steps_rank Checking = 1"
| "steps_rank IterationDone = 0"

definition not_running :: "pulsar_consumer \<Rightarrow> pulsar_consumer" where
  "not_running c = c\<lparr>running := False\<rparr>"

section \<open>The loop does not read the flag\<close>

lemma fold_not_running:
  assumes "\<And>c x. f (not_running c) x = not_running (f c x)"
  shows "foldl f (not_running c) xs = not_running (foldl f c xs)"
  using assms by (induction xs arbitrary: c) simp_all

lemma not_running_simps [simp]:
  "pl_calls (not_running c) = pl_calls c" "client (not_running c) = client c"
  "consumer_conf (not_running c) = consumer_conf c"
  "topic_latest_msg_id_map (not_running c) = topic_latest_msg_id_map c"
  "timer_state (not_running c) = timer_state c" "\<not> running (not_running c)"
  "the_conf (not_running c) = the_conf c"
  by (simp_all add: not_running_def the_conf_def)

lemma not_running_updates:
  "pl_emit x (not_running c) = not_running (pl_emit x c)"
  "(not_running c)\<lparr>topic_latest_msg_id_map := m\<rparr> = not_running (c\<lparr>topic_latest_msg_id_map := m\<rparr>)"
  "(not_running c)\<lparr>timer_state := t\<rparr> = not_running (c\<lparr>timer_state := t\<rparr>)"
  by (simp_all add: not_running_def pl_emit_def)

lemma acknowledge_not_running:
  "acknowledge lib mid (not_running c) = map_prod (\<lambda>b. b) not_running (acknowledge lib mid c)"
  by (simp add: acknowledge_def not_running_updates)

lemma ack_topic_not_running: "ack_topic lib (not_running c) k = not_running (ack_topic lib c k)"
  by (simp add: ack_topic_def acknowledge_def not_running_updates split: option.split)

lemma acknowledgeAll_not_running: "acknowledgeAll lib (not_running c) = not_running (acknowledgeAll lib c)"
  by (simp add: acknowledgeAll_def fold_not_running ack_topic_not_running)

lemma checkTime_not_running:
  "checkTimeThenAcknowledgeAll lib (not_running c) = not_running (checkTimeThenAcknowledgeAll lib c)"
  by (simp add: checkTimeThenAcknowledgeAll_def Let_def not_running_updates acknowledgeAll_not_running
      split: prod.split)

lemma commits_not_running: "user_commits lib is (not_running c) = not_running (user_commits lib is c)"
  unfolding user_commits_def
  by (rule fold_not_running) (simp add: pulsar_commitOffset_def acknowledge_not_running)

lemma deliver_not_running:
  "deliver_msg lib (\<lambda>c. user (pl_calls c)) msg (not_running c) =
     not_running (deliver_msg lib (\<lambda>c. user (pl_calls c)) msg c)"
  by (simp add: deliver_msg_def Let_def not_running_updates commits_not_running)

lemma consume_msg_not_running:
  "consume_msg lib (not_running c) =
     (case consume_msg lib c of (result, msg, c) \<Rightarrow> (result, msg, not_running c))"
  by (simp add: consume_msg_def Let_def not_running_updates split: prod.split)

lemma consume_body_not_running:
  "consume_body lib (\<lambda>c. user (pl_calls c)) (not_running c) =
     not_running (consume_body lib (\<lambda>c. user (pl_calls c)) c)"
  by (cases "consume_msg lib c") (simp add: consume_body_def consume_msg_not_running
      deliver_not_running checkTime_not_running)

lemma loop_rest_not_running: "loop_rest lib user l (not_running c) = not_running (loop_rest lib user l c)"
  by (cases l) (simp_all add: loop_rest_def consume_body_not_running deliver_not_running
      checkTime_not_running)

lemma deliver_frame [simp]:
  "client (deliver_msg lib user msg c) = client c" "running (deliver_msg lib user msg c) = running c"
  "consumer_conf (deliver_msg lib user msg c) = consumer_conf c"
proof -
  have "client (user_commits lib is d) = client d \<and> running (user_commits lib is d) = running d \<and>
      consumer_conf (user_commits lib is d) = consumer_conf d" for "is" d
    unfolding user_commits_def
    by (rule foldl_invariant [where I = "\<lambda>x. client x = client d \<and> running x = running d \<and>
          consumer_conf x = consumer_conf d"])
       (auto simp: pulsar_commitOffset_def acknowledge_def pl_emit_def)
  then show "client (deliver_msg lib user msg c) = client c"
    "running (deliver_msg lib user msg c) = running c"
    "consumer_conf (deliver_msg lib user msg c) = consumer_conf c"
    by (simp_all add: deliver_msg_def Let_def pl_emit_def)
qed

lemma consume_msg_frame:
  "consume_msg lib c = (result, msg, c1) \<Longrightarrow>
     client c1 = client c \<and> running c1 = running c \<and> consumer_conf c1 = consumer_conf c"
  by (auto simp: consume_msg_def Let_def pl_emit_def split: prod.splits if_splits)

section \<open>stop without force.stop\<close>

interpretation pulsar_loop: stoppable_loop running Receiving "loop_transit lib user" not_running
  "\<lambda>c. c" "\<lambda>c. c" "\<lambda>c. c" "loop_rest lib user" steps_rank for lib user
proof unfold_locales
  fix l l' c c'
  show "loop_transit lib user l c = None \<Longrightarrow> loop_rest lib user l c = c"
    by (cases l) (auto simp: loop_transit_def loop_rest_def split: prod.splits)
  assume "loop_transit lib user l c = Some (l', c')"
  then show "loop_rest lib user l' c' = loop_rest lib user l c" "steps_rank l' < steps_rank l"
    "running c' = running c"
    by (cases l; auto simp: loop_transit_def loop_rest_def consume_body_def
        dest: consume_msg_frame split: prod.splits if_splits)+
qed (simp_all add: loop_rest_not_running)

lemma iterated_consume_loop:
  "pulsar_loop.iterated lib user n c = consume_loop n lib (\<lambda>c. user (pl_calls c)) c"
proof -
  have "(loop_rest lib user Receiving ^^ n) c = consume_loop n lib (\<lambda>c. user (pl_calls c)) c"
    by (induction n arbitrary: c) (simp_all add: funpow_Suc_right loop_rest_def del: funpow.simps(2))
  then show ?thesis by (simp add: pulsar_loop.iterated_def)
qed

text \<open>The machine of a started consumer whose \<open>stop\<close> is called at some point.\<close>

definition pulsar_machine ::
  "pulsar_lib \<Rightarrow> (pl_call list \<Rightarrow> pulsar_info list) \<Rightarrow> (pulsar_consumer, iteration) loop_machine \<Rightarrow> nat \<Rightarrow>
     (pulsar_consumer, iteration) loop_machine \<Rightarrow> bool" where
  "pulsar_machine lib user =
     loop_run running Receiving (loop_transit lib user) not_running (\<lambda>c. c) (\<lambda>c. c)"

lemma consume_loop_frame:
  "client (consume_loop n lib user c) = client c \<and> running (consume_loop n lib user c) = running c"
  by (induction n arbitrary: c) (simp_all add: consume_body_frame)

lemma pulsar_stop_after_loop:
  assumes "client c" and "running c"
  shows "acknowledgeAll lib (not_running (consume_loop n lib user c)) =
     pulsar_stop lib (consume_loop n lib user c)"
  unfolding pulsar_stop_def not_running_def using assms by (simp add: consume_loop_frame)

lemma pulsar_joined_serial:
  assumes "client c" and "running c" and "pulsar_machine lib user (loop_start c) k m"
    and "lm_control m = Joined"
  shows "\<exists>n. acknowledgeAll lib (lm_state m) =
     pulsar_stop lib (consume_loop n lib (\<lambda>c. user (pl_calls c)) c)"
proof -
  obtain n where "lm_state m = not_running (consume_loop n lib (\<lambda>c. user (pl_calls c)) c)"
    using pulsar_loop.joined_serial [of lib user c k m] assms(2-4)
    by (auto simp: pulsar_machine_def iterated_consume_loop)
  then show ?thesis using pulsar_stop_after_loop [OF assms(1,2)] by auto
qed

lemma pulsar_start_running:
  "fst (pulsar_start lib c) \<Longrightarrow> client (snd (pulsar_start lib c)) \<and> running (snd (pulsar_start lib c))"
  by (auto simp: pulsar_start_def timer_start_def Let_def pl_emit_def split: if_splits)

lemma demo_runs: "client (pulsar_running manual)" "running (pulsar_running manual)"
  using pulsar_start_running [OF pulsar_running_starts(1) [of manual]] by (simp_all add: pulsar_running_def)

text \<open>C13: Whatever point of an iteration the loop thread has reached when \<open>stop\<close> resets the flag, the
  state that \<open>stop\<close> leaves is one of the sequential description: some number of whole iterations,
  then \<open>pulsar_stop\<close>; and every number of iterations is possible.\<close>

theorem pulsar_stop_serialises:
  assumes "client c" and "running c"
  shows "(\<forall>k m. pulsar_machine lib user (loop_start c) k m \<and> lm_control m = Joined \<longrightarrow>
       (\<exists>n. acknowledgeAll lib (lm_state m) =
          pulsar_stop lib (consume_loop n lib (\<lambda>c. user (pl_calls c)) c))) \<and>
     (\<forall>n. \<exists>k m. pulsar_machine lib user (loop_start c) k m \<and> lm_control m = Joined \<and>
       acknowledgeAll lib (lm_state m) =
         pulsar_stop lib (consume_loop n lib (\<lambda>c. user (pl_calls c)) c))"
proof (intro conjI allI impI)
  fix k m
  assume "pulsar_machine lib user (loop_start c) k m \<and> lm_control m = Joined"
  with pulsar_joined_serial [OF assms] show "\<exists>n. acknowledgeAll lib (lm_state m) =
      pulsar_stop lib (consume_loop n lib (\<lambda>c. user (pl_calls c)) c)" by blast
next
  fix n
  from pulsar_loop.run_serial [OF assms(2), of lib user n] obtain k m where
    "pulsar_machine lib user (loop_start c) k m" "lm_control m = Joined"
    "lm_state m = not_running (consume_loop n lib (\<lambda>c. user (pl_calls c)) c)"
    by (auto simp: pulsar_machine_def iterated_consume_loop)
  then show "\<exists>k m. pulsar_machine lib user (loop_start c) k m \<and> lm_control m = Joined \<and>
      acknowledgeAll lib (lm_state m) = pulsar_stop lib (consume_loop n lib (\<lambda>c. user (pl_calls c)) c)"
    using pulsar_stop_after_loop [OF assms] by (intro exI conjI) auto
qed

theorem pulsar_stop_serialises_witness:
  "\<exists>k m n. pulsar_machine demo_pulsar (\<lambda>_. []) (loop_start (pulsar_running False)) k m \<and>
     lm_control m = Joined \<and> acknowledgeAll demo_pulsar (lm_state m) =
       pulsar_stop demo_pulsar (consume_loop n demo_pulsar (\<lambda>_. []) (pulsar_running False))"
  using conjunct2 [OF pulsar_stop_serialises [OF demo_runs, of demo_pulsar "\<lambda>_. []" False],
      rule_format, of 2]
  by (elim exE) (intro exI)

text \<open>Once \<open>stop\<close> has reset the flag, the loop thread and \<open>stop\<close> make at most seven more steps,
  whatever the schedule, and every schedule can be continued until \<open>stop\<close> has returned from waiting.\<close>

theorem pulsar_stop_returns:
  assumes "running c" and "pulsar_machine lib user (loop_start c) k m" and "lm_control m \<noteq> Running"
  shows "\<forall>j m'. pulsar_machine lib user m j m' \<longrightarrow>
     j \<le> 7 \<and> (\<exists>i m''. pulsar_machine lib user m' i m'' \<and> lm_control m'' = Joined)"
proof -
  have "steps_rank l \<le> 3" for l by (cases l) simp_all
  from pulsar_loop.bounded_return [OF assms(2) [unfolded pulsar_machine_def] assms(1,3) this]
  show ?thesis by (simp add: pulsar_machine_def)
qed

theorem pulsar_stop_returns_witness:
  "\<exists>k m i m''. pulsar_machine demo_pulsar (\<lambda>_. []) (loop_start (pulsar_running False)) k m \<and>
     lm_control m = Resetting \<and> pulsar_machine demo_pulsar (\<lambda>_. []) m i m'' \<and> lm_control m'' = Joined"
proof -
  let ?m = "\<lparr>lm_state = not_running (pulsar_running False), lm_thread = Testing, lm_control = Resetting\<rparr>"
  have k: "pulsar_machine demo_pulsar (\<lambda>_. []) (loop_start (pulsar_running False)) (Suc 0) ?m"
    using one_more [OF no_step reset, of "loop_start (pulsar_running False)"]
    by (simp add: pulsar_machine_def loop_start_def)
  have z: "pulsar_machine demo_pulsar (\<lambda>_. []) ?m 0 ?m" unfolding pulsar_machine_def by (rule no_step)
  have "lm_control ?m \<noteq> Running" by simp
  from conjunct2 [OF pulsar_stop_returns [OF demo_runs(2) k this, rule_format, OF z]]
  obtain i m'' where "pulsar_machine demo_pulsar (\<lambda>_. []) ?m i m''" "lm_control m'' = Joined"
    by blast
  with k \<open>lm_control ?m \<noteq> Running\<close> show ?thesis
    by (intro exI [of _ "Suc 0"] exI [of _ ?m] exI [of _ i] exI [of _ m'']) simp
qed

text \<open>C10: A whole run of the Pulsar consumer, from a new object through \<open>init\<close>, \<open>subscribe\<close> and \<open>start\<close> to a
  \<open>stop\<close> without \<open>force.stop\<close> that interrupts the loop anywhere in an iteration, leaves no message
  behind: for the newest message of every topic, as the log shows it, the acknowledgement has been
  requested, and with it, since acknowledgements are cumulative, that of all that were received before.
  This is so whatever the callback commits, also with \<open>manual.ack\<close>. If the callback commits nothing itself,
  every id whose acknowledgement was requested was delivered before.\<close>

theorem interrupted_stop_acknowledges:
  assumes "order_law lib"
    and "pulsar_init pt broker lp cp pulsar_consumer_new = (rt1, c1)"
    and "pulsar_subscribe lib sub topics c1 = (rt2, c2)"
    and "pulsar_start lib c2 = (True, c3)"
    and "pulsar_machine lib user (loop_start c3) k m" and "lm_control m = Joined"
    and "c = acknowledgeAll lib (lm_state m)"
  shows "(\<forall>t i. latest (pl_calls c) t = Some (Some i) \<longrightarrow> PlAck (Some i) \<in> set (pl_calls c)) \<and>
     (user = (\<lambda>_. []) \<longrightarrow> acked_after_delivery (pl_calls c))"
proof -
  have t: "tracked c3"
    using tracked_init [OF tracked_new, of pt broker lp cp] tracked_subscribe [of c1 lib sub topics]
      tracked_start [of c2 lib] assms(2-4) by simp
  have a: "auto_ok c3"
    using auto_ok_init [OF auto_ok_new, of pt broker lp cp] auto_ok_subscribe [of c1 lib sub topics]
      auto_ok_start [of c2 lib] assms(2-4) by simp
  have r: "client c3" "running c3" using pulsar_start_running [of lib c2] assms(4) by simp_all
  from pulsar_joined_serial [OF r assms(5,6)] obtain n where
    n: "c = pulsar_stop lib (consume_loop n lib (\<lambda>c. user (pl_calls c)) c3)" using assms(7) by blast
  have "newest_acked (pl_calls c)"
    using newest_acked_stop [OF assms(1) tracked_consume_loop(1) [OF t]] r n
    by (simp add: consume_loop_frame)
  moreover have "auto_ok c" if "user = (\<lambda>_. [])"
    using that n by (simp add: auto_ok_stop auto_ok_consume_loop assms(1) a)
  ultimately show ?thesis by (auto simp: newest_acked_def auto_ok_def)
qed

theorem interrupted_stop_acknowledges_witness:
  "\<exists>k m. pulsar_machine demo_pulsar (\<lambda>_. []) (loop_start (pulsar_running False)) k m \<and>
     lm_control m = Joined \<and> acked_after_delivery (pl_calls (acknowledgeAll demo_pulsar (lm_state m)))"
proof -
  obtain k m where m: "pulsar_machine demo_pulsar (\<lambda>_. []) (loop_start (pulsar_running False)) k m"
    "lm_control m = Joined"
    using pulsar_loop.run_serial [OF demo_runs(2) [of False], of demo_pulsar "\<lambda>_. []" 2]
    by (auto simp: pulsar_machine_def)
  have s: "pulsar_start demo_pulsar (snd (pulsar_subscribe demo_pulsar [] [''t'']
     (snd (pulsar_init (pulsar_file False) [] [] ''c'' pulsar_consumer_new)))) = (True, pulsar_running False)"
    using pulsar_running_starts(1) [of False] unfolding pulsar_running_def by (metis prod.collapse)
  from interrupted_stop_acknowledges [OF demo_pulsar_laws(1) surjective_pairing surjective_pairing s m refl]
    m show ?thesis by blast
qed

end
