(* ===== verification/Pulsar_Restart.thy ===== *)
theory Pulsar_Restart
  imports Pulsar_Threads
begin

text \<open>
  \<open>start\<close> and \<open>stop\<close> of the Pulsar consumer in any order, with the loop threads that \<open>start\<close> makes,
  the future \<open>consume_loop_future_\<close> and the setting \<open>force.stop\<close> (pulsar/qbus_consumer.cc).

  A thread is known by its place in the list of all threads made so far. The future names a thread or
  is empty; \<open>get\<close> waits for the thread and empties it, \<open>wait_for\<close> waits a millisecond at most and
  keeps it. Assigning to a future that came from \<open>std::async\<close> first waits for its old thread: this is
  the C++ standard's rule for the shared state of an asynchronous call ([futures.async]), and it holds
  for the destructor of the future too. Calls of \<open>start\<close> and \<open>stop\<close> that are rejected change nothing and
  are no steps. When the destructor of the consumer has run its body (\<open>pulsar_destroy\<close>), the members are
  destroyed in the opposite order of their declaration: the timer and the map first, then the future,
  which waits while a loop may still use them (\<open>DestroyWaiting\<close>).
\<close>

section \<open>State and steps\<close>

datatype thread_pc = ThreadStarting | ThreadTesting | ThreadIterating iteration | ThreadEnded

datatype caller_pc =
    CallerIdle | StartAssigning nat | StopWaiting | StopAcknowledging
  | DestroyWaiting | CallerGone

record restart_machine =
  rm_consumer :: pulsar_consumer
  rm_threads :: "thread_pc list"
  rm_future :: "nat option"          \<comment> \<open>\<open>consume_loop_future_\<close>, by the thread it belongs to\<close>
  rm_caller :: caller_pc

definition restart_new :: "pulsar_consumer \<Rightarrow> restart_machine" where
  "restart_new c = \<lparr>rm_consumer = c, rm_threads = [], rm_future = None, rm_caller = CallerIdle\<rparr>"

text \<open>A step of a loop thread, \<open>consumeLoop\<close> from its first action.\<close>

definition thread_step ::
  "pulsar_lib \<Rightarrow> (pl_call list \<Rightarrow> pulsar_info list) \<Rightarrow> thread_pc \<Rightarrow> pulsar_consumer \<Rightarrow>
     (thread_pc \<times> pulsar_consumer) option" where
  "thread_step lib user p c =
     (case p of
        ThreadStarting \<Rightarrow> Some (ThreadTesting, timer_start lib c)
      | ThreadTesting \<Rightarrow> Some (if running c then ThreadIterating Receiving else ThreadEnded, c)
      | ThreadIterating l \<Rightarrow>
          (case loop_transit lib user l c of
             None \<Rightarrow> Some (ThreadTesting, c)
           | Some (l', c') \<Rightarrow> Some (ThreadIterating l', c'))
      | ThreadEnded \<Rightarrow> None)"

definition thread_over :: "restart_machine \<Rightarrow> nat \<Rightarrow> bool" where
  "thread_over m i \<longleftrightarrow> (i < length (rm_threads m) \<longrightarrow> rm_threads m ! i = ThreadEnded)"

definition future_over :: "restart_machine \<Rightarrow> bool" where
  "future_over m = (case rm_future m of None \<Rightarrow> True | Some i \<Rightarrow> thread_over m i)"

inductive restart_step ::
  "pulsar_lib \<Rightarrow> (pl_call list \<Rightarrow> pulsar_info list) \<Rightarrow> restart_machine \<Rightarrow> restart_machine \<Rightarrow> bool"
  for lib user where
  start_call: "rm_caller m = CallerIdle \<Longrightarrow> client (rm_consumer m) \<Longrightarrow> \<not> running (rm_consumer m) \<Longrightarrow>
    has_subscribed (rm_consumer m) \<Longrightarrow>
    restart_step lib user m
      (m\<lparr>rm_consumer := rm_consumer m\<lparr>running := True\<rparr>, rm_threads := rm_threads m @ [ThreadStarting],
         rm_caller := StartAssigning (length (rm_threads m))\<rparr>)"
| start_return: "rm_caller m = StartAssigning j \<Longrightarrow> future_over m \<Longrightarrow>
    restart_step lib user m (m\<lparr>rm_future := Some j, rm_caller := CallerIdle\<rparr>)"
| stop_call: "rm_caller m = CallerIdle \<Longrightarrow> client (rm_consumer m) \<Longrightarrow> running (rm_consumer m) \<Longrightarrow>
    restart_step lib user m
      (m\<lparr>rm_consumer := not_running (rm_consumer m), rm_caller := StopWaiting\<rparr>)"
| stop_wait_for: "rm_caller m = StopWaiting \<Longrightarrow> cc_force_stop (the_conf (rm_consumer m)) \<Longrightarrow>
    restart_step lib user m (m\<lparr>rm_caller := StopAcknowledging\<rparr>)"
| stop_get: "rm_caller m = StopWaiting \<Longrightarrow> \<not> cc_force_stop (the_conf (rm_consumer m)) \<Longrightarrow>
    future_over m \<Longrightarrow>
    restart_step lib user m (m\<lparr>rm_future := None, rm_caller := StopAcknowledging\<rparr>)"
| stop_return: "rm_caller m = StopAcknowledging \<Longrightarrow>
    restart_step lib user m
      (m\<lparr>rm_consumer := acknowledgeAll lib (rm_consumer m), rm_caller := CallerIdle\<rparr>)"
| destroy_call: "rm_caller m = CallerIdle \<Longrightarrow>
    restart_step lib user m
      (m\<lparr>rm_consumer := pulsar_destroy lib (rm_consumer m), rm_caller := DestroyWaiting\<rparr>)"
| destroy_return: "rm_caller m = DestroyWaiting \<Longrightarrow> future_over m \<Longrightarrow>
    restart_step lib user m (m\<lparr>rm_future := None, rm_caller := CallerGone\<rparr>)"
| thread: "i < length (rm_threads m) \<Longrightarrow>
    thread_step lib user (rm_threads m ! i) (rm_consumer m) = Some (p, c) \<Longrightarrow>
    restart_step lib user m (m\<lparr>rm_consumer := c, rm_threads := (rm_threads m)[i := p]\<rparr>)"

section \<open>What a thread leaves alone\<close>

lemma thread_step_frame:
  assumes "thread_step lib user p c = Some (p', c')"
  shows "running c' = running c" "client c' = client c" "consumer_conf c' = consumer_conf c"
    "p \<noteq> ThreadEnded" "running c \<Longrightarrow> p' \<noteq> ThreadEnded"
  using assms
  by (auto simp: thread_step_def loop_transit_def timer_start_def Let_def pl_emit_def
      dest: consume_msg_frame split: thread_pc.splits iteration.splits prod.splits if_splits)

lemma thread_step_enabled: "p \<noteq> ThreadEnded \<Longrightarrow> \<exists>x. thread_step lib user p c = Some x"
  by (cases p) (auto simp: thread_step_def split: option.split prod.split)

section \<open>Without force.stop there is one loop\<close>

definition only_thread :: "restart_machine \<Rightarrow> nat \<Rightarrow> bool" where
  "only_thread m i \<longleftrightarrow> i < length (rm_threads m) \<and>
     (\<forall>j < length (rm_threads m). j \<noteq> i \<longrightarrow> rm_threads m ! j = ThreadEnded)"

definition no_thread :: "restart_machine \<Rightarrow> bool" where
  "no_thread m \<longleftrightarrow> (\<forall>j < length (rm_threads m). rm_threads m ! j = ThreadEnded)"

definition idle_ok :: "restart_machine \<Rightarrow> bool" where
  "idle_ok m \<longleftrightarrow>
     (if running (rm_consumer m)
      then \<exists>i. rm_future m = Some i \<and> only_thread m i \<and> rm_threads m ! i \<noteq> ThreadEnded
      else rm_future m = None \<and> no_thread m)"

fun caller_ok :: "caller_pc \<Rightarrow> restart_machine \<Rightarrow> bool" where
  "caller_ok CallerIdle m \<longleftrightarrow> idle_ok m"
| "caller_ok (StartAssigning j) m \<longleftrightarrow>
     running (rm_consumer m) \<and> rm_future m = None \<and> only_thread m j \<and> rm_threads m ! j \<noteq> ThreadEnded"
| "caller_ok StopWaiting m \<longleftrightarrow>
     \<not> running (rm_consumer m) \<and> (\<exists>i. rm_future m = Some i \<and> only_thread m i)"
| "caller_ok StopAcknowledging m \<longleftrightarrow> \<not> running (rm_consumer m) \<and> rm_future m = None \<and> no_thread m"
| "caller_ok DestroyWaiting m \<longleftrightarrow> idle_ok m"
| "caller_ok CallerGone m \<longleftrightarrow> \<not> running (rm_consumer m) \<and> rm_future m = None \<and> no_thread m"

definition one_loop :: "restart_machine \<Rightarrow> bool" where
  "one_loop m \<longleftrightarrow> \<not> cc_force_stop (the_conf (rm_consumer m)) \<and> caller_ok (rm_caller m) m"

lemma acknowledgeAll_the_conf [simp]: "the_conf (acknowledgeAll lib c) = the_conf c"
  by (simp add: the_conf_def)

lemma acknowledgeAll_subscribed [simp]: "has_subscribed (acknowledgeAll lib c) = has_subscribed c"
  unfolding acknowledgeAll_def
  by (rule foldl_frame) (simp add: ack_topic_def acknowledge_def pl_emit_def split: option.split)

lemma the_conf_running [simp]: "the_conf (c\<lparr>running := b\<rparr>) = the_conf c"
  by (simp add: the_conf_def)

lemma pulsar_destroy_frame [simp]:
  "running (pulsar_destroy lib c) = running c" "client (pulsar_destroy lib c) = client c"
  "the_conf (pulsar_destroy lib c) = the_conf c" "has_subscribed (pulsar_destroy lib c) = has_subscribed c"
  by (simp_all add: pulsar_destroy_def pl_emit_def the_conf_def)

lemma one_loop_thread:
  assumes "one_loop m" and i: "i < length (rm_threads m)"
    and s: "thread_step lib user (rm_threads m ! i) (rm_consumer m) = Some (p, c)"
  shows "one_loop (m\<lparr>rm_consumer := c, rm_threads := (rm_threads m)[i := p]\<rparr>)"
proof -
  let ?m = "m\<lparr>rm_consumer := c, rm_threads := (rm_threads m)[i := p]\<rparr>"
  note f = thread_step_frame [OF s]
  have "only_thread ?m j" if "only_thread m j" for j
    using that f(4) i by (auto simp: only_thread_def nth_list_update)
  moreover have "\<not> no_thread m" using i f(4) by (auto simp: no_thread_def)
  moreover have "rm_threads ?m ! j \<noteq> ThreadEnded"
    if "rm_threads m ! j \<noteq> ThreadEnded" "running (rm_consumer m)" for j
    using that f(5) i by (auto simp: nth_list_update)
  ultimately have "caller_ok (rm_caller m) m \<Longrightarrow> caller_ok (rm_caller m) ?m"
    using f(1) by (cases "rm_caller m") (auto simp: idle_ok_def split: if_splits)
  with assms(1) f(3) show ?thesis by (simp add: one_loop_def the_conf_def)
qed

lemma one_loop_step: "restart_step lib user m m' \<Longrightarrow> one_loop m \<Longrightarrow> one_loop m'"
proof (induction rule: restart_step.induct)
  case (thread m i p c)
  then show ?case by (simp add: one_loop_thread)
next
  case (stop_get m)
  then have "no_thread (m\<lparr>rm_future := None, rm_caller := StopAcknowledging\<rparr>)"
    by (auto simp: one_loop_def future_over_def thread_over_def only_thread_def no_thread_def)
  with stop_get show ?case by (auto simp: one_loop_def)
qed (auto simp: one_loop_def idle_ok_def only_thread_def no_thread_def future_over_def thread_over_def
    nth_append less_Suc_eq split: if_splits)

lemma one_loop_reachable:
  assumes "(restart_step lib user)\<^sup>*\<^sup>* (restart_new c) m" and "\<not> cc_force_stop (the_conf c)"
    and "\<not> running c"
  shows "one_loop m"
proof -
  have "one_loop (restart_new c)" using assms(2,3) by (simp add: one_loop_def idle_ok_def restart_new_def no_thread_def)
  with assms(1) show ?thesis by (induction rule: rtranclp_induct) (auto intro: one_loop_step)
qed

text \<open>C18: In whatever order \<open>start\<close> and \<open>stop\<close> are called and however the loops are scheduled, without
  \<open>force.stop\<close> at most one loop is alive; a consumer that runs has one, unless \<open>stop\<close> waits none is
  left behind, \<open>start\<close> never waits for an old loop, and \<open>stop\<close> acknowledges after the last loop ended.\<close>

theorem one_loop_without_force_stop:
  assumes "(restart_step lib user)\<^sup>*\<^sup>* (restart_new c) m" and "\<not> cc_force_stop (the_conf c)"
    and "\<not> running c"
  shows "(\<forall>i j. i < length (rm_threads m) \<and> j < length (rm_threads m) \<and>
       rm_threads m ! i \<noteq> ThreadEnded \<and> rm_threads m ! j \<noteq> ThreadEnded \<longrightarrow> i = j) \<and>
     (running (rm_consumer m) \<longrightarrow>
       (\<exists>i < length (rm_threads m). rm_threads m ! i \<noteq> ThreadEnded)) \<and>
     (rm_caller m = CallerIdle \<and> \<not> running (rm_consumer m) \<longrightarrow>
       (\<forall>i < length (rm_threads m). rm_threads m ! i = ThreadEnded)) \<and>
     (\<forall>j. rm_caller m = StartAssigning j \<longrightarrow> future_over m) \<and>
     (rm_caller m = StopAcknowledging \<longrightarrow>
       (\<forall>i < length (rm_threads m). rm_threads m ! i = ThreadEnded))"
  using one_loop_reachable [OF assms]
  by (cases "rm_caller m")
     (auto simp: one_loop_def idle_ok_def only_thread_def no_thread_def future_over_def split: if_splits)

theorem one_loop_without_force_stop_witness:
  "\<exists>m. (restart_step demo_pulsar (\<lambda>_. []))\<^sup>*\<^sup>*
       (restart_new (pulsar_consumer_new\<lparr>client := True, has_subscribed := True\<rparr>)) m \<and>
     rm_caller m = StartAssigning 0 \<and> future_over m"
proof -
  let ?c = "pulsar_consumer_new\<lparr>client := True, has_subscribed := True\<rparr>"
  have "\<exists>m. restart_step demo_pulsar (\<lambda>_. []) (restart_new ?c) m \<and> rm_caller m = StartAssigning 0"
    by (intro exI conjI, rule start_call) (simp_all add: restart_new_def pulsar_consumer_new_def)
  then obtain m where m: "(restart_step demo_pulsar (\<lambda>_. []))\<^sup>*\<^sup>* (restart_new ?c) m"
    "rm_caller m = StartAssigning 0" by blast
  have "future_over m"
    using one_loop_without_force_stop [OF m(1)] m(2)
    by (simp add: pulsar_consumer_new_def the_conf_def consumer_config_default_def)
  with m show ?thesis by blast
qed

section \<open>Waiting for a loop that never ends\<close>

text \<open>The caller waits for a loop that the flag keeps going, and only the caller could reset it.\<close>

definition waits_for_loop :: "caller_pc \<Rightarrow> bool" where
  "waits_for_loop p \<longleftrightarrow> (\<exists>j. p = StartAssigning j) \<or> p = DestroyWaiting"

definition hangs :: "restart_machine \<Rightarrow> bool" where
  "hangs m \<longleftrightarrow> running (rm_consumer m) \<and> waits_for_loop (rm_caller m) \<and>
     (\<exists>i. rm_future m = Some i \<and> i < length (rm_threads m) \<and> rm_threads m ! i \<noteq> ThreadEnded)"

lemma hangs_step:
  "restart_step lib user m m' \<Longrightarrow> hangs m \<Longrightarrow> hangs m' \<and> rm_caller m' = rm_caller m"
proof (induction rule: restart_step.induct)
  case (thread m i p c)
  note f = thread_step_frame [OF thread(2)]
  show ?case
    using thread(1,3) f(1,5) by (auto simp: hangs_def nth_list_update)
qed (auto simp: hangs_def waits_for_loop_def future_over_def thread_over_def)

lemma hangs_forever:
  assumes "(restart_step lib user)\<^sup>*\<^sup>* m m'" and "hangs m"
  shows "hangs m' \<and> rm_caller m' = rm_caller m"
  using assms by (induction rule: rtranclp_induct) (auto dest: hangs_step)

text \<open>Nothing that happens from there on lets the caller return, and nothing is stuck either.\<close>

lemma hangs_observed:
  assumes "(restart_step lib user)\<^sup>*\<^sup>* m m'" and "hangs m"
  shows "rm_caller m' = rm_caller m \<and> running (rm_consumer m') \<and> \<not> future_over m' \<and>
     (\<exists>m''. restart_step lib user m' m'')"
proof -
  from hangs_forever [OF assms] obtain i where
    h: "rm_caller m' = rm_caller m" "running (rm_consumer m')" "rm_future m' = Some i"
    "i < length (rm_threads m')" "rm_threads m' ! i \<noteq> ThreadEnded"
    by (auto simp: hangs_def)
  obtain p c where "thread_step lib user (rm_threads m' ! i) (rm_consumer m') = Some (p, c)"
    using thread_step_enabled [OF h(5), of lib user "rm_consumer m'"] by auto
  from thread [OF h(4) this] h show ?thesis by (auto simp: future_over_def thread_over_def)
qed

lemma thread_run:
  assumes "rm_threads m ! i = p" and "i < length (rm_threads m)"
    and "thread_step lib user p (rm_consumer m) = Some (p', c')"
  shows "restart_step lib user m (m\<lparr>rm_consumer := c', rm_threads := (rm_threads m)[i := p']\<rparr>)"
  using assms by (intro thread) simp_all

text \<open>Start, let the loop begin an iteration, stop, start again.\<close>

lemma restart_reaches_hanging:
  assumes "client c" and "has_subscribed c" and "\<not> running c" and "cc_force_stop (the_conf c)"
  shows "\<exists>m. (restart_step lib user)\<^sup>*\<^sup>* (restart_new c) m \<and> hangs m \<and>
     rm_caller m = StartAssigning 1 \<and> rm_threads m = [ThreadIterating Receiving, ThreadStarting]"
proof -
  let ?s = "restart_step lib user"
  let ?c1 = "c\<lparr>running := True\<rparr>" let ?c2 = "timer_start lib ?c1"
  let ?c3 = "not_running ?c2" let ?c4 = "acknowledgeAll lib ?c3"
  have f: "client ?c2" "running ?c2" "has_subscribed ?c4" "client ?c4" "\<not> running ?c4"
    "cc_force_stop (the_conf ?c3)"
    using assms by (auto simp: timer_start_def Let_def pl_emit_def the_conf_def not_running_def)
  let ?m = "\<lambda>d ps fut p. \<lparr>rm_consumer = d, rm_threads = ps, rm_future = fut, rm_caller = p\<rparr>"
  let ?it = "ThreadIterating Receiving"
  have "?s (restart_new c) (?m ?c1 [ThreadStarting] None (StartAssigning 0))"
    using start_call [of "restart_new c"] assms by (simp add: restart_new_def)
  moreover have "?s \<dots> (?m ?c1 [ThreadStarting] (Some 0) CallerIdle)"
    using start_return [of "?m ?c1 [ThreadStarting] None (StartAssigning 0)"]
    by (simp add: future_over_def)
  moreover have "?s \<dots> (?m ?c2 [ThreadTesting] (Some 0) CallerIdle)"
    using thread_run [of "?m ?c1 [ThreadStarting] (Some 0) CallerIdle" 0] by (simp add: thread_step_def)
  moreover have "?s \<dots> (?m ?c2 [?it] (Some 0) CallerIdle)"
    using thread_run [of "?m ?c2 [ThreadTesting] (Some 0) CallerIdle" 0] f
    by (simp add: thread_step_def)
  moreover have "?s \<dots> (?m ?c3 [?it] (Some 0) StopWaiting)"
    using stop_call [of "?m ?c2 [?it] (Some 0) CallerIdle"] f by simp
  moreover have "?s \<dots> (?m ?c3 [?it] (Some 0) StopAcknowledging)"
    using stop_wait_for [of "?m ?c3 [?it] (Some 0) StopWaiting"] f by simp
  moreover have "?s \<dots> (?m ?c4 [?it] (Some 0) CallerIdle)"
    using stop_return [of "?m ?c3 [?it] (Some 0) StopAcknowledging"] by simp
  moreover have "?s \<dots> (?m (?c4\<lparr>running := True\<rparr>) [?it, ThreadStarting] (Some 0) (StartAssigning 1))"
    using start_call [of "?m ?c4 [?it] (Some 0) CallerIdle"] f by simp
  ultimately have "?s\<^sup>*\<^sup>* (restart_new c)
      (?m (?c4\<lparr>running := True\<rparr>) [?it, ThreadStarting] (Some 0) (StartAssigning 1))"
    by (meson converse_rtranclp_into_rtranclp rtranclp.rtrancl_refl)
  then show ?thesis
    by (intro exI [where x = "?m (?c4\<lparr>running := True\<rparr>) [?it, ThreadStarting] (Some 0)
          (StartAssigning 1)"]) (simp add: hangs_def waits_for_loop_def)
qed

text \<open>While \<open>start\<close> waits the flag is set: nobody else resets it.\<close>

definition start_runs :: "restart_machine \<Rightarrow> bool" where
  "start_runs m \<longleftrightarrow> (\<forall>j. rm_caller m = StartAssigning j \<longrightarrow> running (rm_consumer m))"

lemma start_runs_step: "restart_step lib user m m' \<Longrightarrow> start_runs m \<Longrightarrow> start_runs m'"
proof (induction rule: restart_step.induct)
  case (thread m i p c)
  with thread_step_frame(1) [OF thread(2)] show ?case by (simp add: start_runs_def)
qed (auto simp: start_runs_def)

lemma start_runs_reachable:
  assumes "(restart_step lib user)\<^sup>*\<^sup>* (restart_new c) m"
  shows "start_runs m"
  using assms by (induction rule: rtranclp_induct) (auto simp: start_runs_def restart_new_def dest: start_runs_step)

lemma waiting_start_hangs:
  assumes "start_runs m" and "rm_caller m = StartAssigning j" and "\<not> future_over m"
  shows "hangs m"
  using assms
  by (auto simp: start_runs_def hangs_def waits_for_loop_def future_over_def thread_over_def split: option.splits)

text \<open>C19: With \<open>force.stop\<close> a restart can hang. Whenever \<open>start\<close> has set the flag, in any run: if the loop
  that an earlier \<open>stop\<close> left behind has ended, \<open>start\<close> may return with its next step; if that loop has not
  ended, then under no schedule does \<open>start\<close> ever return or the old loop end, while some step is always possible. And the
  second case is reachable: \<open>stop\<close> can leave the loop in an iteration in which it still is when \<open>start\<close> sets
  the flag again, beside the new loop on the same consumer and the same map.\<close>

theorem restart_after_force_stop_hangs:
  assumes "client c" and "has_subscribed c" and "\<not> running c" and "cc_force_stop (the_conf c)"
  shows "(\<forall>m j. (restart_step lib user)\<^sup>*\<^sup>* (restart_new c) m \<and> rm_caller m = StartAssigning j \<longrightarrow>
       (if future_over m then \<exists>m'. restart_step lib user m m' \<and> rm_caller m' = CallerIdle
        else \<forall>m'. (restart_step lib user)\<^sup>*\<^sup>* m m' \<longrightarrow>
          rm_caller m' = StartAssigning j \<and> running (rm_consumer m') \<and>
          \<not> future_over m' \<and> (\<exists>m''. restart_step lib user m' m''))) \<and>
     (\<exists>m. (restart_step lib user)\<^sup>*\<^sup>* (restart_new c) m \<and> rm_caller m = StartAssigning 1 \<and>
       \<not> future_over m \<and> rm_threads m = [ThreadIterating Receiving, ThreadStarting])"
proof (intro conjI allI impI, elim conjE)
  fix m j
  assume r: "(restart_step lib user)\<^sup>*\<^sup>* (restart_new c) m" and w: "rm_caller m = StartAssigning j"
  show "if future_over m then \<exists>m'. restart_step lib user m m' \<and> rm_caller m' = CallerIdle
      else \<forall>m'. (restart_step lib user)\<^sup>*\<^sup>* m m' \<longrightarrow>
        rm_caller m' = StartAssigning j \<and> running (rm_consumer m') \<and>
        \<not> future_over m' \<and> (\<exists>m''. restart_step lib user m' m'')"
  proof (cases "future_over m")
    case True
    from start_return [OF w True, of lib user] True show ?thesis by auto
  next
    case False
    from hangs_observed [OF _ waiting_start_hangs [OF start_runs_reachable [OF r] w False], of lib user] False w
    show ?thesis by auto
  qed
next
  from restart_reaches_hanging [OF assms, of lib user] hangs_observed [OF rtranclp.rtrancl_refl]
  show "\<exists>m. (restart_step lib user)\<^sup>*\<^sup>* (restart_new c) m \<and> rm_caller m = StartAssigning 1 \<and>
      \<not> future_over m \<and> rm_threads m = [ThreadIterating Receiving, ThreadStarting]"
    by blast
qed

theorem restart_after_force_stop_hangs_witness:
  "\<exists>m. (restart_step demo_pulsar (\<lambda>_. []))\<^sup>*\<^sup>*
       (restart_new (pulsar_consumer_new\<lparr>client := True, has_subscribed := True,
          consumer_conf := Some (consumer_config_default\<lparr>cc_force_stop := True\<rparr>)\<rparr>)) m \<and>
     rm_threads m = [ThreadIterating Receiving, ThreadStarting] \<and> \<not> future_over m"
proof -
  let ?c = "pulsar_consumer_new\<lparr>client := True, has_subscribed := True,
    consumer_conf := Some (consumer_config_default\<lparr>cc_force_stop := True\<rparr>)\<rparr>"
  have "client ?c" "has_subscribed ?c" "\<not> running ?c" "cc_force_stop (the_conf ?c)"
    by (simp_all add: pulsar_consumer_new_def the_conf_def)
  from conjunct2 [OF restart_after_force_stop_hangs [OF this, of demo_pulsar "\<lambda>_. []"]]
  show ?thesis by blast
qed

section \<open>The destructor\<close>

text \<open>C20: Without \<open>force.stop\<close> a consumer that was started and not stopped cannot be destroyed: at any point of
  its life at which it runs and no call is in progress, the destructor may be entered, and then it never
  returns; the loop goes on with the client closed, and with the map and the timer destroyed. The
  destructor of a consumer that does not run finds no loop and returns.\<close>

theorem destructor_needs_stop:
  assumes "(restart_step lib user)\<^sup>*\<^sup>* (restart_new c) m" and "rm_caller m = CallerIdle"
    and "\<not> cc_force_stop (the_conf c)" and "\<not> running c"
  shows "\<exists>m1. restart_step lib user m m1 \<and> rm_caller m1 = DestroyWaiting \<and>
     rm_consumer m1 = pulsar_destroy lib (rm_consumer m) \<and>
     (if running (rm_consumer m)
      then \<forall>m2. (restart_step lib user)\<^sup>*\<^sup>* m1 m2 \<longrightarrow>
        rm_caller m2 = DestroyWaiting \<and> (\<exists>m3. restart_step lib user m2 m3)
      else (\<forall>i < length (rm_threads m1). rm_threads m1 ! i = ThreadEnded) \<and>
        (\<exists>m2. restart_step lib user m1 m2 \<and> rm_caller m2 = CallerGone))"
proof -
  let ?m1 = "m\<lparr>rm_consumer := pulsar_destroy lib (rm_consumer m), rm_caller := DestroyWaiting\<rparr>"
  have s: "restart_step lib user m ?m1" using assms(2) by (rule destroy_call)
  have o: "one_loop m" using one_loop_reachable [OF assms(1,3,4)] .
  show ?thesis
  proof (cases "running (rm_consumer m)")
    case True
    with o assms(2) have "hangs ?m1"
      by (auto simp: one_loop_def idle_ok_def hangs_def waits_for_loop_def only_thread_def)
    from hangs_observed [OF _ this, of lib user] True s show ?thesis
      by (intro exI [of _ ?m1]) simp
  next
    case False
    with o assms(2) have "rm_future m = None" "no_thread m" by (simp_all add: one_loop_def idle_ok_def)
    moreover from this(1) have "restart_step lib user ?m1 (?m1\<lparr>rm_future := None, rm_caller := CallerGone\<rparr>)"
      by (intro destroy_return) (simp_all add: future_over_def)
    ultimately show ?thesis
      using s False by (intro exI [of _ ?m1]) (auto simp: no_thread_def)
  qed
qed

theorem destructor_needs_stop_witness:
  "\<exists>m m1. (restart_step demo_pulsar (\<lambda>_. []))\<^sup>*\<^sup>*
       (restart_new (pulsar_consumer_new\<lparr>client := True, has_subscribed := True\<rparr>)) m \<and>
     running (rm_consumer m) \<and> restart_step demo_pulsar (\<lambda>_. []) m m1 \<and> rm_caller m1 = DestroyWaiting"
proof -
  let ?c = "pulsar_consumer_new\<lparr>client := True, has_subscribed := True\<rparr>" and ?s = "restart_step demo_pulsar (\<lambda>_. [])"
  let ?m = "\<lambda>fut p. \<lparr>rm_consumer = ?c\<lparr>running := True\<rparr>, rm_threads = [ThreadStarting],
    rm_future = fut, rm_caller = p\<rparr>"
  have "?s (restart_new ?c) (?m None (StartAssigning 0))"
    using start_call [of "restart_new ?c"] by (simp add: restart_new_def pulsar_consumer_new_def)
  moreover have "?s \<dots> (?m (Some 0) CallerIdle)"
    using start_return [of "?m None (StartAssigning 0)" 0] by (simp add: future_over_def)
  ultimately have m: "?s\<^sup>*\<^sup>* (restart_new ?c) (?m (Some 0) CallerIdle)" by (meson r_into_rtranclp rtranclp_trans)
  have "rm_caller (?m (Some 0) CallerIdle) = CallerIdle" "\<not> cc_force_stop (the_conf ?c)" "\<not> running ?c"
    by (simp_all add: pulsar_consumer_new_def the_conf_def consumer_config_default_def)
  from destructor_needs_stop [OF m this] obtain m1 where
    "?s (?m (Some 0) CallerIdle) m1" "rm_caller m1 = DestroyWaiting" by blast
  with m show ?thesis by (intro exI [of _ "?m (Some 0) CallerIdle"] exI [of _ m1]) simp
qed

end
