(* ===== verification/Pulsar_Delivery.thy ===== *)
theory Pulsar_Delivery
  imports Pulsar_Threads Handover
begin

text \<open>
  At least once and in order with Pulsar: what the consumer hands to the callback is what it receives,
  in the order of receiving, and it acknowledges nothing while a message is in hand. \<open>in_hand\<close>
  (Handover) is the account of the texts that the log shows; each operation of the consumer keeps it.
\<close>

section \<open>The account\<close>

text \<open>What the user is given of a message, in both modes: topic, payload and its length.\<close>

type_synonym pulsar_text = "string \<times> string \<times> nat"

definition pulsar_text_of :: "pl_message \<Rightarrow> pulsar_text" where
  "pulsar_text_of m = (removePartitionSuffix (pm_topic m), pm_data m, length (pm_data m))"

fun receiving :: "pl_call \<Rightarrow> pulsar_text option" where
  "receiving (PlReceived result (Some m)) = Some (pulsar_text_of m)"
| "receiving _ = None"

fun delivering :: "pl_call \<Rightarrow> pulsar_text option" where
  "delivering (PlDeliver _ t s n) = Some (t, s, n)"
| "delivering (PlDeliverForCommit _ info) = Some (pi_topic info, pi_msg info, pi_msg_len info)"
| "delivering _ = None"

fun is_ack :: "pl_call \<Rightarrow> bool" where
  "is_ack (PlAck _) = True"
| "is_ack _ = False"

definition received_texts :: "pl_call list \<Rightarrow> pulsar_text list" where
  "received_texts = List.map_filter receiving"

definition delivered_texts :: "pl_call list \<Rightarrow> pulsar_text list" where
  "delivered_texts = List.map_filter delivering"

definition holding :: "pulsar_text list \<Rightarrow> pulsar_consumer \<Rightarrow> bool" where
  "holding ms c = in_hand receiving delivering is_ack ms (pl_calls c)"

lemma holding_updates [simp]:
  "holding ms (c\<lparr>topic_latest_msg_id_map := m\<rparr>) = holding ms c"
  "holding ms (c\<lparr>timer_state := t\<rparr>) = holding ms c" "holding ms (c\<lparr>running := b\<rparr>) = holding ms c"
  by (simp_all add: holding_def)

lemma holding_emit:
  "holding ms c \<Longrightarrow> receiving x = None \<Longrightarrow> delivering x = None \<Longrightarrow> \<not> is_ack x \<Longrightarrow> holding ms (pl_emit x c)"
  by (simp add: holding_def in_hand_other)

lemma holding_ack: "holding [] c \<Longrightarrow> holding [] (pl_emit (PlAck i) c)"
  by (simp add: holding_def in_hand_settle)

section \<open>The operations\<close>

lemma holding_acknowledgeAll: "holding [] c \<Longrightarrow> holding [] (acknowledgeAll lib c)"
  unfolding acknowledgeAll_def
  by (rule foldl_invariant [where I = "holding []"])
     (auto simp: ack_topic_def acknowledge_def holding_ack split: option.split)

lemma holding_checkTime: "holding [] c \<Longrightarrow> holding [] (checkTimeThenAcknowledgeAll lib c)"
  by (simp add: checkTimeThenAcknowledgeAll_def Let_def holding_acknowledgeAll holding_emit
      split: prod.split)

lemma holding_user_commits: "holding [] c \<Longrightarrow> holding [] (user_commits lib is c)"
  unfolding user_commits_def
  by (rule foldl_invariant [where I = "holding []"])
     (auto simp: pulsar_commitOffset_def acknowledge_def holding_ack)

lemma holding_consume_msg:
  assumes "holding [] c" and "consume_msg lib c = (result, msg, c')"
  shows "holding (if result = ResultOk then [pulsar_text_of msg] else []) c'"
proof -
  let ?t = "cc_poll_timeout_ms (the_conf c)"
  let ?x = "PlReceived result (if result = ResultOk then Some msg else None)"
  have c': "holding ms c' = holding ms (pl_emit ?x (pl_emit (PlReceive ?t) c))" for ms
    using assms(2) by (auto simp: consume_msg_def Let_def split: prod.splits)
  have "holding [] (pl_emit (PlReceive ?t) c)" using assms(1) by (simp add: holding_emit)
  then show ?thesis
    unfolding c' using in_hand_arrive [of receiving delivering is_ack "pl_calls c @ [PlReceive ?t]" ?x]
    by (cases "result = ResultOk") (simp_all add: holding_def)
qed

lemma holding_deliver:
  assumes "holding [pulsar_text_of msg] c"
  shows "holding [] (deliver_msg lib user msg c)"
  using assms
  by (auto simp: deliver_msg_def Let_def holding_def convertMessage_def pulsar_text_of_def
      intro!: holding_user_commits [unfolded holding_def] in_hand_hand)

lemma holding_consume_body: "holding [] c \<Longrightarrow> holding [] (consume_body lib user c)"
proof -
  assume h: "holding [] c"
  obtain r msg c1 where m: "consume_msg lib c = (r, msg, c1)" by (cases "consume_msg lib c")
  from holding_consume_msg [OF h m] holding_deliver [of msg c1 lib user] m
  show ?thesis by (simp add: consume_body_def holding_checkTime split: if_splits)
qed

lemma holding_consume_loop: "holding [] c \<Longrightarrow> holding [] (consume_loop n lib user c)"
  by (induction n arbitrary: c) (simp_all add: holding_consume_body)

lemma holding_stop: "holding [] c \<Longrightarrow> holding [] (pulsar_stop lib c)"
  by (simp add: pulsar_stop_def holding_acknowledgeAll)

text \<open>The set-up.\<close>

lemma holding_new: "holding [] pulsar_consumer_new"
  by (simp add: holding_def pulsar_consumer_new_def)

lemma holding_fields [simp]:
  "holding ms (c\<lparr>client := b\<rparr>) = holding ms c" "holding ms (c\<lparr>has_subscribed := b\<rparr>) = holding ms c"
  "holding ms (c\<lparr>consumer_cb := b\<rparr>) = holding ms c" "holding ms (c\<lparr>topic_prefix := s\<rparr>) = holding ms c"
  "holding ms (c\<lparr>default_subscription := s\<rparr>) = holding ms c" "holding ms (c\<lparr>consumer_conf := cf\<rparr>) = holding ms c"
  "holding ms (c\<lparr>subscription_initial_position := p\<rparr>) = holding ms c"
  by (simp_all add: holding_def)

lemma holding_init: "holding [] c \<Longrightarrow> holding [] (snd (pulsar_init pt broker lp cp c))"
  by (auto simp: pulsar_init_def pulsar_init_client_def Let_def holding_emit split: sum.split)

lemma holding_subscribe: "holding [] c \<Longrightarrow> holding [] (snd (pulsar_subscribe lib sub ts c))"
  by (simp add: pulsar_subscribe_def Let_def holding_emit)

lemma holding_start: "holding [] c \<Longrightarrow> holding [] (snd (pulsar_start lib c))"
  by (simp add: pulsar_start_def timer_start_def Let_def holding_emit)

section \<open>Property\<close>

text \<open>C11: What the user of the Pulsar consumer is given is what arrives. Over a whole run, from a new
  object through \<open>init\<close>, \<open>subscribe\<close> and \<open>start\<close> to a \<open>stop\<close> without \<open>force.stop\<close> that comes anywhere in
  an iteration, the texts (topic, payload and length) handed to the callback are, in this order and
  each once, those of the messages received; and at each acknowledgement, also one that the callback
  itself asks for, all that had been received had been handed over.\<close>

theorem pulsar_delivers_in_order:
  assumes "pulsar_init pt broker lp cp pulsar_consumer_new = (rt1, c1)"
    and "pulsar_subscribe lib sub topics c1 = (rt2, c2)"
    and "pulsar_start lib c2 = (True, c3)"
    and "pulsar_machine lib user (loop_start c3) k m" and "lm_control m = Joined"
    and "log = pl_calls (acknowledgeAll lib (lm_state m))"
  shows "delivered_texts log = received_texts log \<and>
     (\<forall>pre i suf. log = pre @ PlAck i # suf \<longrightarrow> delivered_texts pre = received_texts pre)"
proof -
  have h: "holding [] c3"
    using holding_init [OF holding_new, of pt broker lp cp] holding_subscribe [of c1 lib sub topics]
      holding_start [of c2 lib] assms(1-3) by simp
  have r: "client c3" "running c3" using pulsar_start_running [of lib c2] assms(3) by simp_all
  from pulsar_joined_serial [OF r assms(4,5)] have "holding [] (acknowledgeAll lib (lm_state m))"
    using holding_stop [OF holding_consume_loop [OF h]] by metis
  then show ?thesis
    unfolding assms(6) holding_def in_hand_def received_texts_def delivered_texts_def by (auto dest: spec)
qed

theorem pulsar_delivers_in_order_witness:
  "\<exists>k m. pulsar_machine demo_pulsar (\<lambda>_. []) (loop_start (pulsar_running False)) k m \<and>
     lm_control m = Joined \<and>
     delivered_texts (pl_calls (acknowledgeAll demo_pulsar (lm_state m))) =
       received_texts (pl_calls (acknowledgeAll demo_pulsar (lm_state m)))"
proof -
  obtain k m where m: "pulsar_machine demo_pulsar (\<lambda>_. []) (loop_start (pulsar_running False)) k m"
    "lm_control m = Joined"
    using pulsar_loop.run_serial [OF demo_runs(2) [of False], of demo_pulsar "\<lambda>_. []" 2]
    by (auto simp: pulsar_machine_def)
  have s: "pulsar_start demo_pulsar (snd (pulsar_subscribe demo_pulsar [] [''t'']
     (snd (pulsar_init (pulsar_file False) [] [] ''c'' pulsar_consumer_new)))) = (True, pulsar_running False)"
    using pulsar_running_starts(1) [of False] unfolding pulsar_running_def by (metis prod.collapse)
  from pulsar_delivers_in_order [OF surjective_pairing surjective_pairing s m refl] m
  show ?thesis by blast
qed

end
