(* ===== verification/Pulsar_Crashes.thy ===== *)
theory Pulsar_Crashes
  imports Pulsar_Delivery At_Least_Once
begin

text \<open>
  At least once across crashes, for Pulsar (At_Least_Once). An acknowledgement is cumulative: the broker
  gives a later process the messages of a partition behind the id. \<open>pulsar_log\<close> describes what a process
  leaves behind when it may be killed at any call, with a \<open>stop\<close> that waits for the loop (without
  \<open>force.stop\<close>) and a user that acknowledges only ids of messages that it received. The
  interpretation needs the account of the texts, from Pulsar_Delivery, and that the ids that are
  acknowledged arrived: the invariant \<open>informed\<close>.
\<close>

fun received_message :: "pl_call \<Rightarrow> pl_message option" where
  "received_message (PlReceived result (Some m)) = Some m"
| "received_message _ = None"

definition received_messages :: "pl_call list \<Rightarrow> pl_message list" where
  "received_messages = List.map_filter received_message"

lemma received_messages_append [simp]:
  "received_messages (xs @ ys) = received_messages xs @ received_messages ys"
  by (simp add: received_messages_def)

lemma receiving_eq: "receiving = (\<lambda>x. map_option pulsar_text_of (received_message x))"
proof
  fix x
  show "receiving x = map_option pulsar_text_of (received_message x)"
    by (cases x rule: received_message.cases) simp_all
qed

section \<open>What is acknowledged\<close>

definition received_ids :: "pl_call list \<Rightarrow> message_id set" where
  "received_ids log = pm_id ` set (received_messages log)"

lemma received_ids_append [simp]: "received_ids (xs @ ys) = received_ids xs \<union> received_ids ys"
  by (simp add: received_ids_def image_Un)

text \<open>Each id that is acknowledged is that of a message that was received before.\<close>

definition acks_own :: "pl_call list \<Rightarrow> bool" where
  "acks_own log \<longleftrightarrow> (\<forall>pre i suf. log = pre @ PlAck i # suf \<longrightarrow> i \<in> received_ids pre)"

lemma acks_own_Nil [simp]: "acks_own []"
  by (simp add: acks_own_def)

lemma acks_own_snoc:
  "acks_own (log @ [x]) \<longleftrightarrow> acks_own log \<and> (\<forall>i. x = PlAck i \<longrightarrow> i \<in> received_ids log)"
  unfolding acks_own_def split_snoc by auto

lemma acks_own_prefix: "acks_own log \<Longrightarrow> prefix p log \<Longrightarrow> acks_own p"
  by (auto simp: acks_own_def prefix_def)

text \<open>The user knows an id from the callback: what it acknowledges arrived. It may do so again and again, in
  the callback or between iterations.\<close>

definition acks_received :: "pulsar_lib \<Rightarrow> (pulsar_consumer \<Rightarrow> pulsar_info list) \<Rightarrow> bool" where
  "acks_received lib user \<longleftrightarrow> (\<forall>c. \<forall>info \<in> set (user c).
     pl_deserialize lib (pi_msg_id info) \<in> received_ids (pl_calls c))"

inductive pulsar_operating :: "pulsar_lib \<Rightarrow> pulsar_consumer \<Rightarrow> pulsar_consumer \<Rightarrow> bool" for lib where
  pulsar_operating_start: "pulsar_operating lib c c"
| pulsar_operating_body: "pulsar_operating lib c c1 \<Longrightarrow> acks_received lib user \<Longrightarrow>
    pulsar_operating lib c (consume_body lib user c1)"
| pulsar_operating_commit: "pulsar_operating lib c c1 \<Longrightarrow>
    pl_deserialize lib (pi_msg_id info) \<in> received_ids (pl_calls c1) \<Longrightarrow>
    pulsar_operating lib c (pulsar_commitOffset lib info c1)"

lemma holding_operating: "pulsar_operating lib c c' \<Longrightarrow> holding [] c \<Longrightarrow> holding [] c'"
  by (induction rule: pulsar_operating.induct)
     (auto simp: holding_consume_body pulsar_commitOffset_def acknowledge_def holding_ack)

text \<open>This is an invariant, with the same of the ids that the map holds.\<close>

definition informed :: "pulsar_consumer \<Rightarrow> bool" where
  "informed c \<longleftrightarrow> acks_own (pl_calls c) \<and>
     (\<forall>t i. map_of (topic_latest_msg_id_map c) t = Some i \<and> i \<noteq> None \<longrightarrow> i \<in> received_ids (pl_calls c))"

lemma informed_emit: "informed c \<Longrightarrow> \<not> is_ack x \<Longrightarrow> informed (pl_emit x c)"
  by (cases x) (auto simp: informed_def acks_own_snoc pl_emit_def)

lemma informed_updates [simp]:
  "informed (c\<lparr>timer_state := t\<rparr>) = informed c" "informed (c\<lparr>running := b\<rparr>) = informed c"
  "informed (c\<lparr>client := b\<rparr>) = informed c" "informed (c\<lparr>has_subscribed := b\<rparr>) = informed c"
  "informed (c\<lparr>consumer_cb := b\<rparr>) = informed c" "informed (c\<lparr>topic_prefix := s\<rparr>) = informed c"
  "informed (c\<lparr>default_subscription := s\<rparr>) = informed c" "informed (c\<lparr>consumer_conf := cf\<rparr>) = informed c"
  "informed (c\<lparr>subscription_initial_position := p\<rparr>) = informed c"
  by (simp_all add: informed_def)

lemma informed_ack_topic: "informed c \<Longrightarrow> informed (ack_topic lib c t)"
  by (auto simp: ack_topic_def acknowledge_def informed_def acks_own_snoc pl_emit_def Let_def
      map_of_smap_assign split: option.split)

lemma informed_acknowledgeAll: "informed c \<Longrightarrow> informed (acknowledgeAll lib c)"
  unfolding acknowledgeAll_def
  by (rule foldl_invariant [where I = informed]) (simp_all add: informed_ack_topic)

lemma informed_checkTime: "informed c \<Longrightarrow> informed (checkTimeThenAcknowledgeAll lib c)"
  by (simp add: checkTimeThenAcknowledgeAll_def Let_def informed_acknowledgeAll informed_emit
      split: prod.split)

lemma informed_consume_msg:
  assumes "informed c" and "consume_msg lib c = (result, msg, c')"
  shows "informed c'"
proof -
  let ?d = "pl_emit (PlReceived result (if result = ResultOk then Some msg else None))
    (pl_emit (PlReceive (cc_poll_timeout_ms (the_conf c))) c)"
  have d: "informed ?d" using assms(1) by (intro informed_emit) simp_all
  have "result = ResultOk \<Longrightarrow> pm_id msg \<in> received_ids (pl_calls ?d)"
    by (simp add: received_ids_def received_messages_def pl_emit_def)
  with d have "result = ResultOk \<Longrightarrow>
      informed (?d\<lparr>topic_latest_msg_id_map := smap_assign (pm_topic msg) (pm_id msg) (topic_latest_msg_id_map ?d)\<rparr>)"
    by (auto simp: informed_def map_of_smap_assign)
  with d assms(2) show ?thesis
    by (cases "result = ResultOk") (auto simp: consume_msg_def Let_def split: prod.splits)
qed

lemma received_ids_ack [simp]: "received_ids [PlAck i] = {}"
  by (simp add: received_ids_def received_messages_def)

lemma informed_commitOffset:
  assumes "informed c" and "pl_deserialize lib (pi_msg_id info) \<in> received_ids (pl_calls c)"
  shows "informed (pulsar_commitOffset lib info c)"
    and "received_ids (pl_calls (pulsar_commitOffset lib info c)) = received_ids (pl_calls c)"
  using assms
  by (auto simp: pulsar_commitOffset_def acknowledge_def Let_def informed_def acks_own_snoc pl_emit_def)

lemma informed_user_commits:
  "informed c \<Longrightarrow> (\<forall>info \<in> set is. pl_deserialize lib (pi_msg_id info) \<in> received_ids (pl_calls c)) \<Longrightarrow>
     informed (user_commits lib is c)"
  by (induction "is" arbitrary: c) (simp_all add: user_commits_def informed_commitOffset)

lemma informed_consume_body:
  assumes "informed c" and "acks_received lib user"
  shows "informed (consume_body lib user c)"
proof -
  obtain r msg c1 where m: "consume_msg lib c = (r, msg, c1)" by (cases "consume_msg lib c")
  have "informed (deliver_msg lib user msg c1)"
    using informed_consume_msg [OF assms(1) m] assms(2)
    by (simp add: deliver_msg_def Let_def informed_user_commits informed_emit acks_received_def)
  with informed_consume_msg [OF assms(1) m] m show ?thesis by (simp add: consume_body_def informed_checkTime)
qed

lemma informed_operating: "pulsar_operating lib c c' \<Longrightarrow> informed c \<Longrightarrow> informed c'"
  by (induction rule: pulsar_operating.induct) (simp_all add: informed_consume_body informed_commitOffset)

lemma informed_stop: "informed c \<Longrightarrow> informed (pulsar_stop lib c)"
  by (simp add: pulsar_stop_def informed_acknowledgeAll)

lemma informed_new: "informed pulsar_consumer_new"
  by (simp add: informed_def pulsar_consumer_new_def)

lemma informed_setup:
  "informed c \<Longrightarrow> informed (snd (pulsar_init pt broker lp cp c))"
  "informed c \<Longrightarrow> informed (snd (pulsar_subscribe lib sub ts c))"
  "informed c \<Longrightarrow> informed (snd (pulsar_start lib c))"
  by (auto simp: pulsar_init_def pulsar_init_client_def pulsar_subscribe_def pulsar_start_def
      timer_start_def Let_def informed_emit split: sum.split)

section \<open>Processes\<close>

text \<open>A prefix of the log of a run that ends with \<open>stop\<close>.\<close>

inductive pulsar_log :: "'t ptree_lib \<Rightarrow> pl_call list \<Rightarrow> bool" for pt where
  interrupted: "pulsar_init pt broker lp cp pulsar_consumer_new = (rt1, c1) \<Longrightarrow>
    pulsar_subscribe lib sub topics c1 = (rt2, c2) \<Longrightarrow> pulsar_start lib c2 = (rt3, c3) \<Longrightarrow>
    pulsar_operating lib c3 c4 \<Longrightarrow> prefix log (pl_calls (pulsar_stop lib c4)) \<Longrightarrow> pulsar_log pt log"

lemma pulsar_log_account:
  assumes "pulsar_log pt log"
  shows "(\<exists>b. in_hand receiving delivering is_ack b log) \<and> acks_own log"
  using assms
proof (cases rule: pulsar_log.cases)
  case (interrupted broker lp cp rt1 c1 lib sub topics rt2 c2 rt3 c3 c4)
  have "holding [] c3"
    using holding_init [OF holding_new, of pt broker lp cp] holding_subscribe [of c1 lib sub topics]
      holding_start [of c2 lib] interrupted(1-3) by simp
  then have "holding [] (pulsar_stop lib c4)"
    by (intro holding_stop holding_operating [OF interrupted(4)])
  from in_hand_prefix [OF this [unfolded holding_def] interrupted(5)]
  have "\<exists>b. in_hand receiving delivering is_ack b log" .
  moreover have "informed c3"
    using informed_setup(1) [OF informed_new, of pt broker lp cp] informed_setup(2) [of c1 lib sub topics]
      informed_setup(3) [of c2 lib] interrupted(1-3) by simp
  then have "informed (pulsar_stop lib c4)"
    by (intro informed_stop informed_operating [OF interrupted(4)])
  with interrupted(5) have "acks_own log" by (auto simp: informed_def intro: acks_own_prefix)
  ultimately show ?thesis ..
qed

text \<open>\<open>at\<close> reads the partition and the place in it off an id.\<close>

fun acked_place :: "(message_id \<Rightarrow> 'a \<times> int) \<Rightarrow> pl_call \<Rightarrow> ('a \<times> int) option" where
  "acked_place at (PlAck i) = Some (at i)"
| "acked_place at _ = None"

lemma acked_place_iff: "(acked_place at x \<noteq> None) = is_ack x"
  by (cases x) simp_all

lemma acked_place_SomeD: "acked_place at x = Some p \<Longrightarrow> \<exists>i. x = PlAck i \<and> p = at i"
  by (cases x) auto

interpretation pulsar: delivering_client received_message pulsar_text_of delivering
  "at \<circ> pm_id" "acked_place at" "pulsar_log pt"
  for pt :: "'t ptree_lib" and at :: "message_id \<Rightarrow> 'a \<times> int"
proof unfold_locales
  fix log pre suf :: "pl_call list" and x p
  show "pulsar_log pt log \<Longrightarrow> \<exists>b. in_hand (\<lambda>x. map_option pulsar_text_of (received_message x)) delivering
      (\<lambda>x. acked_place at x \<noteq> None) b log"
    using pulsar_log_account unfolding receiving_eq [symmetric] acked_place_iff by blast
  assume l: "pulsar_log pt (pre @ x # suf)" "acked_place at x = Some p"
  from acked_place_SomeD [OF l(2)] obtain i where "x = PlAck i" "p = at i" by blast
  with pulsar_log_account [OF l(1)]
  show "p \<in> (at \<circ> pm_id) ` set (List.map_filter received_message pre)"
    by (auto simp: acks_own_def received_ids_def received_messages_def)
qed

text \<open>C7: With Pulsar and without \<open>force.stop\<close> no message is lost, however often the process dies. Let any number
  of processes consume one after the other, each killed at any call or ended by a \<open>stop\<close> that waits for the
  loop, each beginning in every partition behind an id whose acknowledgement the one before requested, or at
  the same place. Let the broker deliver the messages of a partition without gaps from there, and let the
  user, in the callback or between iterations, acknowledge only ids of messages that it received. Then
  every message between the place where the first began and the place where the next would begin has
  been handed to the callback of one of them, whole; what each callback was given is, in order, what those
  messages say.\<close>

theorem pulsar_crashes_lose_nothing:
  assumes "restarts received_message (at \<circ> pm_id) (acked_place at) (pulsar_log pt) stored origin logs reached"
  shows "(\<forall>a. \<forall>k \<in> stored a. origin a \<le> k \<and> k < reached a \<longrightarrow>
       (\<exists>log \<in> set logs. (a, k) \<in> (at \<circ> pm_id) ` set (handed_items received_message delivering log))) \<and>
     (\<forall>log \<in> set logs. delivered_texts log = map pulsar_text_of (handed_items received_message delivering log))"
  unfolding delivered_texts_def by (rule pulsar.nothing_lost [OF assms])

section \<open>Witness\<close>

lemma received_acks [simp]: "received_messages (map PlAck ids) = []"
  by (induction ids) (simp_all add: received_messages_def List.map_filter_def)

lemma received_acknowledgeAll [simp]:
  "received_messages (pl_calls (acknowledgeAll lib c)) = received_messages (pl_calls c)"
  unfolding acknowledgeAll_def
  by (rule foldl_invariant [where I = "\<lambda>d. received_messages (pl_calls d) = received_messages (pl_calls c)"])
     (simp_all add: ack_topic_calls)

lemma received_demo_body:
  "received_messages (pl_calls (consume_body demo_pulsar (\<lambda>_. []) c)) = received_messages (pl_calls c) @
     [\<lparr>pm_topic = ''t-partition-0'', pm_id = Some (length (pl_calls c)), pm_data = ''x''\<rparr>]"
proof -
  have r: "received_messages (pl_calls (checkTimeThenAcknowledgeAll lib d)) = received_messages (pl_calls d)"
    for lib d
    by (simp add: checkTimeThenAcknowledgeAll_def Let_def split: prod.split)
       (simp add: received_messages_def pl_emit_def)
  have "received_messages (pl_calls (deliver_msg lib (\<lambda>_. []) msg d)) = received_messages (pl_calls d)" for lib msg d
    by (simp add: deliver_msg_def user_commits_def Let_def received_messages_def pl_emit_def)
  then show ?thesis
    by (simp add: consume_body_def r consume_msg_def demo_pulsar_def Let_def)
       (simp add: received_messages_def pl_emit_def)
qed

definition demo_place :: "message_id \<Rightarrow> string \<times> int" where
  "demo_place i = (''t'', case i of Some n \<Rightarrow> int n | None \<Rightarrow> -1)"

lemma demo_operating_once: "pulsar_operating lib c (consume_loop 1 lib (\<lambda>_. []) c)"
  using pulsar_operating_body [OF pulsar_operating_start, of lib "\<lambda>_. []" c] by (simp add: acks_received_def)

theorem pulsar_crashes_lose_nothing_witness:
  "\<exists>log n. restarts received_message (demo_place \<circ> pm_id) (acked_place demo_place) (pulsar_log (pulsar_file False))
       (\<lambda>_. {n}) (\<lambda>_. n) [log] ((\<lambda>_. n)(''t'' := n + 1)) \<and>
     (''t'', n) \<in> (demo_place \<circ> pm_id) ` set (handed_items received_message delivering log)"
proof -
  let ?c = "pulsar_running False" let ?n = "length (pl_calls ?c)"
  let ?log = "pl_calls (pulsar_stop demo_pulsar (consume_loop 1 demo_pulsar (\<lambda>_. []) ?c))"
  let ?to = "(\<lambda>_. int ?n)(''t'' := int ?n + 1)"
  have "received_messages (pl_calls ?c) = []"
    by (simp add: pulsar_running_def pulsar_run_defs Let_def received_messages_def List.map_filter_def)
  then have m: "received_messages ?log = [\<lparr>pm_topic = ''t-partition-0'', pm_id = Some ?n, pm_data = ''x''\<rparr>]"
    using received_demo_body [of ?c] by (simp add: pulsar_stop_def)
  have t: "tracked ?c" and r: "client ?c" "running ?c"
    using demo_runs [of False] unfolding pulsar_running_def
    by (auto intro: tracked_start tracked_subscribe tracked_init tracked_new)
  note b = tracked_consume_loop [OF t, of 1 demo_pulsar "\<lambda>_. []"]
  have "latest ?log ''t-partition-0'' = Some (Some ?n)"
    using latest_demo_body [OF t] latest_stop [OF demo_pulsar_laws(1) b(1)] by simp
  with newest_acked_stop [OF demo_pulsar_laws(1) b(1)] b(2,3) r have a: "PlAck (Some ?n) \<in> set ?log"
    by (auto simp: newest_acked_def)
  have k: "pulsar_log (pulsar_file False) ?log"
    unfolding pulsar_running_def
    by (rule interrupted [OF surjective_pairing surjective_pairing surjective_pairing demo_operating_once
          prefix_order.refl])
  have o: "m = \<lparr>pm_topic = ''t-partition-0'', pm_id = Some ?n, pm_data = ''x''\<rparr>"
    if "x \<in> set ?log" "received_message x = Some m" for x m
  proof -
    from that have "m \<in> set (received_messages ?log)"
      by (auto simp: received_messages_def set_map_filter)
    with m show ?thesis by simp
  qed
  have i: "in_sequence received_message (demo_place \<circ> pm_id) (\<lambda>_. {int ?n}) (\<lambda>_. int ?n) ?log"
    unfolding in_sequence_def
  proof (intro allI impI ballI, elim conjE)
    fix pre x suf m a off k
    assume l: "?log = pre @ x # suf" "received_message x = Some m" "(demo_place \<circ> pm_id) m = (a, off)"
      and k: "k \<in> {int ?n}" "k < off"
    from o [of x m] l k show "(a, k) \<in> (demo_place \<circ> pm_id) ` set (List.map_filter received_message pre)"
      by (auto simp: demo_place_def)
  qed
  have r: "resumes_at (acked_place demo_place) (\<lambda>_. int ?n) ?log ?to"
    unfolding resumes_at_def using a
    by (auto intro!: bexI [of _ "PlAck (Some ?n)"] simp: demo_place_def)
  have n: "restarts received_message (demo_place \<circ> pm_id) (acked_place demo_place)
      (pulsar_log (pulsar_file False)) (\<lambda>_. {int ?n}) (\<lambda>_. int ?n) [?log] ?to"
    using k i r by (rule one_process)
  from conjunct1 [OF pulsar_crashes_lose_nothing [OF n], rule_format, of "int ?n" "''t''"] n
  show ?thesis by (intro exI [of _ ?log] exI [of _ "int ?n"]) simp
qed

end
