(* ===== verification/Pulsar_Producer_Props.thy ===== *)
theory Pulsar_Producer_Props
  imports Pulsar_Producer Qbus_Interface
begin

text \<open>
  Properties of the Pulsar producer: how often a message is sent, what the two retry counters do, the
  settings that reach the library, \<open>init\<close> and \<open>uninit\<close>, and the PHP producer's map.
\<close>

section \<open>Counting sends\<close>

fun is_send :: "pl_call \<Rightarrow> bool" where
  "is_send (PlSend _ _) = True"
| "is_send _ = False"

definition sends :: "pl_call list \<Rightarrow> nat" where
  "sends log = length (filter is_send log)"

lemma sends_append [simp]: "sends (a @ b) = sends a + sends b"
  by (simp add: sends_def)

lemma sends_simps [simp]: "sends [] = 0" "sends [PlSleep i] = 0" "sends [createMessage d k] = 1"
  by (simp_all add: sends_def createMessage_def)

text \<open>The retries that the outstanding callbacks have left.\<close>

definition retries_left :: "send_callback \<Rightarrow> nat" where
  "retries_left cb = nat (max_retry_count cb - retry_count cb)"

definition budget :: "pulsar_producer \<Rightarrow> nat" where
  "budget p = (\<Sum>cb \<leftarrow> outstanding p. retries_left cb)"

text \<open>A callback is for the given message, and so is every send in a stretch of the log.\<close>

definition for_message :: "string \<Rightarrow> string \<Rightarrow> send_callback \<Rightarrow> bool" where
  "for_message payload key cb \<longleftrightarrow> cb_payload cb = payload \<and> cb_key cb = key"

definition only_sends :: "string \<Rightarrow> string \<Rightarrow> pl_call list \<Rightarrow> bool" where
  "only_sends payload key log \<longleftrightarrow> (\<forall>x \<in> set log. is_send x \<longrightarrow> x = createMessage payload key)"

lemma only_sends_simps [simp]:
  "only_sends d k []" "only_sends d k [createMessage d k]" "only_sends d k [PlSleep i]"
  "only_sends d k (a @ b) \<longleftrightarrow> only_sends d k a \<and> only_sends d k b"
  by (auto simp: only_sends_def)

text \<open>
  One step of the accounting: \<open>p'\<close> comes from \<open>p\<close> by at most \<open>n\<close> sends, made or still to be made,
  all of the same message.
\<close>

definition spends :: "string \<Rightarrow> string \<Rightarrow> nat \<Rightarrow> pulsar_producer \<Rightarrow> pulsar_producer \<Rightarrow> bool" where
  "spends d k n p p' \<longleftrightarrow>
     (\<exists>new. pl_calls p' = pl_calls p @ new \<and> sends new + budget p' \<le> n + budget p \<and> only_sends d k new) \<and>
     ((\<forall>cb \<in> set (outstanding p). for_message d k cb) \<longrightarrow> (\<forall>cb \<in> set (outstanding p'). for_message d k cb)) \<and>
     prod_config p' = prod_config p \<and> prod_client p' = prod_client p \<and> prod_topic p' = prod_topic p"

lemma spends_refl [simp]: "spends d k n p p"
  by (simp add: spends_def)

lemma spends_trans: "spends d k m p q \<Longrightarrow> spends d k n q r \<Longrightarrow> spends d k (m + n) p r"
  unfolding spends_def by (fastforce simp: add.assoc)

lemma spends_mono: "spends d k m p q \<Longrightarrow> m \<le> n \<Longrightarrow> spends d k n p q"
  unfolding spends_def by fastforce

lemma spends_send: "spends d k 1 p (pl_emit (createMessage d k) p)"
  by (simp add: spends_def pl_emit_def budget_def)

lemma spends_sleep: "spends d k 0 p (pl_emit (PlSleep i) p)"
  by (simp add: spends_def pl_emit_def budget_def)

lemma spends_enqueue:
  "for_message d k cb \<Longrightarrow> retries_left cb \<le> n \<Longrightarrow>
     spends d k n p (p\<lparr>outstanding := outstanding p @ [cb]\<rparr>)"
  by (simp add: spends_def budget_def)

lemma spends_run_callback:
  "for_message d k cb \<Longrightarrow> spends d k (retries_left cb) p (snd (run_callback lib r cb p))"
proof (induction lib r cb p rule: run_callback.induct)
  case (1 lib r cb p)
  show ?case
  proof (cases "r = ResultTimeout \<and> retry_count cb < max_retry_count cb")
    case False
    then show ?thesis by (auto simp: run_callback.simps [of lib r cb p])
  next
    case True
    let ?cb = "cb\<lparr>retry_count := retry_count cb + 1\<rparr>"
    let ?p = "pl_emit (createMessage d k) p"
    have left: "retries_left cb = 1 + retries_left ?cb"
      using True unfolding retries_left_def by simp linarith
    have m: "for_message d k ?cb" "cb_payload cb = d" "cb_key cb = k"
      using "1.prems" by (simp_all add: for_message_def)
    show ?thesis
    proof (cases "pl_send lib (pl_calls p)")
      case None
      have "spends d k (retries_left ?cb) ?p (?p\<lparr>outstanding := outstanding ?p @ [?cb]\<rparr>)"
        by (rule spends_enqueue [OF m(1)]) simp
      with spends_trans [OF spends_send this] left True None m show ?thesis
        unfolding run_callback.simps [of lib r cb p] by (simp add: Let_def)
    next
      case (Some r')
      have "spends d k (retries_left ?cb) ?p (snd (run_callback lib r' ?cb ?p))"
        using "1.IH" [OF True refl refl refl Some] m by simp
      with spends_trans [OF spends_send this] left True Some m show ?thesis
        unfolding run_callback.simps [of lib r cb p] by (simp add: Let_def)
    qed
  qed
qed

lemma spends_send_once:
  assumes "for_message d k cb"
  shows "spends d k (1 + retries_left cb) p (snd (send_once lib cb p))"
proof -
  let ?p = "pl_emit (createMessage d k) p"
  have m: "cb_payload cb = d" "cb_key cb = k" using assms by (simp_all add: for_message_def)
  show ?thesis
  proof (cases "pl_send lib (pl_calls p)")
    case None
    have "spends d k (retries_left cb) ?p (?p\<lparr>outstanding := outstanding ?p @ [cb]\<rparr>)"
      by (rule spends_enqueue [OF assms]) simp
    from spends_trans [OF spends_send this] None m show ?thesis by (simp add: send_once_def Let_def)
  next
    case (Some r)
    from spends_trans [OF spends_send spends_run_callback [OF assms]] Some m show ?thesis
      by (simp add: send_once_def Let_def)
  qed
qed

lemma spends_conf: "spends d k n p q \<Longrightarrow> the_producer_conf q = the_producer_conf p"
  by (simp add: spends_def the_producer_conf_def)

lemma spends_send_loop:
  "spends d k (n * (1 + nat (pp_timeout_retry_count (the_producer_conf p)))) p (snd (send_loop n lib d k p))"
proof (induction n arbitrary: p)
  case (Suc n)
  let ?t = "1 + nat (pp_timeout_retry_count (the_producer_conf p))"
  let ?cb = "\<lparr>max_retry_count = pp_timeout_retry_count (the_producer_conf p), retry_count = 0,
      cb_payload = d, cb_key = k, cb_topic = prod_topic p\<rparr>"
  obtain r q where q: "send_once lib ?cb p = (r, q)" by (cases "send_once lib ?cb p")
  have once: "spends d k ?t p q"
    using spends_send_once [of d k ?cb p lib] q by (simp add: for_message_def retries_left_def)
  let ?q = "pl_emit (PlSleep (pp_queue_full_retry_interval_ms (the_producer_conf q))) q"
  have c: "the_producer_conf ?q = the_producer_conf p"
    using spends_conf [OF once] by (simp add: the_producer_conf_def pl_emit_def)
  have "spends d k (0 + n * ?t) q (snd (send_loop n lib d k ?q))"
    using spends_trans [OF spends_sleep Suc.IH [of ?q, unfolded c]] by simp
  from spends_trans [OF once this] spends_mono [OF once, of "Suc n * ?t"] q show ?case
    by (simp add: Let_def algebra_simps)
qed simp

lemma spends_complete_send:
  assumes "\<forall>cb \<in> set (outstanding p). for_message d k cb"
  shows "spends d k 0 p (complete_send lib i r p)"
proof (cases "i < length (outstanding p)")
  case True
  let ?p = "p\<lparr>outstanding := take i (outstanding p) @ drop (Suc i) (outstanding p)\<rparr>"
  have m: "for_message d k (outstanding p ! i)" using assms True by simp
  have b: "budget p = retries_left (outstanding p ! i) + budget ?p"
    using True by (subst (1) budget_def, subst id_take_nth_drop [OF True]) (simp add: budget_def)
  have "\<forall>cb \<in> set (outstanding ?p). for_message d k cb"
    using assms by (auto dest: in_set_takeD in_set_dropD)
  with spends_run_callback [OF m, of ?p lib r] b True show ?thesis
    by (fastforce simp: spends_def complete_send_def)
qed (simp add: complete_send_def)

lemma spends_complete_sends:
  "\<forall>cb \<in> set (outstanding p). for_message d k cb \<Longrightarrow> spends d k 0 p (complete_sends lib reports p)"
proof (induction reports arbitrary: p)
  case (Cons x reports)
  obtain i r where x: "x = (i, r)" by force
  note s = spends_complete_send [OF Cons.prems, of lib i r]
  then have "\<forall>cb \<in> set (outstanding (complete_send lib i r p)). for_message d k cb"
    using Cons.prems by (simp add: spends_def)
  from spends_trans [OF s Cons.IH [OF this]] show ?case
    by (simp add: complete_sends_def x)
qed (simp add: complete_sends_def)

text \<open>C14: One call of \<open>produce\<close>, with everything that the library later reports for its message, in any
  order and with any answers, sends the message at most \<open>queue.full.retry.count\<close> times
  \<open>1 + timeout.retry.count\<close>, and what it sends is always this payload with this key.\<close>

theorem produce_send_bound:
  assumes "outstanding p = []"
  shows "\<exists>new. pl_calls (complete_sends lib reports (snd (pulsar_produce lib data n key p))) =
       pl_calls p @ new \<and>
     sends new \<le> nat (pp_queue_full_retry_count (the_producer_conf p)) *
       (1 + nat (pp_timeout_retry_count (the_producer_conf p))) \<and>
     only_sends (take n data) key new"
proof (cases "prod_client p")
  case False
  with assms have "complete_sends lib reports (snd (pulsar_produce lib data n key p)) = p"
    by (induction reports) (auto simp: complete_sends_def complete_send_def pulsar_produce_def)
  then show ?thesis by (intro exI [of _ "[]"]) simp
next
  case True
  let ?q = "snd (pulsar_sendAsync lib (take n data) key p)"
  let ?N = "nat (pp_queue_full_retry_count (the_producer_conf p)) *
       (1 + nat (pp_timeout_retry_count (the_producer_conf p)))"
  have q: "snd (pulsar_produce lib data n key p) = ?q"
    using True by (simp add: pulsar_produce_def Let_def split: prod.split)
  have s: "spends (take n data) key ?N p ?q"
    unfolding pulsar_sendAsync_def by (rule spends_send_loop)
  then have "\<forall>cb \<in> set (outstanding ?q). for_message (take n data) key cb"
    using assms by (simp add: spends_def)
  from spends_trans [OF s spends_complete_sends [OF this, of lib reports]] assms show ?thesis
    by (auto simp: spends_def q budget_def)
qed


theorem produce_send_bound_witness:
  "\<exists>new. pl_calls (complete_sends (quiet_pulsar\<lparr>pl_send := \<lambda>_. Some ResultProducerQueueIsFull\<rparr>) [(0, ResultTimeout)]
       (snd (pulsar_produce (quiet_pulsar\<lparr>pl_send := \<lambda>_. Some ResultProducerQueueIsFull\<rparr>) ''abc'' 2 ''k''
         (pulsar_producer_new\<lparr>prod_client := True\<rparr>)))) = new \<and> sends new \<le> 5"
  using produce_send_bound [of "pulsar_producer_new\<lparr>prod_client := True\<rparr>"
      "quiet_pulsar\<lparr>pl_send := \<lambda>_. Some ResultProducerQueueIsFull\<rparr>" "[(0, ResultTimeout)]" "''abc''" 2 "''k''"]
  by (auto simp: pulsar_producer_new_def the_producer_conf_def producer_config_default_def)

section \<open>The queue is full\<close>

text \<open>An attempt that finds the queue full: the send and the pause after it.\<close>

definition full_attempt :: "string \<Rightarrow> string \<Rightarrow> producer_config \<Rightarrow> pl_call list" where
  "full_attempt payload key conf =
     [createMessage payload key, PlSleep (pp_queue_full_retry_interval_ms conf)]"

lemma send_loop_full:
  assumes "\<And>j. j < k \<Longrightarrow> pl_send lib (pl_calls p @ concat (replicate j once)) = Some ResultProducerQueueIsFull"
    and "pl_send lib (pl_calls p @ concat (replicate k once)) = None"
    and "once = full_attempt d key (the_producer_conf p)"
  shows "send_loop n lib d key p =
     (if k < n
      then (ResultOk, p\<lparr>pl_calls := pl_calls p @ concat (replicate k once) @ [createMessage d key],
             outstanding := outstanding p @ [\<lparr>max_retry_count = pp_timeout_retry_count (the_producer_conf p),
               retry_count = 0, cb_payload = d, cb_key = key, cb_topic = prod_topic p\<rparr>]\<rparr>)
      else (ResultProducerQueueIsFull, p\<lparr>pl_calls := pl_calls p @ concat (replicate n once)\<rparr>))"
  using assms
proof (induction n arbitrary: k p)
  case (Suc n)
  show ?case
  proof (cases k)
    case 0
    with Suc.prems(2) show ?thesis by (simp add: send_once_def Let_def pl_emit_def)
  next
    case (Suc k')
    let ?p = "p\<lparr>pl_calls := pl_calls p @ once\<rparr>"
    have c: "the_producer_conf ?p = the_producer_conf p" by (simp add: the_producer_conf_def)
    have step: "send_loop (Suc n) lib d key p = send_loop n lib d key ?p"
      using Suc.prems(1) [of 0] Suc.prems(3) Suc
      by (simp add: send_once_def Let_def run_callback.simps pl_emit_def full_attempt_def
          the_producer_conf_def)
    have "pl_send lib (pl_calls ?p @ concat (replicate j once)) = Some ResultProducerQueueIsFull" if "j < k'" for j
      using Suc.prems(1) [of "Suc j"] that Suc by simp
    moreover have "pl_send lib (pl_calls ?p @ concat (replicate k' once)) = None"
      using Suc.prems(2) Suc by simp
    moreover have "once = full_attempt d key (the_producer_conf ?p)" unfolding c by (rule Suc.prems(3))
    ultimately have "send_loop n lib d key ?p = (if k' < n
      then (ResultOk, ?p\<lparr>pl_calls := pl_calls ?p @ concat (replicate k' once) @ [createMessage d key],
             outstanding := outstanding ?p @ [\<lparr>max_retry_count = pp_timeout_retry_count (the_producer_conf ?p),
               retry_count = 0, cb_payload = d, cb_key = key, cb_topic = prod_topic ?p\<rparr>]\<rparr>)
      else (ResultProducerQueueIsFull, ?p\<lparr>pl_calls := pl_calls ?p @ concat (replicate n once)\<rparr>))"
      by (rule Suc.IH)
    then show ?thesis unfolding step by (simp add: c Suc del: send_loop.simps)
  qed
qed simp

text \<open>C30: While the library answers at once that its queue is full, \<open>produce\<close> of an initialised producer
  sends again after \<open>queue.full.retry.interval.ms\<close>, and no more than \<open>queue.full.retry.count\<close> times in all: if
  the library takes the message at the attempt after \<open>k\<close> full ones, the call succeeds exactly when \<open>k\<close> is
  smaller than the count; otherwise it fails having sent that many times. A count of zero or less means
  that nothing is ever sent.\<close>

theorem produce_queue_full:
  assumes "prod_client p" and "conf = the_producer_conf p"
    and "once = full_attempt (take len data) key conf"
    and "\<And>j. j < k \<Longrightarrow> pl_send lib (pl_calls p @ concat (replicate j once)) = Some ResultProducerQueueIsFull"
    and "pl_send lib (pl_calls p @ concat (replicate k once)) = None"
  shows "pulsar_produce lib data len key p =
     (if int k < pp_queue_full_retry_count conf
      then (True, p\<lparr>
        pl_calls := pl_calls p @ concat (replicate k once) @ [createMessage (take len data) key],
        outstanding := outstanding p @ [\<lparr>max_retry_count = pp_timeout_retry_count conf, retry_count = 0,
          cb_payload = take len data, cb_key = key, cb_topic = prod_topic p\<rparr>]\<rparr>)
      else (False, p\<lparr>
        pl_calls := pl_calls p @ concat (replicate (nat (pp_queue_full_retry_count conf)) once)\<rparr>))"
proof -
  have "k < nat (pp_queue_full_retry_count conf) \<longleftrightarrow> int k < pp_queue_full_retry_count conf"
    by (simp add: zless_nat_eq_int_zless)
  with send_loop_full [OF assms(4,5), where d = "take len data" and key = key
      and n = "nat (pp_queue_full_retry_count conf)"] assms(1-3)
  show ?thesis by (simp add: pulsar_produce_def pulsar_sendAsync_def Let_def)
qed

theorem produce_queue_full_witness:
  "fst (pulsar_produce (quiet_pulsar\<lparr>pl_send := \<lambda>log. if log = [] then Some ResultProducerQueueIsFull else None\<rparr>)
     ''abc'' 2 ''k'' (pulsar_producer_new\<lparr>prod_client := True\<rparr>))"
  using produce_queue_full [of "pulsar_producer_new\<lparr>prod_client := True\<rparr>" _ _ 2 "''abc''" "''k''" 1
      "quiet_pulsar\<lparr>pl_send := \<lambda>log. if log = [] then Some ResultProducerQueueIsFull else None\<rparr>", OF _ refl refl]
  by (simp add: pulsar_producer_new_def the_producer_conf_def producer_config_default_def full_attempt_def)

section \<open>Timeouts\<close>

text \<open>An accepted message whose sends time out one after the other is sent again
  \<open>timeout.retry.count\<close> times, and then given up: after \<open>k\<close> timeouts it was repeated \<open>min k count\<close>
  times and is still on its way exactly when \<open>k\<close> does not exceed the count, although \<open>produce\<close> has
  returned true.\<close>

theorem timeouts_are_retried:
  assumes "outstanding p = [cb]" and "retry_count cb = 0" and "0 \<le> max_retry_count cb"
    and "\<And>log. pl_send lib log = None"
  shows "complete_sends lib (replicate k (0, ResultTimeout)) p = p\<lparr>
     pl_calls := pl_calls p @ replicate (min k (nat (max_retry_count cb)))
       (createMessage (cb_payload cb) (cb_key cb)),
     outstanding := (if int k \<le> max_retry_count cb then [cb\<lparr>retry_count := int k\<rparr>] else [])\<rparr>"
proof (induction k)
  case 0
  with assms show ?case by (simp add: complete_sends_def)
next
  case (Suc k)
  have snoc: "complete_sends lib (replicate (Suc k) (0, ResultTimeout)) p =
      complete_send lib 0 ResultTimeout (complete_sends lib (replicate k (0, ResultTimeout)) p)"
  proof -
    have "replicate (Suc k) (0 :: nat, ResultTimeout) = replicate k (0, ResultTimeout) @ [(0, ResultTimeout)]"
      by (simp add: replicate_append_same)
    then show ?thesis by (simp only: complete_sends_def) simp
  qed
  consider "int k < max_retry_count cb" | "int k = max_retry_count cb" | "max_retry_count cb < int k" by linarith
  then show ?case
  proof cases
    case 1
    then have "min (Suc k) (nat (max_retry_count cb)) = Suc k" "min k (nat (max_retry_count cb)) = k"
      by auto
    with 1 assms(4) show ?thesis
      unfolding snoc Suc.IH
      by (simp add: complete_send_def run_callback.simps Let_def pl_emit_def replicate_append_same algebra_simps)
  next
    case 2
    then have "min (Suc k) (nat (max_retry_count cb)) = k" "min k (nat (max_retry_count cb)) = k"
      by auto
    with 2 show ?thesis
      unfolding snoc Suc.IH by (simp add: complete_send_def run_callback.simps)
  next
    case 3
    then have "min (Suc k) (nat (max_retry_count cb)) = min k (nat (max_retry_count cb))" by auto
    with 3 show ?thesis
      unfolding snoc Suc.IH by (simp add: complete_send_def)
  qed
qed

theorem timeouts_are_retried_witness:
  "outstanding (complete_sends quiet_pulsar (replicate 2 (0, ResultTimeout)) (pulsar_producer_new
     \<lparr>outstanding := [\<lparr>max_retry_count = 1, retry_count = 0, cb_payload = ''m'', cb_key = [], cb_topic = ''t''\<rparr>]\<rparr>)) = []"
  using timeouts_are_retried [of "pulsar_producer_new
     \<lparr>outstanding := [\<lparr>max_retry_count = 1, retry_count = 0, cb_payload = ''m'', cb_key = [], cb_topic = ''t''\<rparr>]\<rparr>"
     "\<lparr>max_retry_count = 1, retry_count = 0, cb_payload = ''m'', cb_key = [], cb_topic = ''t''\<rparr>" quiet_pulsar 2]
  by (simp add: quiet_pulsar_def)


text \<open>A result other than a timeout ends a message at once, also when it comes for a repeated send:
  in particular a repeated send that finds the queue full is given up without another attempt,
  although the timeouts it answers to may leave retries.\<close>

theorem other_results_end_a_message:
  assumes "r \<noteq> ResultTimeout"
  shows "complete_send lib i r p =
     p\<lparr>outstanding := take i (outstanding p) @ drop (Suc i) (outstanding p)\<rparr>"
  using assms by (simp add: complete_send_def run_callback.simps)

theorem other_results_end_a_message_witness:
  "complete_send quiet_pulsar 0 ResultProducerQueueIsFull pulsar_producer_new = pulsar_producer_new"
  using other_results_end_a_message [of ResultProducerQueueIsFull quiet_pulsar 0 pulsar_producer_new]
  by (simp add: pulsar_producer_new_def)

section \<open>Settings\<close>

text \<open>The limit on the size of a batch reaches the library as the configured number of kilobytes
  exactly when that number is at least 0 and below 2097152; other values of the \<open>int\<close> are changed by
  the product or by the conversion to an unsigned number.\<close>

theorem batch_size_exact:
  assumes "- (2 ^ 31) \<le> pp_batching_max_allowed_size_kbytes conf"
    and "pp_batching_max_allowed_size_kbytes conf < 2 ^ 31"
  shows "conf_batching_max_bytes (producer_conf_of conf) = pp_batching_max_allowed_size_kbytes conf * 1024 \<longleftrightarrow>
     0 \<le> pp_batching_max_allowed_size_kbytes conf \<and> pp_batching_max_allowed_size_kbytes conf < 2097152"
proof -
  let ?k = "pp_batching_max_allowed_size_kbytes conf"
  let ?w = "long_to_int (?k * 1024)"
  have r: "- (2 ^ 31) \<le> ?w" "?w < 2 ^ 31" using long_to_int_range [of "?k * 1024"] by auto
  have m: "?w mod 2 ^ 64 = (if 0 \<le> ?w then ?w else ?w + 2 ^ 64)"
  proof (cases "0 \<le> ?w")
    case True
    with r show ?thesis by simp
  next
    case False
    then have "(?w + 2 ^ 64) mod 2 ^ 64 = ?w + 2 ^ 64" using r by (intro mod_pos_pos_trivial) auto
    with False show ?thesis by simp
  qed
  show ?thesis
  proof (cases "0 \<le> ?k \<and> ?k < 2097152")
    case True
    then have "?w = ?k * 1024" by (intro long_to_int_id) auto
    with True m show ?thesis by (simp add: producer_conf_of_def)
  next
    case False
    then have "?k * 1024 < 0 \<or> 2 ^ 31 \<le> ?k * 1024" by auto
    moreover have "?k * 1024 < 2 ^ 41" "- (2 ^ 41) \<le> ?k * 1024" using assms by auto
    ultimately have "?w mod 2 ^ 64 \<noteq> ?k * 1024" using r m by (auto split: if_splits)
    with False show ?thesis by (simp add: producer_conf_of_def)
  qed
qed

theorem batch_size_exact_witness:
  "conf_batching_max_bytes (producer_conf_of producer_config_default) = 131072"
  using batch_size_exact [of producer_config_default] by (simp add: producer_config_default_def)

section \<open>init and uninit\<close>

text \<open>When the library refuses to create the producer, \<open>init\<close> closes what it opened, in the order
  producer, client, and leaves an object on which \<open>init\<close> can be called again: a second call on it, with
  a library that accepts, succeeds, and the producer it makes has the settings of the file.\<close>

theorem init_can_be_repeated:
  assumes "\<not> prod_client p" and "pt_read_ini pt cp = Inr cfg" and "pc_broker pt cfg = Inr url"
    and "pc_topic_prefix pt cfg = Inr pre"
    and "pulsar_producer_init pt lib '''' lp cp topic p = (rt, p1)" and "rt \<noteq> Inr True"
    and "\<And>log. pl_create_producer lib' log = ResultOk"
  shows "rt = Inr False \<and> \<not> prod_client p1 \<and> prod_config p1 = None \<and>
     (\<exists>open. pl_calls p1 = open @ [PlCloseProducer, PlCloseClient]) \<and>
     (\<exists>p2. pulsar_producer_init pt lib' '''' lp cp topic p1 = (Inr True, p2) \<and> prod_client p2 \<and>
        prod_config p2 = Some (pc_producer_config pt cfg) \<and> prod_topic p2 = pre @ topic \<and>
        (\<exists>log. pl_calls p2 = log @ [PlCreateProducer (pre @ topic) (producer_conf_of (pc_producer_config pt cfg))]))"
  using assms
  by (auto simp: pulsar_producer_init_def pc_loadConfig_def create_producer_def Let_def pl_emit_def
      split: if_splits)

theorem init_can_be_repeated_witness:
  "\<exists>p2. pulsar_producer_init (ini_lib (\<lambda>_. Inr (Ini [] [(''broker'', ini_value ''h'')]))) quiet_pulsar [] [] ''c'' ''t''
     (snd (pulsar_producer_init (ini_lib (\<lambda>_. Inr (Ini [] [(''broker'', ini_value ''h'')])))
       (quiet_pulsar\<lparr>pl_create_producer := \<lambda>_. ResultError 1\<rparr>) [] [] ''c'' ''t'' pulsar_producer_new)) = (Inr True, p2)"
proof -
  let ?cfg = "Ini [] [(''broker'', ini_value ''h'')]"
  let ?pt = "ini_lib (\<lambda>_. Inr ?cfg)"
  have f: "pt_read_ini ?pt ''c'' = Inr ?cfg" "pc_broker ?pt ?cfg = Inr ''pulsar://h''"
      "pc_topic_prefix ?pt ?cfg = Inr ''persistent://public/default/''"
    by (simp_all add: ini_lib_def pc_broker_def pc_topic_prefix_def pc_find_bool_def pc_find_string_def
        pulsar_key_defs ini_value_def)
  have "fst (pulsar_producer_init ?pt (quiet_pulsar\<lparr>pl_create_producer := \<lambda>_. ResultError 1\<rparr>) [] [] ''c'' ''t''
      pulsar_producer_new) \<noteq> Inr True"
    using f by (simp add: pulsar_producer_init_def pc_loadConfig_def create_producer_def
        pulsar_producer_new_def Let_def)
  from init_can_be_repeated [OF _ f surjective_pairing this, of quiet_pulsar]
  show ?thesis by (auto simp: pulsar_producer_new_def quiet_pulsar_def)
qed

text \<open>\<open>uninit\<close> flushes before it closes the producer, and the producer before the client; it does so
  once, and afterwards \<open>produce\<close> sends nothing and reports failure.\<close>

theorem pulsar_uninit_once:
  "(prod_client p \<longrightarrow> pl_calls (pulsar_producer_uninit lib p) =
      pl_calls p @ [PlFlush, PlCloseProducer, PlCloseClient]) \<and>
   pulsar_producer_uninit lib (pulsar_producer_uninit lib p) = pulsar_producer_uninit lib p \<and>
   pulsar_produce lib' data n key (pulsar_producer_uninit lib p) = (False, pulsar_producer_uninit lib p)"
  by (simp add: pulsar_producer_uninit_def pulsar_produce_def pl_emit_def)

theorem pulsar_uninit_once_witness:
  "pl_calls (pulsar_producer_uninit quiet_pulsar (pulsar_producer_new\<lparr>prod_client := True\<rparr>)) =
     [PlFlush, PlCloseProducer, PlCloseClient]"
  using pulsar_uninit_once [of "pulsar_producer_new\<lparr>prod_client := True\<rparr>" quiet_pulsar quiet_pulsar "[]" 0 "[]"]
  by (simp add: pulsar_producer_new_def)


section \<open>The PHP producer\<close>

text \<open>PHP producers are shared by the concatenation of broker, topic and configuration path. Once one
  of them is initialised, a second object whose three strings concatenate to the same text, even with
  another topic, gets false from \<open>init\<close>, but sends through the first one's producer, to its topic.\<close>

theorem php_second_object_shares:
  assumes "smap_ok m" and "pulsar_php_init pt lib broker lp cp topic None m = (Inr True, me, m1)"
    and "broker' @ topic' @ cp' = broker @ topic @ cp"
  shows "\<exists>p. map_of m1 (broker @ topic @ cp) = Some p \<and>
     pulsar_php_init pt' lib' broker' lp' cp' topic' None m1 = (Inr False, me, smap_assign (broker @ topic @ cp) p m1) \<and>
     pulsar_php_produce lib' data n key me m1 =
       (fst (pulsar_produce lib' data n key p),
        smap_assign (broker @ topic @ cp) (snd (pulsar_produce lib' data n key p)) m1)"
proof -
  let ?key = "broker @ topic @ cp"
  obtain q m0 where q: "producer_map_at ?key m = (q, m0)" by force
  obtain r p where p: "pulsar_producer_init pt lib broker lp cp topic q = (r, p)" by force
  have me: "r = Inr True" "me = Some ?key" "m1 = smap_assign ?key p m0"
    using assms(2) q p by (auto simp: pulsar_php_init_def newProducerKey_def Let_def)
  have "prod_client p"
    using p me(1)
    by (auto simp: pulsar_producer_init_def create_producer_def Let_def pl_emit_def
        split: if_splits sum.splits prod.splits)
  moreover have "map_of m1 ?key = Some p" by (simp add: me(3) map_of_smap_assign)
  ultimately show ?thesis
    using assms(3)
    by (simp add: pulsar_php_init_def newProducerKey_def producer_map_at_def pulsar_producer_init_def
        pulsar_php_produce_def me(2) Let_def split: prod.split)
qed

definition php_file :: "ini ptree_lib" where
  "php_file = ini_lib (\<lambda>_. Inr (Ini [] []))"

lemma php_file_init:
  "\<exists>m1. pulsar_php_init php_file quiet_pulsar ''h'' [] ''c'' ''t1'' None [] = (Inr True, Some ''ht1c'', m1)"
  by (simp add: pulsar_php_init_def newProducerKey_def producer_map_at_def php_file_def ini_lib_def
      pulsar_producer_init_def pulsar_producer_new_def pc_loadConfig_def pc_put_def pc_broker_def pulsar_key_defs
      pc_topic_prefix_def pc_find_bool_def pc_find_string_def create_producer_def quiet_pulsar_def Let_def pl_emit_def)

theorem php_second_object_shares_witness:
  "\<exists>m1 m2. pulsar_php_init php_file quiet_pulsar ''h'' [] ''c'' ''t1'' None [] = (Inr True, Some ''ht1c'', m1) \<and>
     pulsar_php_init php_file quiet_pulsar ''h'' [] ''1c'' ''t'' None m1 = (Inr False, Some ''ht1c'', m2)"
proof -
  obtain m1 where m1: "pulsar_php_init php_file quiet_pulsar ''h'' [] ''c'' ''t1'' None [] =
      (Inr True, Some ''ht1c'', m1)" using php_file_init by blast
  have "''h'' @ ''t'' @ ''1c'' = ''h'' @ ''t1'' @ ''c''" by simp
  from php_second_object_shares [OF _ m1 this, where pt' = php_file and lib' = quiet_pulsar and lp' = "[]"
      and data = "[]" and n = 0 and key = "[]"] m1
  show ?thesis by auto
qed

text \<open>On one object a failed \<open>init\<close> is never repeated: the next call answers true without doing
  anything, and \<open>produce\<close> fails from then on.\<close>

theorem php_failed_init_is_masked:
  assumes "smap_ok m" and "map_of m (broker @ topic @ cp) = None"
    and "pulsar_php_init pt lib broker lp cp topic None m = (Inr False, me, m1)"
  shows "pulsar_php_init pt' lib' broker' lp' cp' topic' me m1 = (Inr True, me, m1) \<and>
     fst (pulsar_php_produce lib' data n key me m1) = False"
proof -
  let ?key = "broker @ topic @ cp"
  obtain r p where p: "pulsar_producer_init pt lib broker lp cp topic pulsar_producer_new = (r, p)" by force
  have me: "r = Inr False" "me = Some ?key" "map_of m1 ?key = Some p"
    using assms(2,3) p
    by (auto simp: pulsar_php_init_def newProducerKey_def producer_map_at_def Let_def map_of_smap_assign)
  have "\<not> prod_client p"
    using p me(1)
    by (auto simp: pulsar_producer_init_def create_producer_def Let_def pl_emit_def pulsar_producer_new_def
        split: if_splits sum.splits prod.splits)
  then show ?thesis
    by (simp add: me pulsar_php_init_def pulsar_php_produce_def pulsar_produce_def)
qed

theorem php_failed_init_is_masked_witness:
  "\<exists>me m1. pulsar_php_init php_file (quiet_pulsar\<lparr>pl_create_producer := \<lambda>_. ResultTimeout\<rparr>) ''h'' [] ''c'' ''t'' None [] =
       (Inr False, me, m1) \<and>
     pulsar_php_init php_file quiet_pulsar ''h'' [] ''c'' ''t'' me m1 = (Inr True, me, m1)"
proof -
  obtain me m1 where *: "pulsar_php_init php_file (quiet_pulsar\<lparr>pl_create_producer := \<lambda>_. ResultTimeout\<rparr>)
      ''h'' [] ''c'' ''t'' None [] = (Inr False, me, m1)"
    by (simp add: pulsar_php_init_def newProducerKey_def producer_map_at_def php_file_def ini_lib_def
      pulsar_producer_init_def pulsar_producer_new_def pc_loadConfig_def pc_put_def pc_broker_def pulsar_key_defs
      pc_topic_prefix_def pc_find_bool_def pc_find_string_def create_producer_def quiet_pulsar_def Let_def pl_emit_def)
  from php_failed_init_is_masked [OF smap_ok_Nil _ *, where pt' = php_file] * show ?thesis by auto
qed

text \<open>The destructor of the map closes every producer that is still open, each exactly once and after a
  flush, and touches no other.\<close>

theorem producer_map_destroy_closes_all:
  "map_of (producer_map_destroy lib m) k =
     (case map_of m k of
        None \<Rightarrow> None
      | Some p \<Rightarrow> Some (if prod_client p
          then p\<lparr>pl_calls := pl_calls p @ [PlFlush, PlCloseProducer, PlCloseClient], prod_client := False\<rparr>
          else p))"
  by (induction m)
     (auto simp: producer_map_destroy_def pulsar_producer_uninit_def pl_emit_def split: option.splits)

section \<open>The interface\<close>

lemma produce_spends:
  "\<exists>k. spends (take n data) key k p (snd (pulsar_produce lib data n key p))"
proof (cases "prod_client p")
  case True
  have "snd (pulsar_produce lib data n key p) = snd (pulsar_sendAsync lib (take n data) key p)"
    using True by (simp add: pulsar_produce_def Let_def split: prod.split)
  then show ?thesis
    using spends_send_loop [of "take n data" key _ p lib] by (auto simp: pulsar_sendAsync_def)
qed (simp add: pulsar_produce_def)

interpretation pulsar_imp: producer_interface prod_client "\<lambda>d k. pulsar_produce lib d (length d) k"
  "pulsar_producer_uninit lib" pl_calls for lib :: pulsar_lib
proof unfold_locales
  fix d k and s :: pulsar_producer
  show "\<exists>new. pl_calls (snd (pulsar_produce lib d (length d) k s)) = pl_calls s @ new"
    "prod_client (snd (pulsar_produce lib d (length d) k s)) = prod_client s"
    using produce_spends [of "length d" d k s lib] by (auto simp: spends_def)
qed (auto simp: pulsar_produce_def pulsar_producer_uninit_def pl_emit_def)

end
