(* ===== verification/Pulsar_Producer_Accounts.thy ===== *)
theory Pulsar_Producer_Accounts
  imports Pulsar_Producer_Props
begin

text \<open>
  What becomes of the messages that the Pulsar producer accepts. A history is a sequence of calls of
  \<open>produce\<close> and \<open>uninit\<close> and of results that the library reports for outstanding messages, in any
  order. The account is kept from the calls of \<open>sendAsync\<close> in the log and the answers that the library gives
  to them, not from what the producer makes of the answers: a message is confirmed when the library answers or
  reports \<open>ResultOk\<close> for it, and given up when another result was the last that the library gave for it. Against
  this stand the messages for which \<open>produce\<close> returned true (\<open>accepted_sends\<close>) and the copies of callbacks that
  the library holds (\<open>outstanding\<close>).

  \<open>prompt_law\<close> states what the code relies on in \<open>sendAsync\<close>: a callback that it runs before it
  returns is not given a timeout, since no time has passed.
\<close>

section \<open>Histories\<close>

datatype producer_event = Producing string nat string | Reporting nat pl_result | Closing

record producer_account =
  acc_producer :: pulsar_producer
  accepted_sends :: "(string \<times> string) list"          \<comment> \<open>payload and key\<close>
  confirmed :: "(string \<times> string) list"
  given_up :: "(send_callback \<times> pl_result) list"

definition account_new :: "pulsar_producer \<Rightarrow> producer_account" where
  "account_new p = \<lparr>acc_producer = p, accepted_sends = [], confirmed = [], given_up = []\<rparr>"

text \<open>The messages that were sent by the calls \<open>xs\<close> after the log \<open>pre\<close>, each with the library's answer.\<close>

fun answered ::
  "pulsar_lib \<Rightarrow> pl_call list \<Rightarrow> pl_call list \<Rightarrow> ((string \<times> string) \<times> pl_result option) list" where
  "answered lib pre [] = []"
| "answered lib pre (x # xs) =
     (case x of PlSend d k \<Rightarrow> [((d, case k of Some key \<Rightarrow> key | None \<Rightarrow> ''''), pl_send lib pre)] | _ \<Rightarrow> []) @
     answered lib (pre @ [x]) xs"

definition answers_since ::
  "pulsar_lib \<Rightarrow> pulsar_producer \<Rightarrow> pulsar_producer \<Rightarrow> ((string \<times> string) \<times> pl_result option) list" where
  "answers_since lib p p' = answered lib (pl_calls p) (drop (length (pl_calls p)) (pl_calls p'))"

definition confirmed_by :: "((string \<times> string) \<times> pl_result option) list \<Rightarrow> (string \<times> string) list" where
  "confirmed_by ans = map fst (filter (\<lambda>x. snd x = Some ResultOk) ans)"

definition account_produce ::
  "pulsar_lib \<Rightarrow> string \<Rightarrow> nat \<Rightarrow> string \<Rightarrow> producer_account \<Rightarrow> producer_account" where
  "account_produce lib data data_len key a =
     (let (rt, p') = pulsar_produce lib data data_len key (acc_producer a)
      in a\<lparr>acc_producer := p',
           accepted_sends := accepted_sends a @ (if rt then [(take data_len data, key)] else []),
           confirmed := confirmed a @ confirmed_by (answers_since lib (acc_producer a) p')\<rparr>)"

definition message_of :: "send_callback \<Rightarrow> string \<times> string" where
  "message_of cb = (cb_payload cb, cb_key cb)"

text \<open>The last result the library gives for a message when it reports \<open>r\<close>: \<open>r\<close> itself, if it is not
  sent again, or else the answer to the last send; \<open>None\<close> when the library then holds the message.\<close>

definition last_result :: "((string \<times> string) \<times> pl_result option) list \<Rightarrow> pl_result \<Rightarrow> pl_result option" where
  "last_result ans r = (if ans = [] then Some r else snd (last ans))"

definition account_report :: "pulsar_lib \<Rightarrow> nat \<Rightarrow> pl_result \<Rightarrow> producer_account \<Rightarrow> producer_account" where
  "account_report lib i r a =
     (let p = acc_producer a; p' = complete_send lib i r p; cb = outstanding p ! i;
          a' = a\<lparr>acc_producer := p'\<rparr>
      in if i < length (outstanding p) then
           (case last_result (answers_since lib p p') r of
              None \<Rightarrow> a'
            | Some res \<Rightarrow>
                (if res = ResultOk then a'\<lparr>confirmed := confirmed a @ [message_of cb]\<rparr>
                 else a'\<lparr>given_up := given_up a @ [(cb, res)]\<rparr>))
         else a')"

fun account_event :: "pulsar_lib \<Rightarrow> producer_account \<Rightarrow> producer_event \<Rightarrow> producer_account" where
  "account_event lib a (Producing data n key) = account_produce lib data n key a"
| "account_event lib a (Reporting i r) = account_report lib i r a"
| "account_event lib a Closing = a\<lparr>acc_producer := pulsar_producer_uninit lib (acc_producer a)\<rparr>"

definition history :: "pulsar_lib \<Rightarrow> producer_event list \<Rightarrow> pulsar_producer \<Rightarrow> producer_account" where
  "history lib events p = foldl (account_event lib) (account_new p) events"

definition prompt_law :: "pulsar_lib \<Rightarrow> bool" where
  "prompt_law lib \<longleftrightarrow> (\<forall>log. pl_send lib log \<noteq> Some ResultTimeout)"

section \<open>One send\<close>

lemma answered_calls [simp]:
  "answered lib pre (createMessage d k # xs) =
     ((d, k), pl_send lib pre) # answered lib (pre @ [createMessage d k]) xs"
  "answered lib pre (PlSleep t # xs) = answered lib (pre @ [PlSleep t]) xs"
  by (simp_all add: createMessage_def)

lemma answered_append:
  "answered lib pre (xs @ ys) = answered lib pre xs @ answered lib (pre @ xs) ys"
  by (induction xs arbitrary: pre) (simp_all add: answered.simps(2))

declare answered.simps(2) [simp del]

lemma answers_none [simp]: "answers_since lib p p = []"
  "pl_calls p' = pl_calls p \<Longrightarrow> answers_since lib p p' = []"
  by (simp_all add: answers_since_def)

text \<open>A callback that runs either leaves a copy that is outstanding and that the library took, or it is
  over.\<close>

lemma run_callback_outcome:
  assumes "prompt_law lib" and "run_callback lib r cb p = (res, p')"
  shows "(\<exists>cb'. outstanding p' = outstanding p @ [cb'] \<and> message_of cb' = message_of cb \<and>
       last_result (answers_since lib p p') r = None) \<or>
     (outstanding p' = outstanding p \<and> last_result (answers_since lib p p') r = Some res \<and>
       (res = ResultTimeout \<longrightarrow> max_retry_count cb \<le> retry_count cb))"
proof (cases "r = ResultTimeout \<and> retry_count cb < max_retry_count cb")
  case False
  with assms(2) show ?thesis by (auto simp: run_callback.simps last_result_def)
next
  case True
  let ?cb = "cb\<lparr>retry_count := retry_count cb + 1\<rparr>"
  show ?thesis
  proof (cases "pl_send lib (pl_calls p)")
    case None
    with True have "run_callback lib r cb p = (r, (pl_emit (createMessage (cb_payload cb) (cb_key cb)) p)
        \<lparr>outstanding := outstanding p @ [?cb]\<rparr>)"
      by (subst run_callback.simps) (simp add: Let_def pl_emit_def)
    with assms(2) None show ?thesis
      by (intro disjI1 exI [of _ ?cb])
         (auto simp: message_of_def pl_emit_def answers_since_def last_result_def)
  next
    case (Some r')
    then have r': "r' \<noteq> ResultTimeout" using assms(1) by (auto simp: prompt_law_def)
    have "run_callback lib r cb p = (r', pl_emit (createMessage (cb_payload cb) (cb_key cb)) p)"
      using True Some r' by (simp add: run_callback.simps Let_def)
    with assms(2) Some r' show ?thesis
      by (auto simp: pl_emit_def answers_since_def last_result_def)
  qed
qed

text \<open>What a send leaves: the message is held or confirmed when the result is \<open>ResultOk\<close>, and neither
  when it is another.\<close>

definition sent_well ::
  "pulsar_lib \<Rightarrow> send_callback \<Rightarrow> pulsar_producer \<Rightarrow> pl_result \<times> pulsar_producer \<Rightarrow> bool" where
  "sent_well lib cb p x \<longleftrightarrow> prefix (pl_calls p) (pl_calls (snd x)) \<and>
     (if fst x = ResultOk
      then (outstanding (snd x) = outstanding p @ [cb] \<and> confirmed_by (answers_since lib p (snd x)) = []) \<or>
        (outstanding (snd x) = outstanding p \<and>
         confirmed_by (answers_since lib p (snd x)) = [message_of cb])
      else outstanding (snd x) = outstanding p \<and> confirmed_by (answers_since lib p (snd x)) = [])"

lemma send_once_outcome:
  assumes "prompt_law lib"
  shows "sent_well lib cb p (send_once lib cb p)"
proof (cases "pl_send lib (pl_calls p)")
  case None
  then show ?thesis
    by (simp add: send_once_def Let_def pl_emit_def sent_well_def answers_since_def confirmed_by_def)
next
  case (Some r)
  then have "r \<noteq> ResultTimeout" using assms by (auto simp: prompt_law_def)
  with Some show ?thesis
    by (simp add: send_once_def Let_def pl_emit_def run_callback.simps sent_well_def answers_since_def
        confirmed_by_def message_of_def)
qed

lemma send_once_frame:
  assumes "send_once lib cb p = (res, p')"
  shows "prod_config p' = prod_config p" "prod_topic p' = prod_topic p"
  using spends_send_once [of "cb_payload cb" "cb_key cb" cb p lib] assms by (auto simp: spends_def for_message_def)

lemma answers_trans:
  assumes "prefix (pl_calls p) (pl_calls q)" and "prefix (pl_calls q) (pl_calls q')"
  shows "answers_since lib p q' = answers_since lib p q @ answers_since lib q q'"
  using assms by (auto simp: prefix_def answers_since_def answered_append)

lemma sent_well_after:
  assumes "sent_well lib cb p (res, q)" and "res \<noteq> ResultOk" and "sent_well lib cb q x"
  shows "sent_well lib cb p x"
  using assms answers_trans [of p q "snd x" lib]
  by (auto simp: sent_well_def confirmed_by_def dest: prefix_order.trans)

lemma sent_well_sleep:
  "sent_well lib cb p (ResultProducerQueueIsFull, pl_emit (PlSleep t) p)"
  by (simp add: sent_well_def pl_emit_def answers_since_def confirmed_by_def)

lemma send_loop_outcome:
  assumes "prompt_law lib"
    and "cb = RetryableSendCallback (pp_timeout_retry_count (the_producer_conf p)) 0 d k (prod_topic p)"
  shows "sent_well lib cb p (send_loop n lib d k p)"
  using assms(2)
proof (induction n arbitrary: p)
  case 0
  show ?case by (simp add: sent_well_def confirmed_by_def)
next
  case (Suc n)
  obtain r q where s: "send_once lib cb p = (r, q)" by force
  let ?q = "pl_emit (PlSleep (pp_queue_full_retry_interval_ms (the_producer_conf q))) q"
  have o: "sent_well lib cb p (r, q)" using send_once_outcome [OF assms(1), of cb p] s by simp
  have "cb = RetryableSendCallback (pp_timeout_retry_count (the_producer_conf ?q)) 0 d k (prod_topic ?q)"
    using send_once_frame [OF s] Suc.prems by (simp add: the_producer_conf_def pl_emit_def)
  from Suc.IH [OF this] have "sent_well lib cb q (send_loop n lib d k ?q)"
    by (rule sent_well_after [OF sent_well_sleep, rotated]) simp
  from sent_well_after [OF o _ this] o show ?case
    unfolding send_loop.simps Suc.prems [symmetric] by (cases "r = ResultOk") (simp_all add: Let_def s)
qed

section \<open>The account\<close>

definition balanced_account :: "producer_account \<Rightarrow> bool" where
  "balanced_account a \<longleftrightarrow>
     mset (accepted_sends a) =
       image_mset message_of (mset (outstanding (acc_producer a))) + mset (confirmed a) +
       image_mset (message_of \<circ> fst) (mset (given_up a)) \<and>
     (\<forall>(cb, r) \<in> set (given_up a). r \<noteq> ResultOk \<and>
        (r = ResultTimeout \<longrightarrow> max_retry_count cb \<le> retry_count cb))"

lemma balanced_produce:
  assumes "prompt_law lib" and "balanced_account a"
  shows "balanced_account (account_produce lib d n k a)"
proof (cases "prod_client (acc_producer a)")
  case False
  with assms(2) show ?thesis
    by (simp add: account_produce_def pulsar_produce_def balanced_account_def confirmed_by_def)
next
  case True
  let ?p = "acc_producer a"
  let ?cb = "RetryableSendCallback (pp_timeout_retry_count (the_producer_conf ?p)) 0 (take n d) k (prod_topic ?p)"
  obtain res q where q: "pulsar_sendAsync lib (take n d) k ?p = (res, q)" by force
  then have "sent_well lib ?cb ?p (res, q)"
    using send_loop_outcome [OF assms(1) refl] unfolding pulsar_sendAsync_def by metis
  with assms(2) q True show ?thesis
    by (auto simp: pulsar_produce_def account_produce_def Let_def balanced_account_def message_of_def
        sent_well_def split: if_splits)
qed

lemma mset_without_nth:
  "i < length xs \<Longrightarrow> mset xs = add_mset (xs ! i) (mset (take i xs @ drop (Suc i) xs))"
  by (metis id_take_nth_drop mset.simps(2) mset_append union_mset_add_mset_right)

lemma balanced_report:
  assumes "prompt_law lib" and "balanced_account a"
  shows "balanced_account (account_report lib i r a)"
proof (cases "i < length (outstanding (acc_producer a))")
  case False
  with assms(2) show ?thesis
    by (simp add: account_report_def Let_def complete_send_def balanced_account_def)
next
  case True
  let ?p = "acc_producer a" let ?cb = "outstanding ?p ! i"
  let ?q = "?p\<lparr>outstanding := take i (outstanding ?p) @ drop (Suc i) (outstanding ?p)\<rparr>"
  obtain res p' where c: "run_callback lib r ?cb ?q = (res, p')" by force
  have p': "complete_send lib i r ?p = p'" using True c by (simp add: complete_send_def)
  have q: "answers_since lib ?q p' = answers_since lib ?p p'" by (simp add: answers_since_def)
  have m: "image_mset message_of (mset (outstanding ?p)) =
      add_mset (message_of ?cb) (image_mset message_of (mset (outstanding ?q)))"
    using mset_without_nth [OF True] by simp
  from run_callback_outcome [OF assms(1) c] show ?thesis
  proof (elim disjE exE conjE)
    fix cb'
    assume "outstanding p' = outstanding ?q @ [cb']" "message_of cb' = message_of ?cb"
      "last_result (answers_since lib ?q p') r = None"
    with m assms(2) True q show ?thesis
      by (simp add: account_report_def Let_def balanced_account_def p')
  next
    assume "outstanding p' = outstanding ?q" "last_result (answers_since lib ?q p') r = Some res"
      "res = ResultTimeout \<longrightarrow> max_retry_count ?cb \<le> retry_count ?cb"
    with m assms(2) True q show ?thesis
      by (auto simp: account_report_def Let_def balanced_account_def p')
  qed
qed

lemma outstanding_uninit [simp]: "outstanding (pulsar_producer_uninit lib p) = outstanding p"
  by (simp add: pulsar_producer_uninit_def pl_emit_def)

lemma balanced_history:
  assumes "prompt_law lib" and "outstanding p = []"
  shows "balanced_account (history lib events p)"
  unfolding history_def
proof (rule foldl_invariant [where I = balanced_account])
  show "balanced_account (account_new p)" using assms(2) by (simp add: balanced_account_def account_new_def)
  show "balanced_account (account_event lib a e)" if "balanced_account a" for a e
    using that assms(1)
    by (cases e) (simp_all add: balanced_produce balanced_report, simp add: balanced_account_def)
qed

section \<open>Property\<close>

text \<open>C9: No accepted message of the Pulsar producer disappears, when the library gives no timeout to a
  callback that it runs before \<open>sendAsync\<close> returns. After any history of calls of \<open>produce\<close> and \<open>uninit\<close> and of
  reported results, the messages for which \<open>produce\<close> returned true are, each with its payload and key and
  as often as it was accepted, exactly those that the library still holds, those that it confirmed by its
  answer to \<open>sendAsync\<close> or by a report, and those for which its last answer or report is a failure. So a message
  that the library refused at once is never reported as sent; and when the last result is a timeout, no
  retry was left.\<close>

theorem pulsar_producer_loses_nothing:
  assumes "prompt_law lib" and "outstanding p = []" and "a = history lib events p"
  shows "mset (accepted_sends a) =
       image_mset message_of (mset (outstanding (acc_producer a))) + mset (confirmed a) +
       image_mset (message_of \<circ> fst) (mset (given_up a)) \<and>
     (\<forall>cb. (cb, ResultOk) \<notin> set (given_up a)) \<and>
     (\<forall>cb. (cb, ResultTimeout) \<in> set (given_up a) \<longrightarrow> max_retry_count cb \<le> retry_count cb)"
  using balanced_history [OF assms(1,2), of events]
  unfolding assms(3) [symmetric] balanced_account_def by auto

definition demo_history :: producer_account where
  "demo_history = history quiet_pulsar
     [Producing ''a'' 1 ''k'', Producing ''b'' 1 [], Reporting 1 ResultTimeout, Reporting 0 ResultOk]
     (pulsar_producer_new\<lparr>prod_client := True, prod_config := Some producer_config_default\<rparr>)"

theorem pulsar_producer_loses_nothing_witness:
  "mset [(''a'', ''k''), (''b'', [])] =
     image_mset message_of (mset (outstanding (acc_producer demo_history))) + mset (confirmed demo_history) +
     image_mset (message_of \<circ> fst) (mset (given_up demo_history))"
proof -
  have l: "prompt_law quiet_pulsar" by (simp add: prompt_law_def quiet_pulsar_def)
  have "accepted_sends demo_history = [(''a'', ''k''), (''b'', [])]"
    by (simp add: demo_history_def history_def account_new_def account_produce_def account_report_def
        pulsar_produce_def pulsar_sendAsync_def the_producer_conf_def producer_config_default_def
        pulsar_producer_new_def quiet_pulsar_def send_once_def Let_def pl_emit_def numeral_eq_Suc
        split: option.split)
  with pulsar_producer_loses_nothing [OF l _ demo_history_def] show ?thesis
    by (simp add: pulsar_producer_new_def)
qed

end
