(* ===== verification/Qbus_Facade.thy ===== *)
theory Qbus_Facade
  imports Kafka_Consumer Kafka_Producer Pulsar_Consumer Pulsar_Producer
begin

text \<open>
  The classes that the applications use, \<open>QbusConsumer\<close> and \<open>QbusProducer\<close> (qbus_consumer.cc,
  qbus_producer.cc), and the choice of the implementation by \<open>mq.type\<close> (mq_type.h). An object holds
  a pointer to its implementation, NULL until the first \<open>init\<close>; the virtual calls are the case
  distinctions over the datatype of implementations. \<open>env\<close> collects what is outside: the
  libraries, the build variant (\<open>env_callback\<close>: \<open>NOT_USE_CONSUMER_CALLBACK\<close> is not defined) and the
  process's logger. The producers of the PHP build live in two process-wide maps, the record
  \<open>process\<close>. The data given to \<open>produce\<close> is not NULL.
\<close>

record 't env =
  env_pt :: "'t ptree_lib"
  env_rk :: rk_lib
  env_pl :: pulsar_lib
  env_callback :: bool
  env_logger :: logger_state

section \<open>The type of the message queue\<close>

datatype mq_type = KAFKA | PULSAR

definition mqType :: "'t ptree_lib \<Rightarrow> string \<Rightarrow> exn + mq_type" where
  "mqType pt config_path =
     (case pt_read_ini pt config_path of
        Inl what \<Rightarrow> Inl (RuntimeError (''Failed to parse '' @ config_path @ '': '' @ what))
      | Inr root \<Rightarrow>
          (case pt_find pt root ''mq.type'' of
             None \<Rightarrow> Inr KAFKA
           | Some t \<Rightarrow>
               (let mq_type = lowercase (pt_data pt t) in
                if mq_type = ''kafka'' then Inr KAFKA
                else if mq_type = ''pulsar'' then Inr PULSAR
                else Inl (RuntimeError (''Unsupported mq.type: '' @ mq_type)))))"

section \<open>QbusConsumer\<close>

record qbus_info =
  qi_topic :: string
  qi_msg :: string
  qi_msg_len :: nat
  qi_rd_message :: "rk_message option"     \<comment> \<open>kafka only\<close>
  qi_msg_id :: string                      \<comment> \<open>pulsar only\<close>

definition info_of_kafka :: "msg_content_info \<Rightarrow> qbus_info" where
  "info_of_kafka i = \<lparr>qi_topic = info_topic i, qi_msg = info_msg i, qi_msg_len = info_msg_len i,
     qi_rd_message = info_rd_message i, qi_msg_id = []\<rparr>"

definition info_of_pulsar :: "pulsar_info \<Rightarrow> qbus_info" where
  "info_of_pulsar i = \<lparr>qi_topic = pi_topic i, qi_msg = pi_msg i, qi_msg_len = pi_msg_len i,
     qi_rd_message = None, qi_msg_id = pi_msg_id i\<rparr>"

definition pulsar_info_of :: "qbus_info \<Rightarrow> pulsar_info" where
  "pulsar_info_of i = \<lparr>pi_topic = qi_topic i, pi_msg = qi_msg i, pi_msg_len = qi_msg_len i,
     pi_msg_id = qi_msg_id i\<rparr>"

datatype consumer_imp =
    KafkaConsumer kafka_consumer | PulsarConsumer pulsar_consumer | PulsarPhpConsumer pulsar_consumer

type_synonym qbus_consumer = "consumer_imp option"

definition new_consumer_imp :: "'t env \<Rightarrow> mq_type \<Rightarrow> consumer_imp" where
  "new_consumer_imp env t =
     (case t of
        KAFKA \<Rightarrow> KafkaConsumer None
      | PULSAR \<Rightarrow> (if \<not> env_callback env then PulsarPhpConsumer pulsar_consumer_new
                  else PulsarConsumer pulsar_consumer_new))"

definition imp_init ::
  "'t env \<Rightarrow> string \<Rightarrow> string \<Rightarrow> string \<Rightarrow> consumer_imp \<Rightarrow> (exn + bool) \<times> consumer_imp" where
  "imp_init env cluster log_path config_path imp =
     (case imp of
        KafkaConsumer k \<Rightarrow>
          (let (rt, k) = KConsumer_init (env_pt env) (env_rk env) (env_logger env) cluster log_path
                           config_path k
           in (Inr rt, KafkaConsumer k))
      | PulsarConsumer p \<Rightarrow>
          (let (rt, p) = pulsar_init (env_pt env) cluster log_path config_path p
           in (rt, PulsarConsumer p))
      | PulsarPhpConsumer p \<Rightarrow>
          (let (rt, p) = php_init (env_pt env) cluster log_path config_path p
           in (rt, PulsarPhpConsumer p)))"

definition QbusConsumer_init ::
  "'t env \<Rightarrow> string \<Rightarrow> string \<Rightarrow> string \<Rightarrow> qbus_consumer \<Rightarrow> (exn + bool) \<times> qbus_consumer" where
  "QbusConsumer_init env cluster log_path config_path q =
     (case (case q of
              Some imp \<Rightarrow> Inr imp
            | None \<Rightarrow> (case mqType (env_pt env) config_path of
                         Inl e \<Rightarrow> Inl e
                       | Inr t \<Rightarrow> Inr (new_consumer_imp env t))) of
        Inl e \<Rightarrow> (Inl e, q)
      | Inr imp \<Rightarrow> (let (rt, imp) = imp_init env cluster log_path config_path imp in (rt, Some imp)))"

text \<open>The test for NULL that every other member function begins with.\<close>

definition with_imp ::
  "(consumer_imp \<Rightarrow> (exn + 'a) \<times> consumer_imp) \<Rightarrow> qbus_consumer \<Rightarrow> (exn + 'a) \<times> qbus_consumer" where
  "with_imp f q =
     (case q of
        None \<Rightarrow> (Inl (RuntimeError ''QbusConsumer not initialized''), None)
      | Some imp \<Rightarrow> (let (r, imp) = f imp in (r, Some imp)))"

definition imp_subscribe ::
  "'t env \<Rightarrow> string \<Rightarrow> string list \<Rightarrow> consumer_imp \<Rightarrow> (exn + bool) \<times> consumer_imp" where
  "imp_subscribe env grp topics imp =
     (case imp of
        KafkaConsumer k \<Rightarrow>
          (let (rt, k) = KConsumer_subscribe (env_rk env) grp topics k in (Inr rt, KafkaConsumer k))
      | PulsarConsumer p \<Rightarrow>
          (let (rt, p) = pulsar_subscribe (env_pl env) grp topics p in (Inr rt, PulsarConsumer p))
      | PulsarPhpConsumer p \<Rightarrow>
          (let (rt, p) = php_subscribe (env_pl env) grp topics p in (Inr rt, PulsarPhpConsumer p)))"

definition imp_subscribeOne ::
  "'t env \<Rightarrow> string \<Rightarrow> string \<Rightarrow> consumer_imp \<Rightarrow> (exn + bool) \<times> consumer_imp" where
  "imp_subscribeOne env grp topic imp =
     (case imp of
        KafkaConsumer k \<Rightarrow>
          (let (rt, k) = KConsumer_subscribeOne (env_rk env) grp topic k in (Inr rt, KafkaConsumer k))
      | PulsarConsumer p \<Rightarrow>
          (let (rt, p) = pulsar_subscribeOne (env_pl env) grp topic p in (Inr rt, PulsarConsumer p))
      | PulsarPhpConsumer p \<Rightarrow>
          (let (rt, p) = php_subscribeOne (env_pl env) grp topic p in (Inr rt, PulsarPhpConsumer p)))"

definition imp_start :: "'t env \<Rightarrow> consumer_imp \<Rightarrow> (exn + bool) \<times> consumer_imp" where
  "imp_start env imp =
     (case imp of
        KafkaConsumer k \<Rightarrow>
          (let (rt, k) = KConsumer_start (env_callback env) (env_rk env) k in (Inr rt, KafkaConsumer k))
      | PulsarConsumer p \<Rightarrow> (let (rt, p) = pulsar_start (env_pl env) p in (Inr rt, PulsarConsumer p))
      | PulsarPhpConsumer p \<Rightarrow> (let (rt, p) = php_start (env_pl env) p in (Inr rt, PulsarPhpConsumer p)))"

definition imp_stop :: "'t env \<Rightarrow> consumer_imp \<Rightarrow> (exn + unit) \<times> consumer_imp" where
  "imp_stop env imp =
     (Inr (), case imp of
        KafkaConsumer k \<Rightarrow> KafkaConsumer (KConsumer_stop (env_callback env) (env_rk env) k)
      | PulsarConsumer p \<Rightarrow> PulsarConsumer (pulsar_stop (env_pl env) p)
      | PulsarPhpConsumer p \<Rightarrow> PulsarPhpConsumer (php_stop p))"

definition imp_pause :: "'t env \<Rightarrow> string list \<Rightarrow> consumer_imp \<Rightarrow> (exn + bool) \<times> consumer_imp" where
  "imp_pause env topics imp =
     (case imp of
        KafkaConsumer k \<Rightarrow>
          (let (rt, k) = KConsumer_pause (env_rk env) topics k in (Inr rt, KafkaConsumer k))
      | PulsarConsumer p \<Rightarrow> (let (rt, p) = pulsar_pause topics p in (Inr rt, PulsarConsumer p))
      | PulsarPhpConsumer p \<Rightarrow> (let (rt, p) = php_pause topics p in (rt, PulsarPhpConsumer p)))"

definition imp_resume :: "'t env \<Rightarrow> string list \<Rightarrow> consumer_imp \<Rightarrow> (exn + bool) \<times> consumer_imp" where
  "imp_resume env topics imp =
     (case imp of
        KafkaConsumer k \<Rightarrow>
          (let (rt, k) = KConsumer_resume (env_rk env) topics k in (Inr rt, KafkaConsumer k))
      | PulsarConsumer p \<Rightarrow> (let (rt, p) = pulsar_resume topics p in (Inr rt, PulsarConsumer p))
      | PulsarPhpConsumer p \<Rightarrow> (let (rt, p) = php_resume topics p in (rt, PulsarPhpConsumer p)))"

definition imp_consume ::
  "'t env \<Rightarrow> consumer_imp \<Rightarrow> (exn + (bool \<times> qbus_info option)) \<times> consumer_imp" where
  "imp_consume env imp =
     (case imp of
        KafkaConsumer k \<Rightarrow>
          (let (rt, info, k) = KConsumer_consume (env_callback env) (env_rk env) k
           in (Inr (rt, map_option info_of_kafka info), KafkaConsumer k))
      | PulsarConsumer p \<Rightarrow>
          (let (rt, info, p) = pulsar_consume p
           in (Inr (rt, map_option info_of_pulsar info), PulsarConsumer p))
      | PulsarPhpConsumer p \<Rightarrow>
          (let (rt, info, p) = php_consume (env_pl env) p
           in (Inr (rt, map_option info_of_pulsar info), PulsarPhpConsumer p)))"

definition imp_commitOffset :: "'t env \<Rightarrow> qbus_info \<Rightarrow> consumer_imp \<Rightarrow> (exn + unit) \<times> consumer_imp" where
  "imp_commitOffset env info imp =
     (Inr (), case imp of
        KafkaConsumer k \<Rightarrow> KafkaConsumer (KConsumer_commitOffset (qi_rd_message info) k)
      | PulsarConsumer p \<Rightarrow> PulsarConsumer (pulsar_commitOffset (env_pl env) (pulsar_info_of info) p)
      | PulsarPhpConsumer p \<Rightarrow>
          PulsarPhpConsumer (php_commitOffset (env_pl env) (pulsar_info_of info) p))"

definition QbusConsumer_subscribe where
  "QbusConsumer_subscribe env grp topics = with_imp (imp_subscribe env grp topics)"

definition QbusConsumer_subscribeOne where
  "QbusConsumer_subscribeOne env grp topic = with_imp (imp_subscribeOne env grp topic)"

definition QbusConsumer_start where "QbusConsumer_start env = with_imp (imp_start env)"

definition QbusConsumer_stop where "QbusConsumer_stop env = with_imp (imp_stop env)"

definition QbusConsumer_pause where "QbusConsumer_pause env topics = with_imp (imp_pause env topics)"

definition QbusConsumer_resume where "QbusConsumer_resume env topics = with_imp (imp_resume env topics)"

definition QbusConsumer_consume where "QbusConsumer_consume env = with_imp (imp_consume env)"

definition QbusConsumer_commitOffset where
  "QbusConsumer_commitOffset env info = with_imp (imp_commitOffset env info)"

text \<open>The destructor; the destructor of the Kafka implementation does nothing.\<close>

definition QbusConsumer_destroy :: "'t env \<Rightarrow> qbus_consumer \<Rightarrow> qbus_consumer" where
  "QbusConsumer_destroy env q =
     (case q of
        Some (PulsarConsumer p) \<Rightarrow> Some (PulsarConsumer (pulsar_destroy (env_pl env) p))
      | Some (PulsarPhpConsumer p) \<Rightarrow> Some (PulsarPhpConsumer (pulsar_destroy (env_pl env) p))
      | _ \<Rightarrow> q)"

section \<open>QbusProducer\<close>

datatype producer_imp =
    KafkaProducer producer | KafkaPhpProducer imp_pointer
  | PulsarProducer pulsar_producer | PulsarPhpProducer "string option"

type_synonym qbus_producer = "producer_imp option"

record process =
  proc_kafka :: producer_world
  proc_pulsar :: producer_map

definition new_producer_imp :: "'t env \<Rightarrow> mq_type \<Rightarrow> producer_imp" where
  "new_producer_imp env t =
     (case t of
        KAFKA \<Rightarrow> (if \<not> env_callback env then KafkaPhpProducer PhpProducer_new
                 else KafkaProducer (producer_new (env_logger env)))
      | PULSAR \<Rightarrow> (if \<not> env_callback env then PulsarPhpProducer None
                  else PulsarProducer pulsar_producer_new))"

definition imp_producer_init ::
  "'t env \<Rightarrow> string \<Rightarrow> string \<Rightarrow> string \<Rightarrow> string \<Rightarrow> producer_imp \<Rightarrow> process \<Rightarrow>
     (exn + bool) \<times> producer_imp \<times> process" where
  "imp_producer_init env cluster log_path config_path topic imp w =
     (case imp of
        KafkaProducer p \<Rightarrow>
          (let (rt, p) = KProducer_init (env_pt env) (env_rk env) cluster log_path config_path topic p
           in (Inr rt, KafkaProducer p, w))
      | KafkaPhpProducer ptr \<Rightarrow>
          (let (rt, ptr, k) = PhpProducer_init (env_pt env) (env_rk env) cluster log_path config_path
                                topic ptr (proc_kafka w)
           in (Inr rt, KafkaPhpProducer ptr, w\<lparr>proc_kafka := k\<rparr>))
      | PulsarProducer p \<Rightarrow>
          (let (rt, p) = pulsar_producer_init (env_pt env) (env_pl env) cluster log_path config_path
                           topic p
           in (rt, PulsarProducer p, w))
      | PulsarPhpProducer me \<Rightarrow>
          (let (rt, me, m) = pulsar_php_init (env_pt env) (env_pl env) cluster log_path config_path
                               topic me (proc_pulsar w)
           in (rt, PulsarPhpProducer me, w\<lparr>proc_pulsar := m\<rparr>)))"

definition QbusProducer_init ::
  "'t env \<Rightarrow> string \<Rightarrow> string \<Rightarrow> string \<Rightarrow> string \<Rightarrow> qbus_producer \<Rightarrow> process \<Rightarrow>
     (exn + bool) \<times> qbus_producer \<times> process" where
  "QbusProducer_init env cluster log_path config_path topic q w =
     (case (case q of
              Some imp \<Rightarrow> Inr imp
            | None \<Rightarrow> (case mqType (env_pt env) config_path of
                         Inl e \<Rightarrow> Inl e
                       | Inr t \<Rightarrow> Inr (new_producer_imp env t))) of
        Inl e \<Rightarrow> (Inl e, q, w)
      | Inr imp \<Rightarrow>
          (let (rt, imp, w) = imp_producer_init env cluster log_path config_path topic imp w
           in (rt, Some imp, w)))"

definition QbusProducer_uninit :: "'t env \<Rightarrow> qbus_producer \<Rightarrow> process \<Rightarrow> qbus_producer \<times> process" where
  "QbusProducer_uninit env q w =
     (case q of
        None \<Rightarrow> (None, w)
      | Some (KafkaProducer p) \<Rightarrow> (Some (KafkaProducer (KProducer_uninit (env_rk env) p)), w)
      | Some (KafkaPhpProducer ptr) \<Rightarrow> (q, w\<lparr>proc_kafka := PhpProducer_uninit (proc_kafka w)\<rparr>)
      | Some (PulsarProducer p) \<Rightarrow> (Some (PulsarProducer (pulsar_producer_uninit (env_pl env) p)), w)
      | Some (PulsarPhpProducer me) \<Rightarrow> (q, w\<lparr>proc_pulsar := pulsar_php_uninit (proc_pulsar w)\<rparr>))"

text \<open>\<open>None\<close> is undefined behaviour of the Kafka PHP producer (see Kafka_Producer).\<close>

definition QbusProducer_produce ::
  "'t env \<Rightarrow> string \<Rightarrow> nat \<Rightarrow> string \<Rightarrow> qbus_producer \<Rightarrow> process \<Rightarrow>
     ((exn + bool) \<times> qbus_producer \<times> process) option" where
  "QbusProducer_produce env data data_len key q w =
     (case q of
        None \<Rightarrow> Some (Inl (RuntimeError ''QbusProducer not initialized''), None, w)
      | Some (KafkaProducer p) \<Rightarrow>
          (let (rt, p) = KProducer_produce (env_rk env) (Some (take data_len data)) key p
           in Some (Inr rt, Some (KafkaProducer p), w))
      | Some (KafkaPhpProducer ptr) \<Rightarrow>
          (case PhpProducer_produce (env_rk env) (Some (take data_len data)) key ptr (proc_kafka w) of
             None \<Rightarrow> None
           | Some (rt, k) \<Rightarrow> Some (Inr rt, q, w\<lparr>proc_kafka := k\<rparr>))
      | Some (PulsarProducer p) \<Rightarrow>
          (let (rt, p) = pulsar_produce (env_pl env) data data_len key p
           in Some (Inr rt, Some (PulsarProducer p), w))
      | Some (PulsarPhpProducer me) \<Rightarrow>
          (let (rt, m) = pulsar_php_produce (env_pl env) data data_len key me (proc_pulsar w)
           in Some (Inr rt, q, w\<lparr>proc_pulsar := m\<rparr>)))"

end
