(* ===== verification/Qbus_Facade_Props.thy ===== *)
theory Qbus_Facade_Props
  imports Qbus_Facade Kafka_Consumer_Props Kafka_Producer_Props Pulsar_Newest Pulsar_Producer_Props
begin

text \<open>
  Properties of the facade: the choice of the implementation, the errors of an object that is not
  initialised, and what all implementations have in common, through the interpretations of the
  locales of Qbus_Interface.
\<close>

section \<open>Choosing the implementation\<close>

fun consumer_kind :: "consumer_imp \<Rightarrow> mq_type" where
  "consumer_kind (KafkaConsumer k) = KAFKA"
| "consumer_kind (PulsarConsumer p) = PULSAR"
| "consumer_kind (PulsarPhpConsumer p) = PULSAR"

lemma consumer_kind_init: "consumer_kind (snd (imp_init env cl lp cp imp)) = consumer_kind imp"
  by (simp add: imp_init_def case_prod_unfold Let_def split: consumer_imp.split)

lemma consumer_kind_new: "consumer_kind (new_consumer_imp env t) = t"
  by (cases t) (simp_all add: new_consumer_imp_def)

lemma init_existing:
  "QbusConsumer_init env cl lp cp (Some imp) =
     (fst (imp_init env cl lp cp imp), Some (snd (imp_init env cl lp cp imp)))"
  by (simp add: QbusConsumer_init_def case_prod_unfold Let_def)

text \<open>\<open>mq.type\<close> counts when an object is first initialised, without regard to case, with Kafka as the
  default; a file that cannot be read or another type makes \<open>init\<close> throw and leaves the object as it
  was. From then on the implementation stays, whatever later \<open>init\<close> calls return and whatever type
  their configuration file names, even if it cannot be read.\<close>

theorem first_init_binds:
  "(case mqType (env_pt env) cp of
      Inl e \<Rightarrow> QbusConsumer_init env cl lp cp None = (Inl e, None)
    | Inr t \<Rightarrow>
        (\<exists>imp. snd (QbusConsumer_init env cl lp cp None) = Some imp \<and> consumer_kind imp = t \<and>
          (\<forall>(env' :: 't env) cl' lp' cp'.
             \<exists>imp'. snd (QbusConsumer_init env' cl' lp' cp' (Some imp)) = Some imp' \<and>
               consumer_kind imp' = t))) \<and>
   (mqType (env_pt env) cp = Inr PULSAR \<longleftrightarrow>
     (\<exists>root t. pt_read_ini (env_pt env) cp = Inr root \<and> pt_find (env_pt env) root ''mq.type'' = Some t \<and>
        lowercase (pt_data (env_pt env) t) = ''pulsar''))"
proof
  show "case mqType (env_pt env) cp of
      Inl e \<Rightarrow> QbusConsumer_init env cl lp cp None = (Inl e, None)
    | Inr t \<Rightarrow>
        (\<exists>imp. snd (QbusConsumer_init env cl lp cp None) = Some imp \<and> consumer_kind imp = t \<and>
          (\<forall>(env' :: 't env) cl' lp' cp'.
             \<exists>imp'. snd (QbusConsumer_init env' cl' lp' cp' (Some imp)) = Some imp' \<and>
               consumer_kind imp' = t))"
    by (cases "mqType (env_pt env) cp")
       (simp_all add: init_existing consumer_kind_init consumer_kind_new QbusConsumer_init_def
          case_prod_unfold Let_def)
  show "mqType (env_pt env) cp = Inr PULSAR \<longleftrightarrow>
     (\<exists>root t. pt_read_ini (env_pt env) cp = Inr root \<and> pt_find (env_pt env) root ''mq.type'' = Some t \<and>
        lowercase (pt_data (env_pt env) t) = ''pulsar'')"
    by (auto simp: mqType_def Let_def split: sum.splits option.splits)
qed

text \<open>Every operation of a consumer that has no implementation throws, and \<open>produce\<close> of such a producer
  too, with a message that names the class; \<open>uninit\<close> does nothing. Nothing is created by it.\<close>

theorem not_initialized_throws:
  "QbusConsumer_subscribe env grp topics None = (Inl (RuntimeError ''QbusConsumer not initialized''), None) \<and>
   QbusConsumer_subscribeOne env grp topic None = (Inl (RuntimeError ''QbusConsumer not initialized''), None) \<and>
   QbusConsumer_start env None = (Inl (RuntimeError ''QbusConsumer not initialized''), None) \<and>
   QbusConsumer_stop env None = (Inl (RuntimeError ''QbusConsumer not initialized''), None) \<and>
   QbusConsumer_pause env topics None = (Inl (RuntimeError ''QbusConsumer not initialized''), None) \<and>
   QbusConsumer_resume env topics None = (Inl (RuntimeError ''QbusConsumer not initialized''), None) \<and>
   QbusConsumer_consume env None = (Inl (RuntimeError ''QbusConsumer not initialized''), None) \<and>
   QbusConsumer_commitOffset env info None = (Inl (RuntimeError ''QbusConsumer not initialized''), None) \<and>
   QbusProducer_produce env data len key None w =
     Some (Inl (RuntimeError ''QbusProducer not initialized''), None, w) \<and>
   QbusProducer_uninit env None w = (None, w)"
  by (simp add: QbusConsumer_subscribe_def QbusConsumer_subscribeOne_def QbusConsumer_start_def
      QbusConsumer_stop_def QbusConsumer_pause_def QbusConsumer_resume_def QbusConsumer_consume_def
      QbusConsumer_commitOffset_def QbusProducer_produce_def QbusProducer_uninit_def with_imp_def)

section \<open>Stopped consumers\<close>

text \<open>A control call on the facade, and a sequence of them; what they return is not used.\<close>

fun facade_control :: "'t env \<Rightarrow> control \<Rightarrow> qbus_consumer \<Rightarrow> qbus_consumer" where
  "facade_control env Start q = snd (QbusConsumer_start env q)"
| "facade_control env Stop q = snd (QbusConsumer_stop env q)"
| "facade_control env (Pause ts) q = snd (QbusConsumer_pause env ts q)"
| "facade_control env (Resume ts) q = snd (QbusConsumer_resume env ts q)"

definition facade_controls :: "'t env \<Rightarrow> control list \<Rightarrow> qbus_consumer \<Rightarrow> qbus_consumer" where
  "facade_controls env xs q = foldl (\<lambda>q x. facade_control env x q) q xs"

lemmas facade_op_defs = QbusConsumer_start_def QbusConsumer_stop_def QbusConsumer_pause_def
  QbusConsumer_resume_def with_imp_def imp_start_def imp_stop_def imp_pause_def imp_resume_def
  case_prod_unfold Let_def

text \<open>The facade's control calls are those of the implementation.\<close>

lemma facade_control_imp:
  "facade_control env x (Some (KafkaConsumer k)) =
     Some (KafkaConsumer (snd (control_step (kafka_control (env_callback env) (env_rk env)) x k)))"
  "facade_control env x (Some (PulsarConsumer p)) =
     Some (PulsarConsumer (snd (control_step (pulsar_control (env_pl env)) x p)))"
  "facade_control env x (Some (PulsarPhpConsumer p)) =
     Some (PulsarPhpConsumer (snd (control_step (php_control (env_pl env)) x p)))"
  by (cases x; simp add: facade_op_defs kafka_control_def pulsar_control_def php_control_def)+

lemma facade_controls_imp:
  "facade_controls env xs (Some (KafkaConsumer k)) =
     Some (KafkaConsumer (controls (kafka_control (env_callback env) (env_rk env)) xs k))"
  "facade_controls env xs (Some (PulsarConsumer p)) =
     Some (PulsarConsumer (controls (pulsar_control (env_pl env)) xs p))"
  "facade_controls env xs (Some (PulsarPhpConsumer p)) =
     Some (PulsarPhpConsumer (controls (php_control (env_pl env)) xs p))"
  unfolding facade_controls_def
  by (induction xs arbitrary: k p) (simp_all add: facade_control_imp)

definition consumer_ok :: "qbus_consumer \<Rightarrow> bool" where
  "consumer_ok q =
     (case q of Some (PulsarConsumer p) \<Rightarrow> runs_initialised p
      | Some (PulsarPhpConsumer p) \<Rightarrow> runs_initialised p | _ \<Rightarrow> True)"

definition consumer_running :: "qbus_consumer \<Rightarrow> bool" where
  "consumer_running q =
     (case q of
        None \<Rightarrow> False
      | Some (KafkaConsumer k) \<Rightarrow> kafka_running k
      | Some (PulsarConsumer p) \<Rightarrow> running p
      | Some (PulsarPhpConsumer p) \<Rightarrow> running p)"

lemma facade_controls_None: "facade_controls env xs None = None"
proof -
  have "facade_control env x None = None" for x by (cases x) (simp_all add: facade_op_defs)
  then show ?thesis unfolding facade_controls_def by (induction xs) simp_all
qed

lemma stopped_consumer:
  assumes "consumer_ok q" and "Start \<notin> set xs"
    and "q' = facade_controls env xs (snd (QbusConsumer_stop env q))"
  shows "\<not> consumer_running q' \<and> \<not> accepted (fst (QbusConsumer_pause env ts q')) \<and>
     \<not> accepted (fst (QbusConsumer_resume env ts q'))"
proof (cases q)
  case None
  then have "q' = None" using assms(3) by (simp add: facade_controls_None facade_op_defs)
  then show ?thesis by (simp add: consumer_running_def accepted_def facade_op_defs)
next
  case (Some imp)
  have s: "q' = facade_controls env xs (facade_control env Stop (Some imp))"
    using assms(3) Some by simp
  show ?thesis
  proof (cases imp)
    case (KafkaConsumer c)
    let ?ops = "kafka_control (env_callback env) (env_rk env)"
    let ?c = "controls ?ops xs (op_stop ?ops c)"
    have q': "q' = Some (KafkaConsumer ?c)"
      using s by (simp only: KafkaConsumer facade_control_imp facade_controls_imp control_step.simps snd_conv)
    have "\<not> kafka_running ?c"
      using kafka_consumer_imp.stopped_stays_stopped [OF TrueI _ assms(2)]
        kafka_consumer_imp.stop_stops [OF TrueI] by blast
    then show ?thesis
      using kafka_consumer_imp.stopped_refuses [OF TrueI assms(2), of "env_callback env" "env_rk env" ts c]
      by (simp add: q' consumer_running_def facade_op_defs accepted_def) (simp add: kafka_control_def)
  next
    case (PulsarConsumer c)
    let ?ops = "pulsar_control (env_pl env)"
    let ?c = "controls ?ops xs (op_stop ?ops c)"
    have q': "q' = Some (PulsarConsumer ?c)"
      using s by (simp only: PulsarConsumer facade_control_imp facade_controls_imp control_step.simps snd_conv)
    have "runs_initialised c" using assms(1) by (simp add: Some PulsarConsumer consumer_ok_def)
    then have "\<not> running ?c"
      using pulsar_consumer_imp.stopped_stays_stopped [OF pulsar_consumer_imp.ok_stop _ assms(2)]
        pulsar_consumer_imp.stop_stops by blast
    then show ?thesis
      by (simp add: q' consumer_running_def facade_op_defs accepted_def pulsar_pause_def pulsar_resume_def)
  next
    case (PulsarPhpConsumer c)
    let ?ops = "php_control (env_pl env)"
    let ?c = "controls ?ops xs (op_stop ?ops c)"
    have q': "q' = Some (PulsarPhpConsumer ?c)"
      using s by (simp only: PulsarPhpConsumer facade_control_imp facade_controls_imp control_step.simps snd_conv)
    have "runs_initialised c" using assms(1) by (simp add: Some PulsarPhpConsumer consumer_ok_def)
    then have "\<not> running ?c"
      using php_consumer_imp.stopped_stays_stopped [OF php_consumer_imp.ok_stop _ assms(2)]
        php_consumer_imp.stop_stops by blast
    then show ?thesis
      by (simp add: q' consumer_running_def facade_op_defs accepted_def php_pause_def php_resume_def)
  qed
qed

text \<open>Everything that may happen to a consumer before its destructor: a call of any member function, or an
  iteration of the thread that an earlier \<open>start\<close> made. Whether the flag is set does not matter for the
  iteration: \<open>stop\<close> with \<open>force.stop\<close> may leave the loop of Pulsar in one.\<close>

datatype facade_event =
    CallInit string string string | CallSubscribe string "string list" | CallSubscribeOne string string
  | CallControl control | CallConsume | CallCommit qbus_info
  | LoopIteration "consumer \<Rightarrow> rk_message list" "pulsar_consumer \<Rightarrow> pulsar_info list"

fun facade_does :: "'t env \<Rightarrow> facade_event \<Rightarrow> qbus_consumer \<Rightarrow> qbus_consumer" where
  "facade_does env (CallInit cluster log_path config_path) q =
     snd (QbusConsumer_init env cluster log_path config_path q)"
| "facade_does env (CallSubscribe grp topics) q = snd (QbusConsumer_subscribe env grp topics q)"
| "facade_does env (CallSubscribeOne grp topic) q = snd (QbusConsumer_subscribeOne env grp topic q)"
| "facade_does env (CallControl x) q = facade_control env x q"
| "facade_does env CallConsume q = snd (QbusConsumer_consume env q)"
| "facade_does env (CallCommit info) q = snd (QbusConsumer_commitOffset env info q)"
| "facade_does env (LoopIteration user puser) q =
     (case q of
        Some (KafkaConsumer (Some c)) \<Rightarrow> Some (KafkaConsumer (Some (poll_body (env_rk env) user c)))
      | Some (PulsarConsumer p) \<Rightarrow> Some (PulsarConsumer (consume_body (env_pl env) puser p))
      | _ \<Rightarrow> q)"

definition facade_events :: "'t env \<Rightarrow> facade_event list \<Rightarrow> qbus_consumer \<Rightarrow> qbus_consumer" where
  "facade_events env xs q = foldl (\<lambda>q x. facade_does env x q) q xs"

lemma kafka_calls_flag:
  "\<not> kafka_running (snd (KConsumer_init pt lib lg cl lp cp k))"
  "kafka_running (snd (KConsumer_subscribe lib grp ts k)) = kafka_running k"
  "kafka_running (snd (snd (KConsumer_consume cb lib k))) = kafka_running k"
  "kafka_running (KConsumer_commitOffset mo k) = kafka_running k"
proof -
  have "start_flag (snd (consumer_init pt lib lp cp (consumer_new real lg))) = start_flag (consumer_new real lg)"
    for real by (rule consumer_init_flags(2)) (rule consumer_new_state(2))
  then show "\<not> kafka_running (snd (KConsumer_init pt lib lg cl lp cp k))"
    by (simp add: KConsumer_init_def kafka_running_def case_prod_unfold Let_def consumer_new_def)
  have "start_flag (snd (subscribe lib grp ts c)) = start_flag c" for c
    using subscribe_keeps(1) [of lib grp ts c] by (simp add: flags_def)
  then show "kafka_running (snd (KConsumer_subscribe lib grp ts k)) = kafka_running k"
    by (simp add: KConsumer_subscribe_def kafka_running_def case_prod_unfold Let_def split: option.split)
  show "kafka_running (snd (snd (KConsumer_consume cb lib k))) = kafka_running k"
    by (auto simp: KConsumer_consume_def kafka_running_def dest: consume_flags split: option.split prod.split)
  show "kafka_running (KConsumer_commitOffset mo k) = kafka_running k"
    by (simp add: KConsumer_commitOffset_def kafka_running_def frame_simps split: option.split)
qed

lemma pulsar_calls_flag:
  "running (snd (pulsar_init pt b lp cp c)) = running c"
  "client c \<Longrightarrow> client (snd (pulsar_init pt b lp cp c))"
  "running (snd (pulsar_subscribe lib grp ts c)) = running c \<and> client (snd (pulsar_subscribe lib grp ts c)) = client c"
  "running (snd (pulsar_subscribeOne lib grp t c)) = running c \<and>
     client (snd (pulsar_subscribeOne lib grp t c)) = client c"
  "running (pulsar_commitOffset lib info c) = running c \<and> client (pulsar_commitOffset lib info c) = client c"
  by (auto simp: pulsar_init_def pulsar_init_client_def pulsar_subscribe_def pulsar_subscribeOne_def
      pulsar_commitOffset_def acknowledge_def pl_emit_def Let_def split: sum.split)

lemma php_consume_flag:
  "running (snd (snd (php_consume lib c))) = running c \<and> client (snd (snd (php_consume lib c))) = client c"
  using consume_msg_conf [of lib c]
  by (auto simp: php_consume_def Let_def split: prod.split)

lemmas flag_simps = kafka_calls_flag pulsar_calls_flag php_consume_flag consume_body_frame

lemmas imp_defs = imp_subscribe_def imp_subscribeOne_def imp_consume_def imp_commitOffset_def
  KConsumer_subscribeOne_def pulsar_consume_def case_prod_unfold Let_def

text \<open>Any event but \<open>start\<close> leaves a consumer that does not run so.\<close>

lemma facade_control_ok: "consumer_ok q \<Longrightarrow> consumer_ok (facade_control env x q)"
  using pulsar_consumer_imp.ok_control_step php_consumer_imp.ok_control_step facade_controls_None [of env "[x]"]
  by (auto simp: consumer_ok_def facade_control_imp facade_controls_def split: option.splits consumer_imp.splits)

lemma facade_control_idle:
  assumes "consumer_ok q" and "\<not> consumer_running q" and "x \<noteq> Start"
  shows "\<not> consumer_running (facade_control env x q)"
proof (cases q)
  case None
  then show ?thesis using facade_controls_None [of env "[x]"] by (simp add: facade_controls_def consumer_running_def)
next
  case (Some imp)
  have x: "Start \<notin> set [x]" using assms(3) by simp
  show ?thesis
    using assms(1,2) Some kafka_consumer_imp.stopped_stays_stopped [OF TrueI _ x]
      pulsar_consumer_imp.stopped_stays_stopped [OF _ _ x] php_consumer_imp.stopped_stays_stopped [OF _ _ x]
    by (cases imp) (auto simp: consumer_ok_def consumer_running_def facade_control_imp)
qed

text \<open>What an operation on the implementation keeps, the operation of the facade keeps.\<close>

definition stays :: "qbus_consumer \<Rightarrow> qbus_consumer \<Rightarrow> bool" where
  "stays q q' \<longleftrightarrow> (consumer_ok q \<longrightarrow> consumer_ok q') \<and>
     (consumer_ok q \<and> \<not> consumer_running q \<longrightarrow> \<not> consumer_running q')"

lemma stays_with_imp: "(\<And>imp. stays (Some imp) (Some (snd (f imp)))) \<Longrightarrow> stays q (snd (with_imp f q))"
  by (cases q) (simp_all add: with_imp_def case_prod_unfold Let_def stays_def)

lemma stays_imp:
  "stays (Some imp) (Some (snd (imp_init env cl lp cp imp)))"
  "stays (Some imp) (Some (snd (imp_subscribe env grp ts imp)))"
  "stays (Some imp) (Some (snd (imp_subscribeOne env grp t imp)))"
  "stays (Some imp) (Some (snd (imp_consume env imp)))"
  "stays (Some imp) (Some (snd (imp_commitOffset env info imp)))"
  by (cases imp; auto simp: stays_def imp_init_def imp_defs flag_simps consumer_ok_def consumer_running_def
      runs_initialised_def)+

lemma stays_new: "stays None (Some (snd (imp_init env cl lp cp (new_consumer_imp env t))))"
proof -
  have "consumer_ok (Some (new_consumer_imp env t)) \<and> \<not> consumer_running (Some (new_consumer_imp env t))"
    by (simp add: new_consumer_imp_def consumer_ok_def consumer_running_def kafka_running_def
        runs_initialised_def pulsar_consumer_new_def split: mq_type.split)
  with stays_imp(1) [of "new_consumer_imp env t" env cl lp cp] show ?thesis by (simp add: stays_def)
qed

lemma stays_iteration: "stays q (facade_does env (LoopIteration user puser) q)"
  by (auto simp: stays_def consumer_ok_def consumer_running_def kafka_running_def runs_initialised_def
      flag_simps split: option.split consumer_imp.split)

lemma facade_does_stays: "x \<noteq> CallControl Start \<Longrightarrow> stays q (facade_does env x q)"
proof (cases x)
  case (CallInit cl lp cp)
  then show ?thesis
    using stays_imp(1) [of _ env] stays_new [of env]
    by (cases q) (simp_all add: QbusConsumer_init_def case_prod_unfold Let_def stays_def split: sum.split)
next
  case (CallControl y)
  then show "x \<noteq> CallControl Start \<Longrightarrow> ?thesis"
    by (simp add: stays_def facade_control_ok facade_control_idle)
next
  case (LoopIteration user puser)
  then show ?thesis using stays_iteration by blast
qed (simp_all add: stays_with_imp stays_imp QbusConsumer_subscribe_def QbusConsumer_subscribeOne_def
    QbusConsumer_consume_def QbusConsumer_commitOffset_def)

lemma facade_event_ok: "consumer_ok q \<Longrightarrow> consumer_ok (facade_does env x q)"
  using facade_does_stays [of x q env] facade_control_ok [of q env Start]
  by (cases "x = CallControl Start") (auto simp: stays_def)

lemma facade_event_idle:
  "consumer_ok q \<Longrightarrow> \<not> consumer_running q \<Longrightarrow> x \<noteq> CallControl Start \<Longrightarrow>
     \<not> consumer_running (facade_does env x q)"
  using facade_does_stays [of x q env] by (simp add: stays_def)

lemma facade_events_ok: "consumer_ok q \<Longrightarrow> consumer_ok (facade_events env xs q)"
  unfolding facade_events_def by (rule foldl_invariant [where I = consumer_ok]) (auto simp: facade_event_ok)

lemma facade_events_idle:
  "consumer_ok q \<Longrightarrow> \<not> consumer_running q \<Longrightarrow> CallControl Start \<notin> set xs \<Longrightarrow>
     \<not> consumer_running (facade_events env xs q)"
  unfolding facade_events_def
  by (induction xs arbitrary: q) (auto simp: facade_event_ok facade_event_idle)

lemma idle_refuses:
  assumes "\<not> consumer_running q"
  shows "\<not> accepted (fst (QbusConsumer_pause env ts q))" "\<not> accepted (fst (QbusConsumer_resume env ts q))"
  using assms kafka_consumer_imp.pause_needs_running [OF TrueI, of "env_callback env" "env_rk env" ts]
    kafka_consumer_imp.resume_needs_running [OF TrueI, of "env_callback env" "env_rk env" ts]
  by (auto simp: consumer_running_def facade_op_defs accepted_def kafka_control_def pulsar_pause_def
      pulsar_resume_def php_pause_def php_resume_def split: option.splits consumer_imp.splits)

text \<open>C26: Once \<open>stop\<close> was called on a consumer, whatever was called on it before, its running flag is off, and it
  stays off until the next \<open>start\<close>: through any further calls of \<open>init\<close>, \<open>subscribe\<close>, \<open>consume\<close>,
  \<open>commitOffset\<close>, \<open>pause\<close>, \<open>resume\<close> and \<open>stop\<close>, and through iterations of a loop that \<open>stop\<close> left behind
  (with \<open>force.stop\<close> the loop of Pulsar may still be in one). In all that time no \<open>pause\<close> and no \<open>resume\<close>
  succeeds: they return false or throw. This holds for each implementation.\<close>

theorem stopped_consumer_refuses:
  assumes "q = facade_events env before None" and "CallControl Start \<notin> set xs"
    and "q' = facade_events env xs (snd (QbusConsumer_stop env q))"
  shows "\<not> consumer_running q' \<and> \<not> accepted (fst (QbusConsumer_pause env ts q')) \<and>
     \<not> accepted (fst (QbusConsumer_resume env ts q'))"
proof -
  have ok: "consumer_ok q" unfolding assms(1) by (rule facade_events_ok) (simp add: consumer_ok_def)
  have s: "snd (QbusConsumer_stop env q) = facade_control env Stop q" by simp
  have "\<not> consumer_running (facade_control env Stop q)"
    using stopped_consumer [OF ok, of "[]" "facade_control env Stop q" env] by (simp add: facade_controls_def)
  then have "\<not> consumer_running q'"
    unfolding assms(3) s by (rule facade_events_idle [OF facade_control_ok [OF ok] _ assms(2)])
  with idle_refuses show ?thesis by blast
qed

definition demo_env :: "ini env" where
  "demo_env = \<lparr>env_pt = pulsar_file True, env_rk = quiet_lib, env_pl = quiet_pulsar,
     env_callback = True, env_logger = logger_start\<rparr>"

text \<open>A consumer of Kafka that is initialised, subscribed and started.\<close>

definition demo_kafka_env :: "ini env" where
  "demo_kafka_env = \<lparr>env_pt = demo_pt, env_rk = demo_lib, env_pl = quiet_pulsar,
     env_callback = True, env_logger = logger_start\<rparr>"

definition demo_facade_start :: "facade_event list" where
  "demo_facade_start = [CallInit '''' ''log'' ''conf'', CallSubscribe ''g'' [''t''], CallControl Start]"

lemma demo_facade_started:
  "facade_events demo_kafka_env demo_facade_start None = Some (KafkaConsumer (Some demo_started))"
proof -
  have "mqType demo_pt ''conf'' = Inr KAFKA" by code_simp
  then show ?thesis
    by (simp add: demo_facade_start_def facade_events_def demo_kafka_env_def QbusConsumer_init_def
        imp_init_def new_consumer_imp_def QbusConsumer_subscribe_def with_imp_def imp_defs QbusConsumer_start_def imp_start_def KConsumer_init_def
        KConsumer_subscribe_def KConsumer_start_def find_char_def demo_started_def)
qed

theorem stopped_consumer_refuses_witness:
  "consumer_running (facade_events demo_kafka_env demo_facade_start None) \<and>
   \<not> accepted (fst (QbusConsumer_pause demo_kafka_env [''t'']
     (facade_events demo_kafka_env [CallConsume, LoopIteration (\<lambda>_. []) (\<lambda>_. []), CallControl (Pause [''t''])]
       (snd (QbusConsumer_stop demo_kafka_env (facade_events demo_kafka_env demo_facade_start None))))))"
  using stopped_consumer_refuses [OF refl _ refl, of "[CallConsume, LoopIteration (\<lambda>_. []) (\<lambda>_. []),
      CallControl (Pause [''t''])]" demo_kafka_env demo_facade_start "[''t'']"] demo_started_flag
  by (simp add: demo_facade_started consumer_running_def kafka_running_def
      del: facade_does.simps)

section \<open>Initialising again\<close>

text \<open>\<open>init\<close> of a consumer that is in use: the Pulsar implementations refuse it and keep their state;
  Kafka replaces the implementation by a new one that does not depend on the old, so that a running
  consumer is abandoned with its handle open and its thread running, and \<open>stop\<close> then reaches only the
  new one.\<close>

theorem init_while_in_use:
  "(client p \<longrightarrow>
      QbusConsumer_init env cl lp cp (Some (PulsarConsumer p)) = (Inr False, Some (PulsarConsumer p)) \<and>
      QbusConsumer_init env cl lp cp (Some (PulsarPhpConsumer p)) = (Inr False, Some (PulsarPhpConsumer p))) \<and>
   QbusConsumer_init env cl lp cp (Some (KafkaConsumer k)) =
      QbusConsumer_init env cl lp cp (Some (KafkaConsumer None)) \<and>
   (\<exists>c. snd (QbusConsumer_init env cl lp cp (Some (KafkaConsumer k))) = Some (KafkaConsumer (Some c)) \<and>
      \<not> start_flag c)"
proof -
  have "\<not> start_flag (snd (consumer_init pt lib lp cp (consumer_new cn lg)))"
    for pt :: "'a ptree_lib" and lib cn lg
    using consumer_init_flags(2) [OF consumer_new_state(2), of pt lib lp cp cn lg]
    by (simp add: consumer_new_def)
  then show ?thesis
    by (simp add: init_existing imp_init_def pulsar_init_def KConsumer_init_def case_prod_unfold Let_def)
qed

theorem init_while_in_use_witness:
  "QbusConsumer_init demo_env ''h'' [] ''c'' (Some (PulsarConsumer (pulsar_consumer_new\<lparr>client := True\<rparr>))) =
     (Inr False, Some (PulsarConsumer (pulsar_consumer_new\<lparr>client := True\<rparr>)))"
  using init_while_in_use [of "pulsar_consumer_new\<lparr>client := True\<rparr>" demo_env "''h''" "[]" "''c''" None]
  by simp

section \<open>Closed producers\<close>

text \<open>A sequence of \<open>produce\<close> calls on the facade; each sends its whole data.\<close>

fun produce_run ::
  "'t env \<Rightarrow> (string \<times> string) list \<Rightarrow> qbus_producer \<Rightarrow> process \<Rightarrow>
     ((exn + bool) list \<times> qbus_producer \<times> process) option" where
  "produce_run env [] q w = Some ([], q, w)"
| "produce_run env ((d, k) # ms) q w =
     (case QbusProducer_produce env d (length d) k q w of
        None \<Rightarrow> None
      | Some (r, q, w) \<Rightarrow>
          (case produce_run env ms q w of
             None \<Rightarrow> None
           | Some (rs, q, w) \<Rightarrow> Some (r # rs, q, w)))"

lemma produce_run_imp:
  "produce_run env ms (Some (KafkaProducer p)) w =
     Some (map Inr (fst (produce_all (\<lambda>d k. KProducer_produce (env_rk env) (Some d) k) ms p)),
       Some (KafkaProducer (snd (produce_all (\<lambda>d k. KProducer_produce (env_rk env) (Some d) k) ms p))), w)"
  "produce_run env ms (Some (PulsarProducer u)) w =
     Some (map Inr (fst (produce_all (\<lambda>d k. pulsar_produce (env_pl env) d (length d) k) ms u)),
       Some (PulsarProducer (snd (produce_all (\<lambda>d k. pulsar_produce (env_pl env) d (length d) k) ms u))), w)"
  by (induction ms arbitrary: p u)
     (auto simp: QbusProducer_produce_def case_prod_unfold Let_def)

text \<open>After \<open>uninit\<close> a producer is silent, with Kafka and with Pulsar: every further call of \<open>produce\<close>
  with data, whatever the number, returns false, and no call reaches the client library.\<close>

theorem uninit_silences_producer:
  assumes "imp = KafkaProducer p \<or> imp = PulsarProducer u"
    and "\<forall>(d, k) \<in> set ms. d \<noteq> []"
    and "QbusProducer_uninit env (Some imp) w = (q, w')"
  shows "produce_run env ms q w' = Some (replicate (length ms) (Inr False), q, w')"
  using assms(1)
proof
  assume imp: "imp = KafkaProducer p"
  then have "q = Some (KafkaProducer (KProducer_uninit (env_rk env) p))" "w' = w"
    using assms(3) by (simp_all add: QbusProducer_uninit_def)
  then show ?thesis
    using kafka_imp.silent_after_uninit [OF assms(2), of "env_rk env" p] by (simp add: produce_run_imp)
next
  assume imp: "imp = PulsarProducer u"
  then have "q = Some (PulsarProducer (pulsar_producer_uninit (env_pl env) u))" "w' = w"
    using assms(3) by (simp_all add: QbusProducer_uninit_def)
  then show ?thesis
    using pulsar_imp.silent_after_uninit [OF assms(2), of "env_pl env" u] by (simp add: produce_run_imp)
qed

theorem uninit_silences_producer_witness:
  "\<exists>q. produce_run demo_env [(''a'', []), (''b'', ''k'')] q
     \<lparr>proc_kafka = world_start, proc_pulsar = []\<rparr> =
     Some ([Inr False, Inr False], q, \<lparr>proc_kafka = world_start, proc_pulsar = []\<rparr>)"
proof -
  let ?w = "\<lparr>proc_kafka = world_start, proc_pulsar = []\<rparr>"
  obtain q where "QbusProducer_uninit demo_env (Some (PulsarProducer pulsar_producer_new)) ?w = (q, ?w)"
    by (simp add: QbusProducer_uninit_def)
  from uninit_silences_producer [OF disjI2 [OF refl] _ this, of "[(''a'', []), (''b'', ''k'')]"]
  show ?thesis by (auto simp: numeral_2_eq_2)
qed

section \<open>Consuming and committing through the facade\<close>

text \<open>The info that \<open>consume\<close> fills and \<open>commitOffset\<close> takes carries the identity of the message through
  the facade. With the Pulsar implementation of the PHP build, committing the info acknowledges the id
  of the very message that was received, and nothing else.\<close>

theorem consumed_info_commits_its_message:
  assumes "id_law (env_pl env)" and "client c"
    and "QbusConsumer_consume env (Some (PulsarPhpConsumer c)) = (Inr (True, Some info), q)"
  shows "\<exists>msg c1 c2. consume_msg (env_pl env) c = (ResultOk, msg, c1) \<and> qi_msg info = pm_data msg \<and>
     q = Some (PulsarPhpConsumer c2) \<and>
     QbusConsumer_commitOffset env info q =
       (Inr (), Some (PulsarPhpConsumer (pl_emit (PlAck (pm_id msg)) c2)))"
proof -
  obtain r msg c1 where m: "consume_msg (env_pl env) c = (r, msg, c1)" by (cases "consume_msg (env_pl env) c")
  have c: "client (checkTimeThenAcknowledgeAll (env_pl env) c1)"
    using consume_msg_conf [OF m] assms(2) by simp
  show ?thesis
    using assms(1,3) m c
    by (auto simp: QbusConsumer_consume_def with_imp_def imp_consume_def php_consume_def
        QbusConsumer_commitOffset_def imp_commitOffset_def info_of_pulsar_def pulsar_info_of_def
        convertMessage_def pulsar_commitOffset_def acknowledge_def id_law_def Let_def
        split: if_splits)
qed

definition demo_php_env :: "ini env" where
  "demo_php_env = demo_env\<lparr>env_pl := demo_pulsar, env_callback := False\<rparr>"

theorem consumed_info_commits_its_message_witness:
  "\<exists>info c. QbusConsumer_consume demo_php_env (Some (PulsarPhpConsumer (pulsar_running True))) =
       (Inr (True, Some info), Some (PulsarPhpConsumer c)) \<and>
     QbusConsumer_commitOffset demo_php_env info (Some (PulsarPhpConsumer c)) =
       (Inr (), Some (PulsarPhpConsumer (pl_emit (PlAck (Some 3)) c)))"
proof -
  let ?c = "pulsar_running True"
  obtain info q where *: "QbusConsumer_consume demo_php_env (Some (PulsarPhpConsumer ?c)) =
      (Inr (True, Some info), q)"
    by (simp add: QbusConsumer_consume_def with_imp_def imp_consume_def php_consume_def consume_msg_def
        demo_php_env_def pulsar_running_def pulsar_run_defs Let_def)
  have m: "fst (snd (consume_msg (env_pl demo_php_env) ?c)) =
      \<lparr>pm_topic = ''t-partition-0'', pm_id = Some 3, pm_data = ''x''\<rparr>"
    by (simp add: consume_msg_def demo_php_env_def pulsar_running_def pulsar_run_defs Let_def)
  have "client ?c" by (simp add: pulsar_running_def pulsar_run_defs Let_def)
  moreover have "id_law (env_pl demo_php_env)" by (simp add: demo_php_env_def demo_pulsar_laws)
  ultimately show ?thesis
    using consumed_info_commits_its_message [OF _ _ *] * m by fastforce
qed

end
