(* ===== verification/Examples_Consumer.thy ===== *)
theory Examples_Consumer
  imports Qbus_Facade_Props Kafka_Offset_Refinement Pulsar_Newest
begin

text \<open>
  The program examples/consumer/qbus_consumer_example.cc: a client of the facade with both callbacks,
  which commits each message in \<open>deliveryMsgForCommitOffset\<close>. \<open>main\<close> is a function of the arguments
  and of the number of iterations that the consumer's thread makes before the signal; an exception
  that \<open>main\<close> does not catch ends the process.
\<close>

datatype exit_status = ExitCode int | Uncaught exn

section \<open>Callback\<close>

text \<open>\<open>deliveryMsg\<close> only prints; \<open>deliveryMsgForCommitOffset\<close> passes its info to \<open>commitOffset\<close>.\<close>

definition example_user :: "consumer \<Rightarrow> rk_message list" where
  "example_user c = (if calls c = [] then [] else
     (case last (calls c) of DeliveryMsgForCommitOffset m _ _ _ \<Rightarrow> [m] | _ \<Rightarrow> []))"

definition example_pulsar_user :: "pulsar_consumer \<Rightarrow> pulsar_info list" where
  "example_pulsar_user p = (if pl_calls p = [] then [] else
     (case last (pl_calls p) of PlDeliverForCommit _ info \<Rightarrow> [info] | _ \<Rightarrow> []))"

text \<open>What the thread of a started consumer does while \<open>main\<close> waits in \<open>pause()\<close>.\<close>

definition while_waiting :: "'t env \<Rightarrow> nat \<Rightarrow> qbus_consumer \<Rightarrow> qbus_consumer" where
  "while_waiting env n q =
     (case q of
        Some (KafkaConsumer (Some c)) \<Rightarrow>
          Some (KafkaConsumer (Some
            (if start_flag c then poll_loop n (env_rk env) example_user c else c)))
      | Some (PulsarConsumer p) \<Rightarrow>
          Some (PulsarConsumer (if running p then consume_loop n (env_pl env) example_pulsar_user p else p))
      | _ \<Rightarrow> q)"

section \<open>main\<close>

definition consumer_example_main ::
  "'t env \<Rightarrow> nat \<Rightarrow> string list \<Rightarrow> exit_status \<times> qbus_consumer" where
  "consumer_example_main env n argv =
     (if length argv < 5 then (ExitCode 1, None)
      else
        (let config_path = argv ! 1; topic_name = argv ! 2; grp = argv ! 3; cluster_name = argv ! 4;
             (r, consumer) = QbusConsumer_init env cluster_name ''consumer.log'' config_path None
         in case r of
              Inl e \<Rightarrow> (Uncaught e, consumer)
            | Inr False \<Rightarrow> (ExitCode 2, QbusConsumer_destroy env consumer)
            | Inr True \<Rightarrow>
                (let (r, consumer) = QbusConsumer_subscribeOne env grp topic_name consumer
                 in case r of
                      Inl e \<Rightarrow> (Uncaught e, consumer)
                    | Inr False \<Rightarrow> (ExitCode 3, QbusConsumer_destroy env consumer)
                    | Inr True \<Rightarrow>
                        (let (r, consumer) = QbusConsumer_start env consumer
                         in case r of
                              Inl e \<Rightarrow> (Uncaught e, consumer)
                            | Inr False \<Rightarrow> (ExitCode 4, QbusConsumer_destroy env consumer)
                            | Inr True \<Rightarrow>
                                (let consumer = while_waiting env n consumer;
                                     (r, consumer) = QbusConsumer_stop env consumer
                                 in case r of
                                      Inl e \<Rightarrow> (Uncaught e, consumer)
                                    | Inr _ \<Rightarrow> (ExitCode 0, QbusConsumer_destroy env consumer))))))"

section \<open>Lemmas\<close>

lemma careful_example_user: "careful example_user"
  by (auto simp: careful_def example_user_def)

lemma commits_each_example_user: "commits_each example_user"
  by (auto simp: commits_each_def example_user_def)

lemma session_poll_loop:
  assumes "start_flag c" and "careful user"
  shows "session True lib c (poll_loop n lib user c)"
proof -
  have "session True lib c0 (poll_loop n lib user c)" if "session True lib c0 c" "start_flag c" for c0 c
    using that
  proof (induction n arbitrary: c)
    case (Suc n)
    have "session True lib c0 (poll_body lib user c)"
      by (rule continue_session [OF Suc.prems(1)]) (rule poll_step, use Suc.prems assms(2) in simp_all)
    with Suc.IH Suc.prems(2) show ?case by simp
  qed simp
  with begin_session assms(1) show ?thesis by blast
qed

text \<open>A Kafka run of \<open>main\<close> that returns 0, by its steps.\<close>

lemma consumer_example_kafka:
  assumes "consumer_example_main env n argv = (ExitCode 0, Some (KafkaConsumer (Some c)))"
    and "env_callback env"
  obtains cn c1 c2 c3 where
    "consumer_init (env_pt env) (env_rk env) ''consumer.log'' (argv ! 1) (consumer_new cn (env_logger env)) =
       (True, c1)"
    "subscribe (env_rk env) (argv ! 3) [argv ! 2] c1 = (True, c2)"
    "start True (env_rk env) c2 = (True, c3)"
    "c = stop True (env_rk env)
       (if start_flag c3 then poll_loop n (env_rk env) example_user c3 else c3)"
proof -
  have l: "\<not> length argv < 5" using assms(1) by (auto simp: consumer_example_main_def)
  obtain r1 q1 where 1: "QbusConsumer_init env (argv ! 4) ''consumer.log'' (argv ! 1) None = (r1, q1)" by force
  obtain r2 q2 where 2: "QbusConsumer_subscribeOne env (argv ! 3) (argv ! 2) q1 = (r2, q2)" by force
  obtain r3 q3 where 3: "QbusConsumer_start env q2 = (r3, q3)" by force
  obtain r4 q4 where 4: "QbusConsumer_stop env (while_waiting env n q3) = (r4, q4)" by force
  note m = assms(1) [unfolded consumer_example_main_def Let_def, simplified l 1 2 3 4 if_False prod.case]
  have r: "r1 = Inr True" "r2 = Inr True" "r3 = Inr True"
    and d: "QbusConsumer_destroy env q4 = Some (KafkaConsumer (Some c))"
    using m by (auto split: sum.splits bool.splits)
  have q4: "q4 = Some (KafkaConsumer (Some c))"
    using d by (auto simp: QbusConsumer_destroy_def split: option.splits consumer_imp.splits)
  obtain c3' where w: "while_waiting env n q3 = Some (KafkaConsumer (Some c3'))"
    "c = stop (env_callback env) (env_rk env) c3'"
    using 4 q4 by (auto simp: QbusConsumer_stop_def with_imp_def imp_stop_def KConsumer_stop_def
        split: option.splits consumer_imp.splits)
  obtain c3 where q3: "q3 = Some (KafkaConsumer (Some c3))"
    "c3' = (if start_flag c3 then poll_loop n (env_rk env) example_user c3 else c3)"
    using w(1) by (auto simp: while_waiting_def split: option.splits consumer_imp.splits)
  obtain c2 where q2: "q2 = Some (KafkaConsumer (Some c2))"
    "start (env_callback env) (env_rk env) c2 = (True, c3)"
    using 3 r(3) q3(1) by (auto simp: QbusConsumer_start_def with_imp_def imp_start_def KConsumer_start_def
        split: option.splits consumer_imp.splits prod.splits)
  obtain c1 where q1: "q1 = Some (KafkaConsumer (Some c1))"
    "subscribe (env_rk env) (argv ! 3) [argv ! 2] c1 = (True, c2)"
    using 2 r(2) q2(1)
    by (auto simp: QbusConsumer_subscribeOne_def with_imp_def imp_subscribeOne_def
        KConsumer_subscribeOne_def KConsumer_subscribe_def
        split: option.splits consumer_imp.splits prod.splits)
  obtain cn where "consumer_init (env_pt env) (env_rk env) ''consumer.log'' (argv ! 1)
      (consumer_new cn (env_logger env)) = (True, c1)"
    using 1 r(1) q1(1)
    by (auto simp: QbusConsumer_init_def imp_init_def new_consumer_imp_def KConsumer_init_def Let_def
        split: sum.splits consumer_imp.splits prod.splits mq_type.splits if_splits)
  from that [OF this q1(2)] q2(2) w(2) q3(2) assms(2) show ?thesis by simp
qed

lemma auto_commit_stop: "is_auto_commit_offset (stop cb lib c) = is_auto_commit_offset c"
proof -
  have w: "is_auto_commit_offset (wait_destroyed_loop k lib d) = is_auto_commit_offset d" for k d
    by (induction k arbitrary: d) (simp_all add: Let_def)
  have t: "is_auto_commit_offset (stop_thread cb lib d) = is_auto_commit_offset d" for d
    by (simp add: stop_thread_def Let_def poll_thread_exit_def)
  have "is_auto_commit_offset (close_consumer lib d) = is_auto_commit_offset d" for d
    by (simp add: close_consumer_def Let_def case_prod_unfold)
  then show ?thesis by (simp add: stop_def Let_def w t)
qed

lemma consumer_example_kafka_commits:
  assumes "consumer_example_main env n argv = (ExitCode 0, Some (KafkaConsumer (Some c)))"
    and "env_callback env"
  shows "lifetime (calls c) = Some {#} \<and>
     (proper_messages (env_rk env) \<and> \<not> is_auto_commit_offset c \<longrightarrow> requested a (calls c) = newest True a (calls c))"
proof -
  obtain cn c1 c2 c3 where
    steps: "consumer_init (env_pt env) (env_rk env) ''consumer.log'' (argv ! 1)
        (consumer_new cn (env_logger env)) = (True, c1)"
      "subscribe (env_rk env) (argv ! 3) [argv ! 2] c1 = (True, c2)"
      "start True (env_rk env) c2 = (True, c3)" and
    c: "c = stop True (env_rk env)
       (if start_flag c3 then poll_loop n (env_rk env) example_user c3 else c3)"
    using consumer_example_kafka [OF assms(1,2)] .
  let ?c = "if start_flag c3 then poll_loop n (env_rk env) example_user c3 else c3"
  have s: "in_session ?c"
    using in_session_reachable [OF session_poll_loop [OF _ careful_example_user]]
      in_session_start [OF steps] by simp
  from all_freed_stop_in_session [OF this] have "lifetime (calls c) = Some {#}"
    by (simp add: c all_freed_def)
  moreover have "requested a (calls c) = newest True a (calls c)" 
    if pm: "proper_messages (env_rk env)" and "\<not> is_auto_commit_offset c"
  proof -
    have "is_auto_commit_offset (poll_loop n (env_rk env) example_user c3) = is_auto_commit_offset c3"
      for n by (induction n arbitrary: c3) simp_all
    then have au: "\<not> is_auto_commit_offset c3" using that(2) by (simp add: c auto_commit_stop split: if_splits)
    have "wait_commit_msgs c3 = []" "wait_destroy_msgs_for_uncommit c3 = []"
      and f: "filter message_call (calls c3) = []"
      using msg_state_start [OF steps] by (simp_all add: msg_state_def)
    moreover have "requested a (calls c3) = None" "newest True a (calls c3) = None" for a
      using requested_filter [of a "calls c3"] newest_filter [of True a "calls c3"] f by simp_all
    ultimately have "in_order True c3"
      using au by (simp add: in_order_def keyed_def tables_ok_def latest_idle)
    then have o: "in_order True ?c"
      using in_order_poll_loop [OF _ pm commits_each_example_user] by simp
    have "start_flag ?c \<or> wait_commit_msgs ?c = []"
      using all_freed_idle [of ?c] s by (auto simp: in_session_def all_freed_def)
    from in_order_stop [OF o this, of "env_rk env"]
    have "latest_offset a (offset_view c) = newest True a (calls c)" "wait_commit_msgs c = []"
      unfolding in_order_def c by blast+
    with latest_idle [of c a] show ?thesis by simp
  qed
  ultimately show ?thesis by blast
qed

text \<open>A run over Pulsar: after \<open>stop\<close> the destructor acknowledges once more and closes the client.\<close>

lemma consumer_example_pulsar:
  assumes "consumer_example_main env n argv = (ExitCode 0, Some (PulsarConsumer p))"
    and "order_law (env_pl env)"
  shows "newest_acked (pl_calls p) \<and> \<not> running p"
proof -
  let ?lib = "env_pl env"
  have l: "\<not> length argv < 5" using assms(1) by (auto simp: consumer_example_main_def)
  obtain r1 q1 where 1: "QbusConsumer_init env (argv ! 4) ''consumer.log'' (argv ! 1) None = (r1, q1)" by force
  obtain r2 q2 where 2: "QbusConsumer_subscribeOne env (argv ! 3) (argv ! 2) q1 = (r2, q2)" by force
  obtain r3 q3 where 3: "QbusConsumer_start env q2 = (r3, q3)" by force
  obtain r4 q4 where 4: "QbusConsumer_stop env (while_waiting env n q3) = (r4, q4)" by force
  note m = assms(1) [unfolded consumer_example_main_def Let_def, simplified l 1 2 3 4 if_False prod.case]
  have r: "r1 = Inr True" "r2 = Inr True" "r3 = Inr True"
    and d: "QbusConsumer_destroy env q4 = Some (PulsarConsumer p)"
    using m by (auto split: sum.splits bool.splits)
  obtain p4 where q4: "q4 = Some (PulsarConsumer p4)" "p = pulsar_destroy ?lib p4"
    using d by (auto simp: QbusConsumer_destroy_def split: option.splits consumer_imp.splits)
  obtain p3' where w: "while_waiting env n q3 = Some (PulsarConsumer p3')" "p4 = pulsar_stop ?lib p3'"
    using 4 q4 by (auto simp: QbusConsumer_stop_def with_imp_def imp_stop_def
        split: option.splits consumer_imp.splits)
  obtain p3 where q3: "q3 = Some (PulsarConsumer p3)"
    "p3' = (if running p3 then consume_loop n ?lib example_pulsar_user p3 else p3)"
    using w(1) by (auto simp: while_waiting_def split: option.splits consumer_imp.splits)
  obtain p2 where q2: "q2 = Some (PulsarConsumer p2)" "pulsar_start ?lib p2 = (True, p3)"
    using 3 r(3) q3(1) by (auto simp: QbusConsumer_start_def with_imp_def imp_start_def
        split: option.splits consumer_imp.splits prod.splits)
  obtain p1 where q1: "q1 = Some (PulsarConsumer p1)"
    "pulsar_subscribeOne ?lib (argv ! 3) (argv ! 2) p1 = (True, p2)"
    using 2 r(2) q2(1) by (auto simp: QbusConsumer_subscribeOne_def with_imp_def imp_subscribeOne_def
        split: option.splits consumer_imp.splits prod.splits)
  have i: "snd (pulsar_init (env_pt env) (argv ! 4) ''consumer.log'' (argv ! 1) pulsar_consumer_new) = p1"
    using 1 r(1) q1(1)
    by (auto simp: QbusConsumer_init_def imp_init_def new_consumer_imp_def Let_def
        split: sum.splits consumer_imp.splits prod.splits mq_type.splits if_splits)
  have s: "client p3" "running p3"
    using q2(2) by (auto simp: pulsar_start_def timer_start_def Let_def pl_emit_def split: if_splits)
  have "tracked p3"
    using tracked_init [OF tracked_new, of "env_pt env"] tracked_subscribeOne [of p1 ?lib] tracked_start [of p2 ?lib]
      i q1(2) q2(2) by (metis snd_conv)
  note t = tracked_consume_loop [OF this, of n ?lib example_pulsar_user]
  have p4: "tracked p4" "client p4" "\<not> running p4"
    using t s q3(2) w(2) by (simp_all add: pulsar_stop_def tracked_acknowledgeAll)
  have "newest_acked (pl_calls (acknowledgeAll ?lib p4))"
    by (rule newest_acked_acknowledgeAll [OF assms(2) p4(1)])
  then show ?thesis
    using p4 q4(2) by (simp add: pulsar_destroy_def pl_emit_def newest_acked_def Pulsar_Consumer_Props.latest_def)
qed

section \<open>Property\<close>

text \<open>C33: The example is a correct client of the library, in the build with callbacks. A run that exits
  with 0 over Kafka frees every message exactly once and uses none afterwards, in every commit mode. If librdkafka
  does not commit by itself, and no message names a topic that ends in a digit or a negative partition,
  the last commit of each partition is that of the newest message that arrived from it, whether the
  client commits or the callback does. A run over Pulsar that \<open>stop\<close> ends between two iterations of the loop (as
  always without \<open>force.stop\<close>) leaves an acknowledgement of the newest message of every topic requested and the
  consumer stopped, whatever the order in which its hash map is traversed.\<close>

theorem consumer_example_consumes_and_commits:
  assumes "consumer_example_main env n argv = (ExitCode 0, q)"
    and "env_callback env" and "order_law (env_pl env)"
  shows "(\<forall>c. q = Some (KafkaConsumer (Some c)) \<longrightarrow> lifetime (calls c) = Some {#} \<and>
        (proper_messages (env_rk env) \<and> \<not> is_auto_commit_offset c \<longrightarrow>
           requested a (calls c) = newest True a (calls c))) \<and>
     (\<forall>p. q = Some (PulsarConsumer p) \<longrightarrow> newest_acked (pl_calls p) \<and> \<not> running p)"
  using consumer_example_kafka_commits [OF _ assms(2)] consumer_example_pulsar [OF _ assms(3)] assms(1)
  by blast

lemma demo_example_run:
  "\<exists>c. consumer_example_main demo_kafka_env 1 [''example'', ''conf'', ''t'', ''g'', ''''] =
     (ExitCode 0, Some (KafkaConsumer (Some c)))"
proof -
  have t: "mqType demo_pt ''conf'' = Inr KAFKA"
    by (simp add: mqType_def demo_pt_def ini_lib_def)
  obtain c1 where c1: "consumer_init demo_pt demo_lib ''consumer.log'' ''conf'' (consumer_new '''' logger_start) =
      (True, c1)" "rd_kafka_conf c1"
    using demo_init [of "''consumer.log''" "''conf''" logger_start]
    by (cases "consumer_init demo_pt demo_lib ''consumer.log'' ''conf'' (consumer_new '''' logger_start)")
       (simp add: handles_def)
  obtain c2 where c2: "subscribe demo_lib ''g'' [''t''] c1 = (True, c2)"
    using subscribe_ok [of demo_lib c1 "''g''" "[''t'']"] c1(2)
    by (cases "subscribe demo_lib ''g'' [''t''] c1") simp
  have "fst (start True demo_lib c2)" by (simp add: start_def Let_def demo_lib_def quiet_lib_def)
  then obtain c3 where c3: "start True demo_lib c2 = (True, c3)"
    by (cases "start True demo_lib c2") simp
  show ?thesis
    by (simp add: consumer_example_main_def demo_kafka_env_def QbusConsumer_init_def t imp_init_def
        new_consumer_imp_def KConsumer_init_def find_char_def c1(1) QbusConsumer_subscribeOne_def with_imp_def
        imp_subscribeOne_def KConsumer_subscribeOne_def KConsumer_subscribe_def c2
        QbusConsumer_start_def imp_start_def KConsumer_start_def c3 while_waiting_def
        QbusConsumer_stop_def imp_stop_def KConsumer_stop_def QbusConsumer_destroy_def)
qed

theorem consumer_example_consumes_and_commits_witness:
  "\<exists>c. consumer_example_main demo_kafka_env 1 [''example'', ''conf'', ''t'', ''g'', ''''] =
     (ExitCode 0, Some (KafkaConsumer (Some c))) \<and> lifetime (calls c) = Some {#} \<and>
     (is_auto_commit_offset c \<or> requested (''t'', 0) (calls c) = newest True (''t'', 0) (calls c))"
proof -
  obtain c where c: "consumer_example_main demo_kafka_env 1 [''example'', ''conf'', ''t'', ''g'', ''''] =
     (ExitCode 0, Some (KafkaConsumer (Some c)))" using demo_example_run by blast
  have "env_callback demo_kafka_env" "order_law (env_pl demo_kafka_env)"
    and p: "proper_messages (env_rk demo_kafka_env)"
    by (simp_all add: demo_kafka_env_def proper_demo_lib quiet_pulsar_laws)
  from consumer_example_consumes_and_commits [OF c this(1,2), of "(''t'', 0)"] c p show ?thesis by blast
qed

end
