(* ===== verification/Examples_Producer.thy ===== *)
theory Examples_Producer
  imports Examples_Consumer
begin

text \<open>
  The program examples/producer/qbus_producer_example.cc: it sends each line of its standard input
  that is not empty as a message. The input is one string; \<open>std::getline\<close> takes the text up to the
  next newline and sets the end-of-file state when there is none. \<open>None\<close> is undefined behaviour of
  \<open>produce\<close> (see Kafka_Producer).
\<close>

definition newline :: char where
  "newline = char_of (10 :: nat)"

text \<open>\<open>std::getline\<close> of a stream that is not at its end: the line, the rest and \<open>eof()\<close>.\<close>

definition getline :: "string \<Rightarrow> string \<times> string \<times> bool" where
  "getline input =
     (case dropWhile (\<lambda>c. c \<noteq> newline) input of
        [] \<Rightarrow> (input, [], True)
      | _ # rest \<Rightarrow> (takeWhile (\<lambda>c. c \<noteq> newline) input, rest, False))"

text \<open>The loop of \<open>main\<close>, with the lines for which \<open>produce\<close> failed.\<close>

function produce_lines ::
  "'t env \<Rightarrow> string \<Rightarrow> bool \<Rightarrow> qbus_producer \<Rightarrow> process \<Rightarrow>
     ((exn + string list) \<times> qbus_producer \<times> process) option" where
  "produce_lines env input eof q w =
     (if eof then Some (Inr [], q, w)
      else
        (let (line, rest, eof') = getline input in
         if line = [] then produce_lines env rest eof' q w
         else
           (case QbusProducer_produce env line (length line) '''' q w of
              None \<Rightarrow> None
            | Some (Inl e, q, w) \<Rightarrow> Some (Inl e, q, w)
            | Some (Inr ok, q, w) \<Rightarrow>
                (case produce_lines env rest eof' q w of
                   Some (Inr failed, q, w) \<Rightarrow> Some (Inr (if ok then failed else line # failed), q, w)
                 | other \<Rightarrow> other))))"
  by pat_completeness auto

termination
proof (relation "measure (\<lambda>(env, input, eof, q, w). if eof then 0 else Suc (length input))")
  have "length rest < length input \<or> e" if "(line, rest, e) = getline input" for line rest e input
  proof -
    have "length (c # r) \<le> length input" if "dropWhile (\<lambda>c. c \<noteq> newline) input = c # r" for c r
      using that length_dropWhile_le [of "\<lambda>c. c \<noteq> newline" input] by simp
    with that show ?thesis by (fastforce simp: getline_def split: list.splits)
  qed
  note d = this
  show "((env, rest, e, q, w), env, input, eof, q, w) \<in>
      measure (\<lambda>(env, input, eof, q, w). if eof then 0 else Suc (length input))"
    if "\<not> eof" "x = getline input" "(line, y) = x" "(rest, e) = y"
    for env :: "'t env" and input eof q w x line y rest e
    using that d [of line rest e input] by auto
  show "((env, rest, e, q', w'), env, input, eof, q, w) \<in>
      measure (\<lambda>(env, input, eof, q, w). if eof then 0 else Suc (length input))"
    if "\<not> eof" "x = getline input" "(line, y) = x" "(rest, e) = y"
    for env :: "'t env" and input eof q w q' w' x line y rest e
    using that d [of line rest e input] by auto
qed auto

declare produce_lines.simps [simp del]

definition producer_example_main ::
  "'t env \<Rightarrow> string list \<Rightarrow> string \<Rightarrow> process \<Rightarrow>
     (exit_status \<times> string list \<times> qbus_producer \<times> process) option" where
  "producer_example_main env argv input w =
     (if length argv < 4 then Some (ExitCode 1, [], None, w)
      else
        (let config_path = argv ! 1; topic_name = argv ! 2; cluster_name = argv ! 3;
             (r, q, w) = QbusProducer_init env cluster_name ''producer.log'' config_path topic_name None w
         in case r of
              Inl e \<Rightarrow> Some (Uncaught e, [], q, w)
            | Inr False \<Rightarrow> Some (ExitCode 1, [], q, w)
            | Inr True \<Rightarrow>
                (case produce_lines env input False q w of
                   None \<Rightarrow> None
                 | Some (Inl e, q, w) \<Rightarrow> Some (Uncaught e, [], q, w)
                 | Some (Inr failed, q, w) \<Rightarrow>
                     (let (q, w) = QbusProducer_uninit env q w
                      in Some (ExitCode 0, failed, q, w)))))"

section \<open>Lines\<close>

text \<open>The lines of a text; a text that does not end with a newline has a last, open line.\<close>

fun text_lines :: "string \<Rightarrow> string list" where
  "text_lines [] = [[]]"
| "text_lines (c # s) =
     (if c = newline then [] # text_lines s
      else (case text_lines s of l # ls \<Rightarrow> (c # l) # ls | [] \<Rightarrow> [[c]]))"

lemma text_lines_ne [simp]: "text_lines s \<noteq> []"
  by (cases s) (auto split: list.split)

lemma text_lines_getline:
  "getline s = (l, rest, e) \<Longrightarrow> text_lines s = (if e then [l] else l # text_lines rest)"
proof (induction s arbitrary: l rest e)
  case (Cons c s)
  show ?case
  proof (cases "c = newline")
    case True
    with Cons.prems show ?thesis by (auto simp: getline_def)
  next
    case False
    obtain l' rest' e' where g: "getline s = (l', rest', e')" by (metis prod_cases3)
    with False Cons.prems have "l = c # l'" "rest = rest'" "e = e'"
      by (auto simp: getline_def split: list.splits)
    with Cons.IH [OF g] False show ?thesis by simp
  qed
qed (auto simp: getline_def)

section \<open>Property\<close>

lemma produce_run_failed:
  "produce_run env ((d, k) # ms) q w =
     (case QbusProducer_produce env d (length d) k q w of
        None \<Rightarrow> None
      | Some (r, q, w) \<Rightarrow>
          (case produce_run env ms q w of
             None \<Rightarrow> None | Some (rs, q, w) \<Rightarrow> Some (r # rs, q, w)))"
  by simp

text \<open>A producer whose \<open>produce\<close> does not throw, and stays one.\<close>

definition plain_producer :: "qbus_producer \<Rightarrow> bool" where
  "plain_producer q = (case q of Some (KafkaProducer _) \<Rightarrow> True | Some (PulsarProducer _) \<Rightarrow> True | _ \<Rightarrow> False)"

lemma plain_produce:
  assumes "plain_producer q"
  obtains ok q' w' where "QbusProducer_produce env d n k q w = Some (Inr ok, q', w')" "plain_producer q'"
  using assms
  by (auto simp: plain_producer_def QbusProducer_produce_def case_prod_unfold Let_def
      split: option.splits producer_imp.splits)

definition failed_lines :: "string list \<Rightarrow> (exn + bool) list \<Rightarrow> string list" where
  "failed_lines ls rs = map fst (filter (\<lambda>(l, r). r = Inr False) (zip ls rs))"

lemma failed_lines_Cons [simp]:
  "failed_lines [] rs = []"
  "failed_lines (l # ls) (r # rs) = (if r = Inr False then l # failed_lines ls rs else failed_lines ls rs)"
  by (simp_all add: failed_lines_def)

text \<open>C39: The example sends exactly the lines of its input that are not empty, in their order and whole,
  with an empty key, whether or not the last one ends with a newline, and prints those for which
  \<open>produce\<close> returned false.\<close>

theorem producer_example_sends_lines:
  fixes env :: "'t env" and input :: string and q w
  assumes "plain_producer q"
  defines "ls \<equiv> filter (\<lambda>l. l \<noteq> []) (text_lines input)"
  shows "produce_lines env input False q w =
     map_option (\<lambda>(rs, q, w). (Inr (failed_lines ls rs), q, w))
       (produce_run env (map (\<lambda>l. (l, '''')) ls) q w)"
proof -
  have "produce_lines env input eof q w =
     map_option (\<lambda>(rs, q, w). (Inr (failed_lines ls rs), q, w))
       (produce_run env (map (\<lambda>l. (l, '''')) ls) q w)"
    if "plain_producer q" "ls = (if eof then [] else filter (\<lambda>l. l \<noteq> []) (text_lines input))" for eof ls
    using that
  proof (induction env input eof q w arbitrary: ls rule: produce_lines.induct)
    case (1 env input eof q w)
    show ?case
    proof (cases eof)
      case True
      with 1 show ?thesis by (simp add: produce_lines.simps)
    next
      case False
      obtain l rest e where g: "getline input = (l, rest, e)" by (metis prod_cases3)
      define ls' where "ls' = (if e then [] else filter (\<lambda>l. l \<noteq> []) (text_lines rest))"
      have ls: "ls = (if l = [] then ls' else l # ls')"
        using 1(4) False text_lines_getline [OF g] by (simp add: ls'_def)
      show ?thesis
      proof (cases "l = []")
        case True
        with 1(1) [OF False g [symmetric] refl refl _ 1(3) ls'_def] ls False g show ?thesis
          by (simp add: produce_lines.simps [of env input])
      next
        case nonempty: False
        from plain_produce [OF 1(3)] obtain ok q' w' where
          p: "QbusProducer_produce env l (length l) '''' q w = Some (Inr ok, q', w')" "plain_producer q'"
          by blast
        note ih = 1(2) [OF False g [symmetric] refl refl nonempty p(1) refl refl refl p(2) ls'_def]
        show ?thesis
          using ls nonempty p False g ih
          by (auto simp: produce_lines.simps [of env input] split: option.split)
      qed
    qed
  qed
  with assms show ?thesis by simp
qed

lemma demo_lines:
  "filter (\<lambda>l. l \<noteq> []) (text_lines [CHR ''a'', newline, newline, CHR ''b'']) = [''a'', ''b'']"
  by code_simp

theorem producer_example_sends_lines_witness:
  "\<forall>w. produce_lines demo_kafka_env [CHR ''a'', newline, newline, CHR ''b''] False
       (Some (PulsarProducer pulsar_producer_new)) w =
     map_option (\<lambda>(rs, q, w). (Inr (failed_lines [''a'', ''b''] rs), q, w))
       (produce_run demo_kafka_env [(''a'', []), (''b'', [])] (Some (PulsarProducer pulsar_producer_new)) w)"
proof
  fix w
  have p: "plain_producer (Some (PulsarProducer pulsar_producer_new))" by (simp add: plain_producer_def)
  show "produce_lines demo_kafka_env [CHR ''a'', newline, newline, CHR ''b''] False
       (Some (PulsarProducer pulsar_producer_new)) w =
     map_option (\<lambda>(rs, q, w). (Inr (failed_lines [''a'', ''b''] rs), q, w))
       (produce_run demo_kafka_env [(''a'', []), (''b'', [])] (Some (PulsarProducer pulsar_producer_new)) w)"
    using producer_example_sends_lines [OF p, of demo_kafka_env "[CHR ''a'', newline, newline, CHR ''b'']" w]
    by (simp only: demo_lines list.map)
qed

end
