(* ===== verification/Examples_Pause_Resume.thy ===== *)
theory Examples_Pause_Resume
  imports Examples_Producer Std_Map
begin

text \<open>
  The program examples/consumer/qbus_pause_resume_example.cc: each time \<open>kMessageBatchSize\<close> messages
  of one topic have arrived, its callback pauses the topic and starts a thread that resumes it
  \<open>kPauseSeconds\<close> later. The record \<open>example\<close> holds the callback's map of message counts, the global
  consumer, the topics of the threads that still sleep, and what was printed on the standard output.
  The times that \<open>now()\<close> prints are left out. \<open>size_t\<close> has 64 bits; an \<open>int\<close> that is converted to it
  is taken modulo \<open>2 ^ 64\<close>, and \<open>None\<close> is the remainder by zero.
\<close>

section \<open>Arguments\<close>

text \<open>\<open>split\<close>: the first call of \<open>strtok\<close> and the later ones skip the delimiters before a token.\<close>

function split_tokens :: "string \<Rightarrow> string \<Rightarrow> string list" where
  "split_tokens s delim =
     (let t = dropWhile (\<lambda>c. c \<in> set delim) s in
      if t = [] then []
      else takeWhile (\<lambda>c. c \<notin> set delim) t # split_tokens (dropWhile (\<lambda>c. c \<notin> set delim) t) delim)"
  by pat_completeness auto

termination
proof (relation "measure (\<lambda>(s, d). length s)")
  fix s delim t :: string
  assume t: "t = dropWhile (\<lambda>c. c \<in> set delim) s" "t \<noteq> []"
  then obtain c r where c: "t = c # r" "c \<notin> set delim"
    by (metis hd_dropWhile list.collapse)
  have "length (dropWhile (\<lambda>c. c \<notin> set delim) r) \<le> length r" by (rule length_dropWhile_le)
  moreover have "length t \<le> length s" using t(1) length_dropWhile_le by metis
  ultimately show "((dropWhile (\<lambda>c. c \<notin> set delim) t, delim), s, delim) \<in> measure (\<lambda>(s, d). length s)"
    using c by simp
qed simp

declare split_tokens.simps [simp del]

definition default_delim :: string where
  "default_delim = [CHR '','', CHR '' '', char_of (9 :: nat), char_of (10 :: nat)]"

text \<open>
  \<open>strToInt\<close>: a number that is clamped by \<open>strtol\<close>, the only case in which it sets \<open>errno\<close>, fails the
  first test already. Text that is not a number is read as 0.
\<close>

definition INT_MIN :: int where
  "INT_MIN = - (2 ^ 31)"

definition INT_MAX :: int where
  "INT_MAX = 2 ^ 31 - 1"

definition strToInt :: "string \<Rightarrow> exit_status + int" where
  "strToInt s =
     (let result = strtol10 s in
      if result \<le> INT_MIN \<or> result \<ge> INT_MAX then Inl (ExitCode 1) else Inr result)"

section \<open>Callback\<close>

datatype line = MessageLine string nat string | PauseLine string | ResumeLine string

record example =
  msg_id_map :: "(string \<times> nat) list"
  the_consumer :: qbus_consumer
  sleeping :: "string list"
  printed :: "line list"

definition example_start :: "qbus_consumer \<Rightarrow> example" where
  "example_start q = \<lparr>msg_id_map = [], the_consumer = q, sleeping = [], printed = []\<rparr>"

definition print_line :: "line \<Rightarrow> example \<Rightarrow> example" where
  "print_line l a = a\<lparr>printed := printed a @ [l]\<rparr>"

definition size_t :: "int \<Rightarrow> nat" where
  "size_t i = nat (i mod 2 ^ 64)"

text \<open>\<open>CHECK_RETVAL\<close>.\<close>

definition check_retval :: "(exn + bool) \<Rightarrow> 'a \<Rightarrow> exit_status + 'a" where
  "check_retval r a =
     (case r of Inl e \<Rightarrow> Inl (Uncaught e) | Inr ok \<Rightarrow> if \<not> ok then Inl (ExitCode 1) else Inr a)"

definition example_deliveryMsg ::
  "'t env \<Rightarrow> int \<Rightarrow> string \<Rightarrow> string \<Rightarrow> example \<Rightarrow> (exit_status + example) option" where
  "example_deliveryMsg env batch topic msg a =
     (let a = (if map_of (msg_id_map a) topic = None
               then a\<lparr>msg_id_map := smap_assign topic 0 (msg_id_map a)\<rparr> else a);
          id = the (map_of (msg_id_map a) topic);
          a = print_line (MessageLine topic id msg) a;
          id = Suc id mod 2 ^ 64;
          a = a\<lparr>msg_id_map := smap_assign topic id (msg_id_map a)\<rparr>
      in if size_t batch = 0 then None
         else if id mod size_t batch = 0 then
           (let (r, q) = QbusConsumer_pause env [topic] (the_consumer a);
                a = a\<lparr>the_consumer := q\<rparr>
            in Some (check_retval r
                 ((print_line (PauseLine topic) a)\<lparr>sleeping := sleeping a @ [topic]\<rparr>)))
         else Some (Inr a))"

text \<open>\<open>resumeTopic\<close> after its sleep.\<close>

definition example_resumeTopic :: "'t env \<Rightarrow> string \<Rightarrow> example \<Rightarrow> exit_status + example" where
  "example_resumeTopic env topic a =
     (let a = print_line (ResumeLine topic) a;
          (r, q) = QbusConsumer_resume env [topic] (the_consumer a)
      in check_retval r (a\<lparr>the_consumer := q, sleeping := remove1 topic (sleeping a)\<rparr>))"

section \<open>main\<close>

text \<open>
  What happens while \<open>main\<close> sleeps: the consumer's thread works and changes the consumer, it delivers
  a message, or a thread that has slept for its topic goes on.
\<close>

datatype example_event =
    Consumer_works "qbus_consumer \<Rightarrow> qbus_consumer"
  | Delivers string string
  | Wakes string

definition example_step ::
  "'t env \<Rightarrow> int \<Rightarrow> example_event \<Rightarrow> example \<Rightarrow> (exit_status + example) option" where
  "example_step env batch ev a =
     (case ev of
        Consumer_works f \<Rightarrow> Some (Inr (a\<lparr>the_consumer := f (the_consumer a)\<rparr>))
      | Delivers topic msg \<Rightarrow> example_deliveryMsg env batch topic msg a
      | Wakes topic \<Rightarrow>
          Some (if topic \<in> set (sleeping a) then example_resumeTopic env topic a else Inr a))"

fun example_events ::
  "'t env \<Rightarrow> int \<Rightarrow> example_event list \<Rightarrow> example \<Rightarrow> (exit_status + example) option" where
  "example_events env batch [] a = Some (Inr a)"
| "example_events env batch (ev # evs) a =
     (case example_step env batch ev a of
        Some (Inr a) \<Rightarrow> example_events env batch evs a
      | stopped \<Rightarrow> stopped)"

definition argument :: "string list \<Rightarrow> nat \<Rightarrow> string \<Rightarrow> string" where
  "argument argv i dflt = (if length argv > i then argv ! i else dflt)"

definition int_argument :: "string list \<Rightarrow> nat \<Rightarrow> int \<Rightarrow> exit_status + int" where
  "int_argument argv i dflt = (if length argv > i then strToInt (argv ! i) else Inr dflt)"

text \<open>From \<open>init\<close> to \<open>start\<close>.\<close>

definition example_begin ::
  "'t env \<Rightarrow> string list \<Rightarrow> string \<Rightarrow> string \<Rightarrow> exit_status + qbus_consumer" where
  "example_begin env topics conf_path log_path =
     (let (r, q) = QbusConsumer_init env '''' log_path conf_path None in
      case check_retval r () of
        Inl s \<Rightarrow> Inl s
      | Inr _ \<Rightarrow>
          (let (r, q) = QbusConsumer_subscribe env '''' topics q in
           case check_retval r () of
             Inl s \<Rightarrow> Inl s
           | Inr _ \<Rightarrow> (let (r, q) = QbusConsumer_start env q in check_retval r q)))"

text \<open>The result of \<open>main\<close>: the status with which the process ended, or the state when it returned 0.\<close>

definition pause_example_main ::
  "'t env \<Rightarrow> string list \<Rightarrow> example_event list \<Rightarrow> (exit_status + example) option" where
  "pause_example_main env argv evs =
     (if length argv < 2 \<or> argv ! 1 = ''-h'' \<or> argv ! 1 = ''--help'' then Some (Inl (ExitCode 1))
      else
        (case int_argument argv 2 2 of
           Inl s \<Rightarrow> Some (Inl s)
         | Inr batch \<Rightarrow>
             (case int_argument argv 3 3 of
                Inl s \<Rightarrow> Some (Inl s)
              | Inr pause_seconds \<Rightarrow>
                  (case example_begin env (split_tokens (argv ! 1) default_delim)
                          (argument argv 4 ''./consumer.config'')
                          (argument argv 5 ''./qbus_pause_resume_example.log'') of
                     Inl s \<Rightarrow> Some (Inl s)
                   | Inr q \<Rightarrow>
                       (case example_events env batch evs (example_start q) of
                          Some (Inr a) \<Rightarrow>
                            (let (r, q) = QbusConsumer_stop env (the_consumer a)
                             in case r of Inl e \<Rightarrow> Some (Inl (Uncaught e))
                                | Inr _ \<Rightarrow> Some (Inr (a\<lparr>the_consumer := q\<rparr>)))
                        | stopped \<Rightarrow> stopped)))))"

section \<open>Arguments, proved\<close>

text \<open>A comma-separated list of topics is read back, whatever the topics are as long as none is empty
  or has a delimiter in it.\<close>

lemma split_tokens_token:
  assumes "t \<noteq> []" and "set t \<inter> set delim = {}" and "r = [] \<or> hd r \<in> set delim"
  shows "split_tokens (t @ r) delim = t # split_tokens r delim"
proof -
  have "dropWhile (\<lambda>c. c \<in> set delim) (t @ r) = t @ r"
    using assms(1,2) by (cases t) auto
  moreover have "takeWhile (\<lambda>c. c \<notin> set delim) (t @ r) = t" "dropWhile (\<lambda>c. c \<notin> set delim) (t @ r) = r"
    using assms(2,3) by (induction t) (cases r; auto)+
  ultimately show ?thesis using assms(1) by (simp add: split_tokens.simps [of "t @ r"])
qed

lemma split_tokens_skip: "c \<in> set delim \<Longrightarrow> split_tokens (c # s) delim = split_tokens s delim"
  by (simp add: split_tokens.simps [of "c # s"] split_tokens.simps [of s])

lemma split_tokens_Nil [simp]: "split_tokens [] delim = []"
  by (simp add: split_tokens.simps)

fun with_commas :: "string list \<Rightarrow> string" where
  "with_commas [] = ''''"
| "with_commas [t] = t"
| "with_commas (t # ts) = t @ '','' @ with_commas ts"

lemma split_with_commas:
  assumes "\<forall>t \<in> set ts. t \<noteq> [] \<and> set t \<inter> set default_delim = {}"
  shows "split_tokens (with_commas ts) default_delim = ts"
  using assms
proof (induction ts rule: with_commas.induct)
  case (2 t)
  then show ?case using split_tokens_token [of t default_delim "[]"] by simp
next
  case (3 t u ts)
  have c: "CHR '','' \<in> set default_delim" by (simp add: default_delim_def)
  have "split_tokens (t @ '','' @ with_commas (u # ts)) default_delim =
     t # split_tokens ('','' @ with_commas (u # ts)) default_delim"
    using 3(2) c by (intro split_tokens_token) auto
  then show ?case using 3 c by (simp add: split_tokens_skip)
qed simp

lemma strToInt_show_int:
  assumes "- (2 ^ 63) \<le> i" and "i < 2 ^ 63"
  shows "strToInt (show_int i) = (if INT_MIN < i \<and> i < INT_MAX then Inr i else Inl (ExitCode 1))"
  by (simp add: strToInt_def strtol10_show_int [OF assms])


section \<open>Messages and pauses\<close>

fun texts :: "string \<Rightarrow> example_event list \<Rightarrow> string list" where
  "texts t [] = []"
| "texts t (Delivers u msg # evs) = (if u = t then [msg] else []) @ texts t evs"
| "texts t (_ # evs) = texts t evs"

fun message_lines :: "string \<Rightarrow> line list \<Rightarrow> (nat \<times> string) list" where
  "message_lines t [] = []"
| "message_lines t (MessageLine u i msg # ls) = (if u = t then [(i, msg)] else []) @ message_lines t ls"
| "message_lines t (_ # ls) = message_lines t ls"

lemma message_lines_append [simp]: "message_lines t (ls @ ls') = message_lines t ls @ message_lines t ls'"
  by (induction t ls rule: message_lines.induct) simp_all

lemma texts_append [simp]: "texts t (evs @ evs') = texts t evs @ texts t evs'"
  by (induction t evs rule: texts.induct) simp_all









text \<open>What the consumer of Kafka is told: each pause and resume that the example prints has its call of
  librdkafka, for partitions of this topic only.\<close>

fun is_pausing :: "rk_call \<Rightarrow> bool" where
  "is_pausing (PausePartitions lst) = True"
| "is_pausing (ResumePartitions lst) = True"
| "is_pausing _ = False"

definition pausing_calls :: "qbus_consumer \<Rightarrow> rk_call list" where
  "pausing_calls q = (case q of Some (KafkaConsumer (Some c)) \<Rightarrow> filter is_pausing (calls c) | _ \<Rightarrow> [])"



fun on_kafka :: "qbus_consumer \<Rightarrow> bool" where
  "on_kafka (Some (KafkaConsumer (Some c))) = True"
| "on_kafka _ = False"

text \<open>The consumer's own thread neither pauses nor resumes; its iterations are such work.\<close>

definition works_quietly :: "(qbus_consumer \<Rightarrow> qbus_consumer) \<Rightarrow> bool" where
  "works_quietly f \<longleftrightarrow> (\<forall>q. on_kafka q \<longrightarrow> on_kafka (f q) \<and> pausing_calls (f q) = pausing_calls q)"






text \<open>An iteration of Kafka's poll thread works quietly.\<close>

lemma pausing_rebalance: "filter is_pausing (calls (rdkafka_rebalance_cb lib ev c)) = filter is_pausing (calls c)"
  and pausing_flush: "filter is_pausing (calls (manualCommitWaitOffset lib f c)) = filter is_pausing (calls c)"
proof -
  have "filter is_pausing (concat (map (\<lambda>(k, m). [CommitMessage m, MessageDestroy (m_ptr m)]) xs)) = []"
    for xs :: "(string \<times> rk_message) list" by (induction xs) auto
  then have f: "filter is_pausing (calls (manualCommitWaitOffset lib f c)) = filter is_pausing (calls c)" for f c
    by (simp add: manualCommitWaitOffset_def getCurrentTimeMs_eq Let_def calls_commit_loop)
  then show "filter is_pausing (calls (manualCommitWaitOffset lib f c)) = filter is_pausing (calls c)" .
  show "filter is_pausing (calls (rdkafka_rebalance_cb lib ev c)) = filter is_pausing (calls c)"
    using f by (auto simp: rdkafka_rebalance_cb_def Let_def split: rebalance.split)
qed

lemma pausing_tables:
  "filter is_pausing (calls (addWaitCommitOffset m c)) = filter is_pausing (calls c)"
  "filter is_pausing (calls (addWaitDestroyMsgs m c)) = filter is_pausing (calls c)"
  "filter is_pausing (calls (commitOffset mo c)) = filter is_pausing (calls c)"
  by (simp_all add: commitOffset_def addWaitCommitOffset_def addWaitDestroyMsgs_def removeWaitDestroyMsgs_def
      filter_empty_conv Let_def split: option.split list.split)

lemma pausing_poll_body: "filter is_pausing (calls (poll_body lib user c)) = filter is_pausing (calls c)"
proof -
  have r: "filter is_pausing (calls (foldl (\<lambda>c ev. rdkafka_rebalance_cb lib ev c) d evs)) = filter is_pausing (calls d)"
    for d evs by (rule foldl_frame) (simp add: pausing_rebalance)
  have p: "filter is_pausing (calls d) = filter is_pausing (calls c)" if "consumer_poll lib c = (mo, d)" for mo d
    using that by (auto simp: consumer_poll_def Let_def r split: prod.splits)
  have u: "filter is_pausing (calls (run_commits ms d)) = filter is_pausing (calls d)" for ms d
    unfolding run_commits_def by (rule foldl_frame) (rule pausing_tables)
  have v: "filter is_pausing (calls (receivedConsumeMsg user m d)) = filter is_pausing (calls d)" for m d
    by (simp add: receivedConsumeMsg_def Let_def u)
  show ?thesis
    by (auto simp: poll_body_def Let_def v pausing_flush pausing_tables p split: prod.split option.split)
qed

lemma iteration_works_quietly: "works_quietly (facade_does env (LoopIteration user puser))"
  unfolding works_quietly_def
proof (intro allI impI)
  fix q assume "on_kafka q"
  then obtain c where "q = Some (KafkaConsumer (Some c))" by (cases q rule: on_kafka.cases) simp_all
  then show "on_kafka (facade_does env (LoopIteration user puser) q) \<and>
      pausing_calls (facade_does env (LoopIteration user puser) q) = pausing_calls q"
    by (simp add: pausing_calls_def pausing_poll_body)
qed





section \<open>Stopping\<close>

text \<open>A thread that wakes up after \<open>stop\<close> was called ends the process with an error: \<open>resume\<close> of a
  stopped consumer fails, with any implementation, and \<open>resumeTopic\<close> does not test \<open>run\<close>.\<close>

theorem waking_after_stop_exits:
  assumes "consumer_ok (the_consumer a)" and "topic \<in> set (sleeping a)"
  shows "\<exists>status. status \<noteq> ExitCode 0 \<and>
     example_step env batch (Wakes topic)
       (a\<lparr>the_consumer := snd (QbusConsumer_stop env (the_consumer a))\<rparr>) = Some (Inl status)"
proof -
  obtain r q where r: "QbusConsumer_resume env [topic] (snd (QbusConsumer_stop env (the_consumer a))) = (r, q)"
    by force
  have "\<not> accepted r"
    using stopped_consumer [OF assms(1), of "[]" _ env "[topic]"] r by (simp add: facade_controls_def)
  then show ?thesis
    using assms(2) r
    by (cases r)
       (auto simp: example_step_def example_resumeTopic_def print_line_def check_retval_def accepted_def)
qed

theorem waking_after_stop_exits_witness:
  "\<exists>status. status \<noteq> ExitCode 0 \<and>
     example_step demo_env 2 (Wakes ''t'')
       ((example_start (Some (KafkaConsumer (Some demo_started))))
          \<lparr>sleeping := [''t''], the_consumer :=
             snd (QbusConsumer_stop demo_env (Some (KafkaConsumer (Some demo_started))))\<rparr>) =
       Some (Inl status)"
  using waking_after_stop_exits
    [of "(example_start (Some (KafkaConsumer (Some demo_started))))\<lparr>sleeping := [''t'']\<rparr>" "''t''" demo_env 2]
  by (simp add: consumer_ok_def example_start_def)

section \<open>Reading the arguments\<close>

lemma demo_topics: "\<forall>t \<in> set [''topic1'', ''topic2'']. t \<noteq> [] \<and> set t \<inter> set default_delim = {}"
  by code_simp

text \<open>The arguments are read back as they are written: topics joined by commas, if none is empty or
  contains a delimiter, and an \<open>int\<close> in decimal, except the two ends of its range, for which the
  program ends like for a number outside it.\<close>

theorem arguments_read_back:
  assumes "\<forall>t \<in> set topics. t \<noteq> [] \<and> set t \<inter> set default_delim = {}"
    and "- (2 ^ 63) \<le> i" and "i < 2 ^ 63"
  shows "split_tokens (with_commas topics) default_delim = topics \<and>
     strToInt (show_int i) = (if INT_MIN < i \<and> i < INT_MAX then Inr i else Inl (ExitCode 1))"
  using split_with_commas [OF assms(1)] strToInt_show_int [OF assms(2,3)] by blast

theorem arguments_read_back_witness:
  "split_tokens (with_commas [''topic1'', ''topic2'']) default_delim = [''topic1'', ''topic2''] \<and>
   strToInt (show_int INT_MAX) = Inl (ExitCode 1)"
  using arguments_read_back [OF demo_topics, of INT_MAX] by (simp add: INT_MAX_def)

text \<open>Text that does not begin with a number is the batch size 0, and the first message then divides
  by zero.\<close>

theorem batch_size_of_text_divides_by_zero:
  assumes "s = c # s'" and "\<not> c_isspace c" and "\<not> c_isdigit c" and "c \<noteq> CHR ''-''" and "c \<noteq> CHR ''+''"
  shows "strToInt s = Inr 0 \<and> example_deliveryMsg env 0 topic msg a = None"
  using assms
  by (simp add: strToInt_def strtol10_def digits_value_def clamp_long_def INT_MIN_def INT_MAX_def
      example_deliveryMsg_def size_t_def)

end
