(* ===== verification/Spec2Isabelle.thy ===== *)
theory Spec2Isabelle
  imports Kafka_Thread Kafka_Locking Kafka_Consumer_Types Kafka_Record_Msg Pulsar_Logging
    Kafka_Diagnostics Kafka_Crashes Kafka_Lifetime Kafka_Producer_Accounts Producer_Maps
    Pulsar_Restart Pulsar_Crashes Pulsar_Producer_Accounts Examples_Pause_Resume
begin

text \<open>
  A verification development for qbusbridge, the C++ library with which applications produce to and
  consume from Kafka or Pulsar through one interface (the sources are under src/cxx/src; the bindings
  for Go, PHP and Python are generated over it).

  \<^bold>\<open>The program.\<close> An application holds a \<open>QbusConsumer\<close> or \<open>QbusProducer\<close> (qbus_consumer.cc,
  qbus_producer.cc). The first \<open>init\<close> reads \<open>mq.type\<close> of the configuration file (mq_type.h) and creates
  an implementation behind the virtual class \<open>Imp\<close>: kafka/, over librdkafka, or pulsar/, over the
  Pulsar client. In the build for PHP (\<open>NOT_USE_CONSUMER_CALLBACK\<close>) messages are fetched with
  \<open>consume\<close> instead of a callback, and producers are shared through two process-wide maps.

  \<^bold>\<open>Theories, from the bottom up.\<close>

  \<^item> Qbus_Prelude: shared types (exceptions) and list lemmas. Std_Map: \<open>std::map\<close> and \<open>std::set\<close> with
    the locale \<open>std_map\<close>. Cpp_Strings: the C string functions and number conversions. Boost_Ptree: the
    interface of the INI parser, a parameter of the model.
  \<^item> Qbus_Interface: the locales \<open>producer_interface\<close> and \<open>consumer_interface\<close> for the virtual classes
    (qbus_producer_imp.h, qbus_consumer_imp.h); each implementation interprets them.
  \<^item> Kafka_Lib: the calls to librdkafka and what it answers. Kafka_Logger (kafka/util/logger.cc),
    Kafka_Config (kafka/qbus_config.cc, qbus_helper.cc, qbus_constant.h), Kafka_Topics
    (kafka/qbus_topic_partition_set.cc, qbus_rdkafka.cc).
  \<^item> Kafka_Offsets: the two tables of messages that wait for a commit or for the user, in
    kafka/qbus_consumer.cc. Kafka_Consumer: the rest of that file. Kafka_Consumer_Proofs: the account
    of the live messages and its preservation. Kafka_Session: sessions as an inductive step relation.
    Kafka_Consumer_Props, Kafka_Consumer_Setup, Kafka_Consumer_Types: properties of the consumer, of
    its settings and of its containers.
  \<^item> Kafka_Offset_Spec: an abstract specification of the two tables, by topic and partition, and the view
    that relates them to it; Kafka_Offset_Refinement: the refinement, and what a session commits.
  \<^item> Kafka_Thread (kafka/qbus_thread.cc): the wrappers of pthread. Lock_Machine: threads that take one
    mutex for sections of statements, with the locale \<open>critical_sections\<close>; Kafka_Locking: the functions
    on the offset tables, statement by statement, under \<open>wait_commit_msgs_mutex_\<close>. Loop_Thread: a thread
    that loops while a flag is set and another that stops and joins it, with the locale
    \<open>stoppable_loop\<close>; Kafka_Poll_Thread: the poll thread in steps beside \<open>stop\<close>.
    Kafka_Lifetime: the destructor beside the poll thread, with the statements at which the thread
    touches the object that was deleted.
  \<^item> Handover: a log of things that arrive and are handed on, one at a time. Kafka_Delivery: the callback
    gets what arrives, in order, and what is committed was delivered; the locale \<open>message_account\<close>
    carries an account of the messages over whole sessions and is interpreted for both statements.
    Pulsar_Delivery: the same for Pulsar. At_Least_Once: processes that die and begin again where they
    committed, with the locale \<open>delivering_client\<close>; Kafka_Crashes and Pulsar_Crashes interpret it.
  \<^item> Kafka_Producer (kafka/qbus_producer.cc, qbus_producer_imp_map.cc) and Kafka_Producer_Props.
    Kafka_Record_Msg (kafka/qbus_record_msg.cc): the record of failed messages. Kafka_Producer_Accounts:
    what becomes of every message that a producer accepted. Kafka_Diagnostics: the macros of the log
    and the two functions that only write to one.
  \<^item> Pulsar_Lib: the calls to the Pulsar client, and the timer (pulsar/timer.cc). Pulsar_Config
    (pulsar/pulsar_config.cc, property_tree_proxy.h and the two config structs). Pulsar_Consumer
    (pulsar/qbus_consumer.cc, qbus_php_consumer.cc), Pulsar_Producer (pulsar/qbus_producer.cc,
    retryable_send_callback.cc, qbus_php_producer.cc, qbus_producer_map.cc), each with its \<open>_Props\<close>.
    Pulsar_Producer_Accounts: what becomes of every message that a producer accepted, over any history
    of sends and reports, against the library's own answers. Pulsar_Newest: what is acknowledged when a consumer stops. Pulsar_Threads: the loop in steps beside
    \<open>stop\<close>; Pulsar_Restart: any number of loops beside \<open>start\<close> and \<open>stop\<close>, the future and
    \<open>force.stop\<close>. Pulsar_Logging
    (pulsar/log4cplus_logger.cc, log_utils.h, to_string.h, property_tree_proxy.cc).
  \<^item> Producer_Maps: the two process-wide maps of producers, used by several threads: Kafka's under
    \<open>kRmtx\<close>, as an instance of \<open>critical_sections\<close>, and Pulsar's without a lock.
  \<^item> Qbus_Facade (qbus_consumer.cc, qbus_producer.cc, mq_type.h) and Qbus_Facade_Props.
  \<^item> Examples_Consumer, Examples_Producer, Examples_Pause_Resume: the programs under src/cxx/examples as
    functions of their arguments, with the properties of the library that they rest on.

  \<^bold>\<open>How the code is represented.\<close> An object is a record of its fields; a member function takes it and
  returns the result and the new object. Pointers that the code only tests for NULL are truth values.
  A function that may throw returns \<open>exn + 'a\<close>. Definitions keep the names of the functions, prefixed
  where two classes share one (\<open>KConsumer_\<close>, \<open>KProducer_\<close> and \<open>PhpProducer_\<close> for the outer Kafka
  classes, \<open>pulsar_\<close> and \<open>php_\<close> for the Pulsar ones, \<open>QbusConsumer_\<close> and \<open>QbusProducer_\<close> for the facade).

  The client libraries are parameters. Each object carries the log of the calls it has made, and a
  record (\<open>rk_lib\<close>, \<open>pulsar_lib\<close>) answers a call as a function of the log, so that a statement for all
  such records covers every sequence of answers, of messages, of rebalances and of times. What the
  code relies on is stated as named laws where it is used: \<open>list_add_law\<close>, \<open>id_law\<close> (an id survives
  its serialization), \<open>order_law\<close> (a hash map is traversed in some order, each entry once),
  \<open>put_law\<close>, \<open>prompt_law\<close> (a callback that runs before \<open>sendAsync\<close> returns is not given a timeout),
  \<open>in_sequence\<close> and \<open>resumes_at\<close> (where a consumer begins, and that nothing is left out from there). Every
  law is shown to hold of a concrete instance in the witnesses.

  Threads: the loops of both consumers are functions of one iteration (\<open>poll_body\<close>, \<open>consume_body\<close>)
  and of a number of iterations (\<open>poll_loop\<close>, \<open>consume_loop\<close>), followed by \<open>stop\<close>; the calls of the user
  come between iterations, by the relation \<open>consumer_step\<close>. Three theories justify this from machines
  whose threads interleave in smaller steps. Kafka_Poll_Thread and Pulsar_Threads cut an iteration
  at its calls and let \<open>stop\<close> reset the flag anywhere: by \<open>stoppable_loop\<close> the result is that of whole
  iterations, except that a rebalance may fill the set of partitions again after \<open>stop\<close> cleared it.
  Kafka_Locking takes the functions on the offset tables apart into statements under the mutex: by
  \<open>critical_sections\<close> they are serial. \<open>commitOffset\<close> takes the mutex twice; \<open>consumer_step\<close> has it as
  a whole step, as it is in the callback or while no other thread works on the tables, and
  \<open>commitOffset_races_with_flush\<close> shows what else can happen. With \<open>force.stop\<close> the loop of Pulsar is
  not waited for; Pulsar_Restart has the loops that may then run beside each other. \<open>init\<close> of the
  producers of Kafka in the build without callbacks is one step for Kafka_Producer; Producer_Maps takes
  it apart under its mutex. A destructor may come anywhere (Kafka_Lifetime, \<open>destructor_needs_stop\<close>).
  Steps of these machines are atomic: a data race on a field that no lock protects is visible as an
  interleaving, not as the undefined behaviour that it is in C++.

  \<^bold>\<open>Bounds and fuel.\<close> All definitions are total. \<open>sync_wait\<close> takes the number of retries, 30, and
  \<open>wait_destroyed_loop\<close> the number of waits, 5, from the code; \<open>send_loop\<close> takes
  \<open>queue.full.retry.count\<close>; \<open>run_callback\<close> ends because every retry raises the count towards its
  limit. \<open>poll_loop\<close> and \<open>consume_loop\<close> take the number of times that the flag is seen set, for which
  all properties hold. Only the random partitioner has no bound in the code: \<open>partitionHashFunc\<close> takes
  fuel and is None without a result; \<open>random_partition\<close> says how much is enough. The interleavings of
  Lock_Machine and Loop_Thread are finite runs of any length; each section and each iteration ends, by
  the rank of its program points, and after the flag is reset \<open>stop\<close> of Kafka is at most 10 steps from
  the join (\<open>kafka_stop_returns\<close>), that of Pulsar at most 7 (\<open>pulsar_stop_returns\<close>).

  \<^bold>\<open>What the properties show.\<close> Each property says under which conditions it holds; the ones that come
  back are these. A user of Kafka's commits \<^emph>\<open>carefully\<close>: only messages that still wait for it
  (\<open>careful\<close>, \<open>consumer_step\<close>). Topics are \<^emph>\<open>proper\<close>: none ends in a digit and no partition is negative, so
  that the keys of the tables do not collide (\<open>proper_messages\<close>, \<open>keyed\<close>). A \<open>stop\<close> of Pulsar \<^emph>\<open>waits\<close> for
  the loop: \<open>force.stop\<close> is off.

  Consumers: with a careful user a message of Kafka is freed once and not used afterwards, wherever \<open>stop\<close>
  interrupts the poll thread. The callback gets each message that arrives, whole, once and in order, and
  nothing is committed before it was delivered: for Kafka always, for Pulsar when \<open>stop\<close> waits. No crash at
  any call loses a message, as long as the user commits or acknowledges only what arrived, \<open>stop\<close> of
  Pulsar waits, and librdkafka does not commit by itself. For proper topics the offset tables implement
  their specification, and what is committed last is the newest message of each partition. The operations
  on the tables are serial under their mutex and no thread is stuck. Pulsar requests acknowledgements at
  the configured intervals, and a \<open>stop\<close> that waits has requested that of the newest message of every topic,
  in every mode. The limits are stated too: commits of the user repeated or in another thread, colliding
  keys, \<open>manual.ack\<close>, \<open>force.stop\<close>, a destructor without \<open>stop\<close>. Producers: how often a message is sent,
  what a result means, where a message goes, and that none disappears: with Kafka when the record of
  failed messages is on or nothing is refused, with Pulsar when a callback that runs at once is not given a
  timeout; in the build without callbacks, that objects with one key share one implementation when
  the map has a lock, and that they may not when it has none. Configuration: which setting wins. The
  facade: a stopped or closed object does nothing until it is started. The examples: what they send, consume, commit and pause,
  down to the calls that the library makes for them.

  \<^bold>\<open>Not modelled.\<close> Which lines the Kafka side logs where, and the usage texts of the examples;
  the guards of kafka/qbus_rdkafka.h, which only free what they hold; the bindings, which are
  generated from SWIG interfaces. What else of src/cxx/src no definition covers computes nothing:
  includes, namespaces, forward declarations, the declarations of members that are defined elsewhere,
  constructors that only copy their arguments, empty destructors and comments.
\<close>

end
